theory Spec2Isabelle
  imports Main
begin

section \<open>Provider pool manager: data model\<close>

text \<open>
  Time stamps are epoch milliseconds. The source stores them as ISO-8601 strings and reads
  them back with \<open>new Date(s).getTime()\<close>; a field holding \<open>null\<close> is \<open>None\<close>.
  Every operation reads the clock once: the value is the argument \<open>now\<close>.
\<close>

type_synonym time = int

text \<open>JavaScript truthiness of a string-or-undefined value: \<open>undefined\<close>, \<open>null\<close> and
  the empty string are falsy.\<close>

definition truthy :: "string option \<Rightarrow> bool" where
  "truthy s = (case s of None \<Rightarrow> False | Some t \<Rightarrow> t \<noteq> [])"

text \<open>
  A provider configuration as it is read from the pool file: every field may be absent
  (\<open>undefined\<close>), which is \<open>None\<close>. The manager only ever tests \<open>isHealthy\<close> and
  \<open>isDisabled\<close> for their truth value and assigns \<open>true\<close> or \<open>false\<close> to them, so a
  field that is present is kept as its truth value: a \<open>null\<close> in the file is \<open>Some False\<close>.
  A \<open>null\<close> counter or time stamp behaves as the default and is \<open>None\<close>.
\<close>

record rawConfig =
  r_uuid :: "string option"
  r_isHealthy :: "bool option"
  r_isDisabled :: "bool option"
  r_lastUsed :: "time option"
  r_usageCount :: "int option"
  r_errorCount :: "int option"
  r_lastErrorTime :: "time option"
  r_lastErrorMessage :: "string option"
  r_lastHealthCheckTime :: "time option"
  r_lastHealthCheckModel :: "string option"
  r_customName :: "string option"
  r_notSupportedModels :: "string list option"
  r_checkHealth :: bool
  r_checkModelName :: "string option"

text \<open>The same object after \<open>initializeProviderStatus\<close> has filled in the defaults.\<close>

record credential =
  uuid :: "string option"
  isHealthy :: bool
  isDisabled :: bool
  lastUsed :: "time option"
  usageCount :: int
  errorCount :: int
  lastErrorTime :: "time option"
  lastErrorMessage :: "string option"
  lastHealthCheckTime :: "time option"
  lastHealthCheckModel :: "string option"
  customName :: "string option"
  notSupportedModels :: "string list option"
  checkHealth :: bool
  checkModelName :: "string option"

record stickySession =
  s_providerType :: string
  s_providerUuid :: "string option"
  createdAt :: time
  lastAccessedAt :: time
  requestCount :: int

record modelMapping =
  targetProviderType :: "string option"
  targetModel :: "string option"

text \<open>
  \<open>providerStatus\<close> is a JavaScript object from provider type to an array of status
  entries, \<open>stickySessionMap\<close> a \<open>Map\<close> and \<open>pendingSaves\<close> a \<open>Set\<close>: all three keep
  insertion order, so they are association lists and a duplicate-free list.
  \<open>saveTimer\<close> is \<open>True\<close> while the debounce timer is armed.
\<close>

record poolManager =
  providerStatus :: "(string \<times> credential list) list"
  maxErrorCount :: int
  pendingSaves :: "string list"
  saveTimer :: bool
  fallbackChain :: "(string \<times> string list) list"
  modelFallbackMapping :: "(string \<times> modelMapping) list"
  sticky_enabled :: bool
  ttlMs :: int
  maxSessions :: int
  stickySessionMap :: "(string \<times> stickySession) list"

record selectOptions =
  sessionId :: "string option"
  skipUsageCount :: bool
  isFromFallback :: bool

section \<open>Provider pool manager: initialisation and lookup\<close>

definition initConfig :: "rawConfig \<Rightarrow> credential" where
  "initConfig r =
     \<lparr> uuid = r_uuid r,
       isHealthy = (case r_isHealthy r of None \<Rightarrow> True | Some b \<Rightarrow> b),
       isDisabled = (case r_isDisabled r of None \<Rightarrow> False | Some b \<Rightarrow> b),
       lastUsed = r_lastUsed r,
       usageCount = (case r_usageCount r of None \<Rightarrow> 0 | Some n \<Rightarrow> n),
       errorCount = (case r_errorCount r of None \<Rightarrow> 0 | Some n \<Rightarrow> n),
       lastErrorTime = r_lastErrorTime r,
       lastErrorMessage = (if truthy (r_lastErrorMessage r) then r_lastErrorMessage r else None),
       lastHealthCheckTime = r_lastHealthCheckTime r,
       lastHealthCheckModel =
         (if truthy (r_lastHealthCheckModel r) then r_lastHealthCheckModel r else None),
       customName = (if truthy (r_customName r) then r_customName r else None),
       notSupportedModels = r_notSupportedModels r,
       checkHealth = r_checkHealth r,
       checkModelName = r_checkModelName r \<rparr>"

definition initializeProviderStatus ::
  "(string \<times> rawConfig list) list \<Rightarrow> poolManager \<Rightarrow> poolManager" where
  "initializeProviderStatus providerPools m =
     m\<lparr>providerStatus := map (\<lambda>(providerType, cfgs). (providerType, map initConfig cfgs)) providerPools\<rparr>"

text \<open>The configuration objects of \<open>providerPools\<close> are the objects the status entries point
  to; this is how a later call of \<open>initializeProviderStatus\<close> sees them.\<close>

definition toRaw :: "credential \<Rightarrow> rawConfig" where
  "toRaw c =
     \<lparr> r_uuid = uuid c, r_isHealthy = Some (isHealthy c), r_isDisabled = Some (isDisabled c),
       r_lastUsed = lastUsed c, r_usageCount = Some (usageCount c),
       r_errorCount = Some (errorCount c), r_lastErrorTime = lastErrorTime c,
       r_lastErrorMessage = lastErrorMessage c, r_lastHealthCheckTime = lastHealthCheckTime c,
       r_lastHealthCheckModel = lastHealthCheckModel c, r_customName = customName c,
       r_notSupportedModels = notSupportedModels c, r_checkHealth = checkHealth c,
       r_checkModelName = checkModelName c \<rparr>"

definition livePools :: "poolManager \<Rightarrow> (string \<times> rawConfig list) list" where
  "livePools m = map (\<lambda>(providerType, pool). (providerType, map toRaw pool)) (providerStatus m)"

definition poolOf :: "poolManager \<Rightarrow> string \<Rightarrow> credential list" where
  "poolOf m providerType =
     (case map_of (providerStatus m) providerType of None \<Rightarrow> [] | Some pool \<Rightarrow> pool)"

fun findIndex :: "('a \<Rightarrow> bool) \<Rightarrow> 'a list \<Rightarrow> nat option" where
  "findIndex P [] = None"
| "findIndex P (x # xs) =
     (if P x then Some 0 else (case findIndex P xs of None \<Rightarrow> None | Some i \<Rightarrow> Some (Suc i)))"

text \<open>\<open>_findProvider\<close>: the position, in the pool of \<open>providerType\<close>, of the first entry
  with the given uuid.\<close>

definition findProvider :: "poolManager \<Rightarrow> string \<Rightarrow> string option \<Rightarrow> nat option" where
  "findProvider m providerType u =
     (if providerType = [] \<or> \<not> truthy u then None
      else findIndex (\<lambda>p. uuid p = u) (poolOf m providerType))"

fun mapEntry :: "string \<Rightarrow> ('v \<Rightarrow> 'v) \<Rightarrow> (string \<times> 'v) list \<Rightarrow> (string \<times> 'v) list" where
  "mapEntry k f [] = []"
| "mapEntry k f ((k', v) # rest) =
     (if k = k' then (k', f v) # rest else (k', v) # mapEntry k f rest)"

definition updCred ::
  "string \<Rightarrow> nat \<Rightarrow> (credential \<Rightarrow> credential) \<Rightarrow> poolManager \<Rightarrow> poolManager" where
  "updCred providerType i f m =
     m\<lparr>providerStatus :=
         mapEntry providerType (\<lambda>pool. pool[i := f (pool ! i)]) (providerStatus m)\<rparr>"

text \<open>\<open>_debouncedSave\<close>: remember the provider type and (re)arm the timer.\<close>

definition debouncedSave :: "string \<Rightarrow> poolManager \<Rightarrow> poolManager" where
  "debouncedSave providerType m =
     m\<lparr>pendingSaves :=
          (if providerType \<in> set (pendingSaves m) then pendingSaves m
           else pendingSaves m @ [providerType]),
       saveTimer := True\<rparr>"

section \<open>Provider pool manager: health marking\<close>

definition markProviderUnhealthy ::
  "time \<Rightarrow> string \<Rightarrow> string option \<Rightarrow> string option \<Rightarrow> poolManager \<Rightarrow> poolManager" where
  "markProviderUnhealthy now providerType u errorMessage m =
     (if \<not> truthy u then m
      else case findProvider m providerType u of
        None \<Rightarrow> m
      | Some i \<Rightarrow>
          debouncedSave providerType
            (updCred providerType i
              (\<lambda>c. let lastErr = (case lastErrorTime c of None \<Rightarrow> 0 | Some t \<Rightarrow> t);
                        errorWindowMs = 10000;
                        c1 = c\<lparr>errorCount :=
                                 (if now - lastErr > errorWindowMs then 1 else errorCount c + 1)\<rparr>;
                        c2 = c1\<lparr>lastErrorTime := Some now, lastUsed := Some now\<rparr>;
                        c3 = (if truthy errorMessage then c2\<lparr>lastErrorMessage := errorMessage\<rparr>
                              else c2)
                    in if errorCount c3 \<ge> maxErrorCount m then c3\<lparr>isHealthy := False\<rparr> else c3)
              m))"

definition markProviderUnhealthyImmediately ::
  "time \<Rightarrow> string \<Rightarrow> string option \<Rightarrow> string option \<Rightarrow> poolManager \<Rightarrow> poolManager" where
  "markProviderUnhealthyImmediately now providerType u errorMessage m =
     (if \<not> truthy u then m
      else case findProvider m providerType u of
        None \<Rightarrow> m
      | Some i \<Rightarrow>
          debouncedSave providerType
            (updCred providerType i
              (\<lambda>c. let c1 = c\<lparr>isHealthy := False, errorCount := maxErrorCount m,
                                lastErrorTime := Some now, lastUsed := Some now\<rparr>
                    in if truthy errorMessage then c1\<lparr>lastErrorMessage := errorMessage\<rparr> else c1)
              m))"

definition markProviderHealthy ::
  "time \<Rightarrow> string \<Rightarrow> string option \<Rightarrow> bool \<Rightarrow> string option \<Rightarrow> poolManager \<Rightarrow> poolManager"
  where
  "markProviderHealthy now providerType u resetUsageCount healthCheckModel m =
     (if \<not> truthy u then m
      else case findProvider m providerType u of
        None \<Rightarrow> m
      | Some i \<Rightarrow>
          debouncedSave providerType
            (updCred providerType i
              (\<lambda>c. let c1 = c\<lparr>isHealthy := True, errorCount := 0, lastErrorTime := None,
                                lastErrorMessage := None, lastHealthCheckTime := Some now\<rparr>;
                        c2 = (if truthy healthCheckModel
                              then c1\<lparr>lastHealthCheckModel := healthCheckModel\<rparr> else c1)
                    in if resetUsageCount then c2\<lparr>usageCount := 0\<rparr>
                       else c2\<lparr>usageCount := usageCount c2 + 1, lastUsed := Some now\<rparr>)
              m))"

definition resetProviderCounters :: "string \<Rightarrow> string option \<Rightarrow> poolManager \<Rightarrow> poolManager" where
  "resetProviderCounters providerType u m =
     (if \<not> truthy u then m
      else case findProvider m providerType u of
        None \<Rightarrow> m
      | Some i \<Rightarrow>
          debouncedSave providerType
            (updCred providerType i (\<lambda>c. c\<lparr>errorCount := 0, usageCount := 0\<rparr>) m))"

definition disableProvider :: "string \<Rightarrow> string option \<Rightarrow> poolManager \<Rightarrow> poolManager" where
  "disableProvider providerType u m =
     (if \<not> truthy u then m
      else case findProvider m providerType u of
        None \<Rightarrow> m
      | Some i \<Rightarrow> debouncedSave providerType (updCred providerType i (\<lambda>c. c\<lparr>isDisabled := True\<rparr>) m))"

definition enableProvider :: "string \<Rightarrow> string option \<Rightarrow> poolManager \<Rightarrow> poolManager" where
  "enableProvider providerType u m =
     (if \<not> truthy u then m
      else case findProvider m providerType u of
        None \<Rightarrow> m
      | Some i \<Rightarrow> debouncedSave providerType (updCred providerType i (\<lambda>c. c\<lparr>isDisabled := False\<rparr>) m))"

text \<open>The six state-mutating operations that address a credential by type and uuid.\<close>

datatype markOp =
    MarkUnhealthy time "string option"
  | MarkUnhealthyImmediately time "string option"
  | MarkHealthy time bool "string option"
  | ResetCounters
  | Disable
  | Enable

fun applyMarkOp :: "markOp \<Rightarrow> string \<Rightarrow> string option \<Rightarrow> poolManager \<Rightarrow> poolManager" where
  "applyMarkOp (MarkUnhealthy now msg) ty u m = markProviderUnhealthy now ty u msg m"
| "applyMarkOp (MarkUnhealthyImmediately now msg) ty u m =
     markProviderUnhealthyImmediately now ty u msg m"
| "applyMarkOp (MarkHealthy now reset model) ty u m = markProviderHealthy now ty u reset model m"
| "applyMarkOp ResetCounters ty u m = resetProviderCounters ty u m"
| "applyMarkOp Disable ty u m = disableProvider ty u m"
| "applyMarkOp Enable ty u m = enableProvider ty u m"

section \<open>Provider pool manager: sticky sessions\<close>

text \<open>Operations of a JavaScript \<open>Map\<close> on its list of entries: \<open>set\<close> on a key already
  present keeps the entry's position, on a new key appends.\<close>

definition mapDelete :: "string \<Rightarrow> (string \<times> 'v) list \<Rightarrow> (string \<times> 'v) list" where
  "mapDelete k xs = filter (\<lambda>(k', v). k' \<noteq> k) xs"

definition mapSet :: "string \<Rightarrow> 'v \<Rightarrow> (string \<times> 'v) list \<Rightarrow> (string \<times> 'v) list" where
  "mapSet k v xs = (if k \<in> fst ` set xs then mapEntry k (\<lambda>_. v) xs else xs @ [(k, v)])"

text \<open>\<open>Array.prototype.sort\<close> with a comparison function: a stable sort.\<close>

fun insertBy :: "('a \<Rightarrow> 'a \<Rightarrow> int) \<Rightarrow> 'a \<Rightarrow> 'a list \<Rightarrow> 'a list" where
  "insertBy cmp x [] = [x]"
| "insertBy cmp x (y # ys) = (if cmp x y \<le> 0 then x # y # ys else y # insertBy cmp x ys)"

definition sortBy :: "('a \<Rightarrow> 'a \<Rightarrow> int) \<Rightarrow> 'a list \<Rightarrow> 'a list" where
  "sortBy cmp xs = foldr (insertBy cmp) xs []"

definition supportsModel :: "credential \<Rightarrow> string \<Rightarrow> bool" where
  "supportsModel c model =
     (case notSupportedModels c of None \<Rightarrow> True | Some ms \<Rightarrow> model \<notin> set ms)"

text \<open>
  \<open>_trySelectFromStickySession\<close>. The result is the position of the bound credential in
  the pool of \<open>providerType\<close> (the source returns the configuration object itself), and the
  manager with the binding possibly deleted.
\<close>

definition trySelectFromStickySession ::
  "time \<Rightarrow> string \<Rightarrow> string option \<Rightarrow> string \<Rightarrow> poolManager \<Rightarrow> nat option \<times> poolManager" where
  "trySelectFromStickySession now providerType requestedModel sid m =
     (case map_of (stickySessionMap m) sid of
        None \<Rightarrow> (None, m)
      | Some session \<Rightarrow>
          if now - lastAccessedAt session > ttlMs m
          then (None, m\<lparr>stickySessionMap := mapDelete sid (stickySessionMap m)\<rparr>)
          else if s_providerType session \<noteq> providerType then (None, m)
          else (case findProvider m providerType (s_providerUuid session) of
                  None \<Rightarrow> (None, m\<lparr>stickySessionMap := mapDelete sid (stickySessionMap m)\<rparr>)
                | Some i \<Rightarrow>
                    let c = poolOf m providerType ! i in
                    if \<not> isHealthy c \<or> isDisabled c
                    then (None, m\<lparr>stickySessionMap := mapDelete sid (stickySessionMap m)\<rparr>)
                    else if truthy requestedModel \<and> \<not> supportsModel c (the requestedModel)
                    then (None, m)
                    else (Some i, m)))"

text \<open>\<open>_evictOldestSessions\<close>. The caller passes \<open>Math.floor(maxSessions * 0.1)\<close>, which
  for an integer \<open>maxSessions\<close> is \<open>maxSessions div 10\<close>.\<close>

definition evictOldestSessions :: "int \<Rightarrow> poolManager \<Rightarrow> poolManager" where
  "evictOldestSessions count m =
     (let sessions = sortBy (\<lambda>a b. lastAccessedAt (snd a) - lastAccessedAt (snd b))
                            (stickySessionMap m);
          n = nat (min count (int (length sessions)))
      in m\<lparr>stickySessionMap := foldl (\<lambda>tbl e. mapDelete (fst e) tbl) (stickySessionMap m)
                                       (take n sessions)\<rparr>)"

definition createStickySession ::
  "time \<Rightarrow> string \<Rightarrow> string \<Rightarrow> string option \<Rightarrow> poolManager \<Rightarrow> poolManager" where
  "createStickySession now sid providerType providerUuid m =
     (let m1 = (if int (length (stickySessionMap m)) \<ge> maxSessions m
                then evictOldestSessions (maxSessions m div 10) m else m)
      in m1\<lparr>stickySessionMap :=
               mapSet sid \<lparr>s_providerType = providerType, s_providerUuid = providerUuid,
                           createdAt = now, lastAccessedAt = now, requestCount = 1\<rparr>
                      (stickySessionMap m1)\<rparr>)"

definition updateStickySessionAccess :: "time \<Rightarrow> string \<Rightarrow> poolManager \<Rightarrow> poolManager" where
  "updateStickySessionAccess now sid m =
     m\<lparr>stickySessionMap :=
         mapEntry sid (\<lambda>s. s\<lparr>lastAccessedAt := now, requestCount := requestCount s + 1\<rparr>)
                  (stickySessionMap m)\<rparr>"

section \<open>Provider pool manager: selection\<close>

text \<open>The comparison function of the least-recently-used sort.\<close>

definition lruCompare :: "credential \<Rightarrow> credential \<Rightarrow> int" where
  "lruCompare a b =
     (let timeA = (case lastUsed a of None \<Rightarrow> 0 | Some t \<Rightarrow> t);
          timeB = (case lastUsed b of None \<Rightarrow> 0 | Some t \<Rightarrow> t)
      in if timeA \<noteq> timeB then timeA - timeB else usageCount a - usageCount b)"

text \<open>The status entries that survive the filters of \<open>selectProvider\<close>, each with its
  position in the pool (the source filters the entry objects themselves).\<close>

definition availableAndHealthy :: "poolManager \<Rightarrow> string \<Rightarrow> (nat \<times> credential) list" where
  "availableAndHealthy m providerType =
     filter (\<lambda>(i, c). isHealthy c \<and> \<not> isDisabled c) (enumerate 0 (poolOf m providerType))"

definition touch :: "time \<Rightarrow> credential \<Rightarrow> credential" where
  "touch now c = c\<lparr>lastUsed := Some now, usageCount := usageCount c + 1\<rparr>"

text \<open>The least-recently-used part of \<open>selectProvider\<close>, after the sticky-session step.\<close>

definition selectLRU ::
  "time \<Rightarrow> string \<Rightarrow> string option \<Rightarrow> selectOptions \<Rightarrow> poolManager
     \<Rightarrow> credential option \<times> poolManager" where
  "selectLRU now providerType requestedModel opts m =
     (let healthy = availableAndHealthy m providerType;
          modelFiltered = filter (\<lambda>(i, c). supportsModel c (the requestedModel)) healthy
      in if truthy requestedModel \<and> modelFiltered = [] then (None, m)
         else
           let candidates = (if truthy requestedModel then modelFiltered else healthy)
           in if candidates = [] then (None, m)
              else
                let selected = hd (sortBy (\<lambda>a b. lruCompare (snd a) (snd b)) candidates);
                    m1 = (if sticky_enabled m \<and> truthy (sessionId opts) \<and> \<not> isFromFallback opts
                          then createStickySession now (the (sessionId opts)) providerType
                                 (uuid (snd selected)) m
                          else m);
                    m2 = (if \<not> skipUsageCount opts
                          then debouncedSave providerType
                                 (updCred providerType (fst selected) (touch now) m1)
                          else m1)
                in (Some (poolOf m2 providerType ! fst selected), m2))"

definition selectProvider ::
  "time \<Rightarrow> string \<Rightarrow> string option \<Rightarrow> selectOptions \<Rightarrow> poolManager
     \<Rightarrow> credential option \<times> poolManager" where
  "selectProvider now providerType requestedModel opts m =
     (if providerType = [] then (None, m)
      else if sticky_enabled m \<and> truthy (sessionId opts)
      then (case trySelectFromStickySession now providerType requestedModel
                   (the (sessionId opts)) m of
              (Some i, m1) \<Rightarrow>
                let m2 = updateStickySessionAccess now (the (sessionId opts)) m1;
                    m3 = (if \<not> skipUsageCount opts
                          then debouncedSave providerType (updCred providerType i (touch now) m2)
                          else m2)
                in (Some (poolOf m3 providerType ! i), m3)
            | (None, m1) \<Rightarrow> selectLRU now providerType requestedModel opts m1)
      else selectLRU now providerType requestedModel opts m)"

section \<open>Provider pool manager: selection with fallback\<close>

record fallbackResult =
  config :: credential
  actualProviderType :: string
  isFallback :: bool
  actualModel :: "string option"

definition chainOf :: "poolManager \<Rightarrow> string \<Rightarrow> string list" where
  "chainOf m providerType =
     (case map_of (fallbackChain m) providerType of None \<Rightarrow> [] | Some ts \<Rightarrow> ts)"

text \<open>
  \<open>getProtocolPrefix\<close> (utils/common.js) and \<open>getProviderModels\<close> (provider-models.js) are
  imported by the pool manager; they are the arguments \<open>gpp\<close> and \<open>gpm\<close> below.

  First tier: the loop over \<open>[providerType, ...fallbackChain[providerType]]\<close>, with the set
  of types already tried.
\<close>

fun tryChain ::
  "(string \<Rightarrow> string) \<Rightarrow> (string \<Rightarrow> string list) \<Rightarrow> time \<Rightarrow> string \<Rightarrow> string option
     \<Rightarrow> selectOptions \<Rightarrow> string list \<Rightarrow> string list \<Rightarrow> poolManager
     \<Rightarrow> fallbackResult option \<times> poolManager" where
  "tryChain gpp gpm now providerType requestedModel opts [] triedTypes m = (None, m)"
| "tryChain gpp gpm now providerType requestedModel opts (currentType # rest) triedTypes m =
     (if currentType \<in> set triedTypes
      then tryChain gpp gpm now providerType requestedModel opts rest triedTypes m
      else if poolOf m currentType = []
      then tryChain gpp gpm now providerType requestedModel opts rest (currentType # triedTypes) m
      else if currentType \<noteq> providerType \<and> truthy requestedModel \<and>
              (gpp providerType \<noteq> gpp currentType \<or>
               (gpm currentType \<noteq> [] \<and> the requestedModel \<notin> set (gpm currentType)))
      then tryChain gpp gpm now providerType requestedModel opts rest (currentType # triedTypes) m
      else (case selectProvider now currentType requestedModel
                   (opts\<lparr>isFromFallback := (currentType \<noteq> providerType)\<rparr>) m of
              (Some selectedConfig, m') \<Rightarrow>
                (Some \<lparr>config = selectedConfig, actualProviderType = currentType,
                       isFallback = (currentType \<noteq> providerType), actualModel = None\<rparr>, m')
            | (None, m') \<Rightarrow>
                tryChain gpp gpm now providerType requestedModel opts rest
                  (currentType # triedTypes) m'))"

text \<open>Second tier, inner loop: the fallback chain of the mapping's target type.\<close>

fun tryTargetChain ::
  "(string \<Rightarrow> string) \<Rightarrow> (string \<Rightarrow> string list) \<Rightarrow> time \<Rightarrow> string \<Rightarrow> string
     \<Rightarrow> selectOptions \<Rightarrow> string list \<Rightarrow> poolManager \<Rightarrow> fallbackResult option \<times> poolManager"
  where
  "tryTargetChain gpp gpm now target tModel opts [] m = (None, m)"
| "tryTargetChain gpp gpm now target tModel opts (fallbackType # rest) m =
     (if gpp target \<noteq> gpp fallbackType then tryTargetChain gpp gpm now target tModel opts rest m
      else if gpm fallbackType \<noteq> [] \<and> tModel \<notin> set (gpm fallbackType)
      then tryTargetChain gpp gpm now target tModel opts rest m
      else (case selectProvider now fallbackType (Some tModel) (opts\<lparr>isFromFallback := True\<rparr>) m of
              (Some fallbackSelectedConfig, m') \<Rightarrow>
                (Some \<lparr>config = fallbackSelectedConfig, actualProviderType = fallbackType,
                       isFallback = True, actualModel = Some tModel\<rparr>, m')
            | (None, m') \<Rightarrow> tryTargetChain gpp gpm now target tModel opts rest m'))"

definition tryModelMapping ::
  "(string \<Rightarrow> string) \<Rightarrow> (string \<Rightarrow> string list) \<Rightarrow> time \<Rightarrow> string option
     \<Rightarrow> selectOptions \<Rightarrow> poolManager \<Rightarrow> fallbackResult option \<times> poolManager" where
  "tryModelMapping gpp gpm now requestedModel opts m =
     (if \<not> truthy requestedModel then (None, m)
      else case map_of (modelFallbackMapping m) (the requestedModel) of
        None \<Rightarrow> (None, m)
      | Some mapping \<Rightarrow>
          if \<not> (truthy (targetProviderType mapping) \<and> truthy (targetModel mapping)) then (None, m)
          else
            let target = the (targetProviderType mapping); tModel = the (targetModel mapping)
            in if poolOf m target = [] then (None, m)
               else (case selectProvider now target (Some tModel) (opts\<lparr>isFromFallback := True\<rparr>) m of
                       (Some selectedConfig, m') \<Rightarrow>
                         (Some \<lparr>config = selectedConfig, actualProviderType = target,
                                isFallback = True, actualModel = Some tModel\<rparr>, m')
                     | (None, m') \<Rightarrow>
                         tryTargetChain gpp gpm now target tModel opts (chainOf m' target) m'))"

definition selectProviderWithFallback ::
  "(string \<Rightarrow> string) \<Rightarrow> (string \<Rightarrow> string list) \<Rightarrow> time \<Rightarrow> string \<Rightarrow> string option
     \<Rightarrow> selectOptions \<Rightarrow> poolManager \<Rightarrow> fallbackResult option \<times> poolManager" where
  "selectProviderWithFallback gpp gpm now providerType requestedModel opts m =
     (if providerType = [] then (None, m)
      else (case tryChain gpp gpm now providerType requestedModel opts
                   (providerType # chainOf m providerType) [] m of
              (Some r, m') \<Rightarrow> (Some r, m')
            | (None, m') \<Rightarrow> tryModelMapping gpp gpm now requestedModel opts m'))"

section \<open>Provider pool manager: health checks\<close>

definition DEFAULT_HEALTH_CHECK_MODELS :: "(string \<times> string) list" where
  "DEFAULT_HEALTH_CHECK_MODELS =
     [(''gemini-cli-oauth'', ''gemini-2.5-flash''),
      (''gemini-antigravity'', ''gemini-2.5-flash''),
      (''openai-custom'', ''gpt-3.5-turbo''),
      (''claude-custom'', ''claude-3-7-sonnet-20250219''),
      (''claude-kiro-oauth'', ''claude-haiku-4-5''),
      (''openai-qwen-oauth'', ''qwen3-coder-flash''),
      (''openaiResponses-custom'', ''gpt-4o-mini'')]"

definition startsWith :: "string \<Rightarrow> string \<Rightarrow> bool" where
  "startsWith s p = (take (length p) s = p)"

text \<open>A health-check request body: its format, the model it names and its \<open>max_tokens\<close>.\<close>

datatype hcRequest =
    ContentsFormat "nat option"
  | MessagesFormat string "nat option"
  | InputFormat string

text \<open>\<open>_buildHealthCheckRequests\<close>. The constant \<open>MODEL_PROVIDER.OPENAI_CUSTOM_RESPONSES\<close>
  of utils/common.js is the key \<open>openaiResponses-custom\<close> of the table above.\<close>

definition buildHealthCheckRequests :: "string \<Rightarrow> string \<Rightarrow> hcRequest list" where
  "buildHealthCheckRequests providerType modelName =
     (if startsWith providerType ''gemini'' then [ContentsFormat None]
      else if startsWith providerType ''claude-kiro''
      then [MessagesFormat modelName (Some 1), ContentsFormat (Some 1)]
      else if providerType = ''openaiResponses-custom'' then [InputFormat modelName]
      else [MessagesFormat modelName None])"

text \<open>
  The upstream, as the health check sees it: \<open>getServiceAdapter\<close> may throw (\<open>Some\<close> of the
  error's message), and each \<open>generateContent\<close> call of the adapter returns or throws.
\<close>

datatype genResult = GenOk | GenThrows "string option"

record adapterOracle =
  getServiceAdapterThrows :: "string \<Rightarrow> credential \<Rightarrow> string option option"
  generateContent :: "string \<Rightarrow> credential \<Rightarrow> string \<Rightarrow> hcRequest \<Rightarrow> genResult"

record healthResult =
  success :: bool
  modelName :: "string option"
  errorMessage :: "string option"

text \<open>A probe that was sent: provider type, uuid, model and request.\<close>

type_synonym probe = "string \<times> string option \<times> string \<times> hcRequest"

datatype checkOutcome = Threw "string option" | Returned "healthResult option"

text \<open>The retry loop of \<open>_checkProviderHealth\<close> over the request formats; the second
  component is the message of the last error.\<close>

fun tryRequests ::
  "(hcRequest \<Rightarrow> genResult) \<Rightarrow> hcRequest list \<Rightarrow> string option \<Rightarrow> bool \<times> string option \<times> hcRequest list"
  where
  "tryRequests gen [] lastError = (False, lastError, [])"
| "tryRequests gen (r # rs) lastError =
     (case gen r of
        GenOk \<Rightarrow> (True, lastError, [r])
      | GenThrows e \<Rightarrow>
          (case tryRequests gen rs e of (ok, le, sent) \<Rightarrow> (ok, le, r # sent)))"

definition checkProviderHealth ::
  "adapterOracle \<Rightarrow> string \<Rightarrow> credential \<Rightarrow> bool \<Rightarrow> checkOutcome \<times> probe list" where
  "checkProviderHealth orc providerType c forceCheck =
     (let modelName = (if truthy (checkModelName c) then checkModelName c
                       else map_of DEFAULT_HEALTH_CHECK_MODELS providerType)
      in if \<not> checkHealth c \<and> \<not> forceCheck then (Returned None, [])
         else if \<not> truthy modelName
         then (Returned (Some \<lparr>success = False, modelName = None,
                 errorMessage = Some ''Unknown provider type for health check''\<rparr>), [])
         else (case getServiceAdapterThrows orc providerType c of
                 Some e \<Rightarrow> (Threw e, [])
               | None \<Rightarrow>
                   (case tryRequests (generateContent orc providerType c (the modelName))
                           (buildHealthCheckRequests providerType (the modelName)) None of
                      (ok, lastError, sent) \<Rightarrow>
                        (Returned (Some
                           (if ok then \<lparr>success = True, modelName = modelName, errorMessage = None\<rparr>
                            else \<lparr>success = False, modelName = modelName,
                                   errorMessage = (if truthy lastError then lastError
                                                   else Some ''All health check attempts failed'')\<rparr>)),
                         map (\<lambda>r. (providerType, uuid c, the modelName, r)) sent))))"

text \<open>The body of the two nested loops of \<open>performHealthChecks\<close>, for the status entry at
  position \<open>i\<close> of the pool of \<open>providerType\<close>.\<close>

definition healthCheckEntry ::
  "time \<Rightarrow> adapterOracle \<Rightarrow> string \<times> nat \<Rightarrow> poolManager \<times> probe list \<Rightarrow> poolManager \<times> probe list"
  where
  "healthCheckEntry now orc e st =
     (case (e, st) of ((providerType, i), (m, probes)) \<Rightarrow>
        let c = poolOf m providerType ! i;
            healthCheckRetryInterval = 120000
        in if isHealthy c then (m, probes)
           else if lastErrorTime c \<noteq> None \<and> now - the (lastErrorTime c) < healthCheckRetryInterval
           then (m, probes)
           else (case checkProviderHealth orc providerType c False of
                   (Threw e, sent) \<Rightarrow>
                     (markProviderUnhealthy now providerType (uuid c) e m, probes @ sent)
                 | (Returned None, sent) \<Rightarrow>
                     (resetProviderCounters providerType (uuid c) m, probes @ sent)
                 | (Returned (Some r), sent) \<Rightarrow>
                     if success r
                     then (markProviderHealthy now providerType (uuid c) True (modelName r) m,
                           probes @ sent)
                     else
                       (updCred providerType i
                          (\<lambda>c'. let c1 = c'\<lparr>lastHealthCheckTime := Some now\<rparr>
                                 in if truthy (modelName r)
                                    then c1\<lparr>lastHealthCheckModel := modelName r\<rparr> else c1)
                          (markProviderUnhealthy now providerType (uuid c) (errorMessage r) m),
                        probes @ sent)))"

text \<open>The keys of the \<open>providerStatus\<close> object, and the entries the two loops visit.\<close>

definition providerTypes :: "poolManager \<Rightarrow> string list" where
  "providerTypes m = remdups (map fst (providerStatus m))"

definition statusEntries :: "poolManager \<Rightarrow> (string \<times> nat) list" where
  "statusEntries m =
     concat (map (\<lambda>providerType. map (\<lambda>i. (providerType, i)) [0..<length (poolOf m providerType)])
                 (providerTypes m))"

definition performHealthChecks ::
  "time \<Rightarrow> adapterOracle \<Rightarrow> poolManager \<Rightarrow> poolManager \<times> probe list" where
  "performHealthChecks now orc m =
     foldl (\<lambda>st e. healthCheckEntry now orc e st) (m, []) (statusEntries m)"

section \<open>Provider pool manager: construction and runs\<close>

record managerOptions =
  o_maxErrorCount :: "int option"
  o_providerFallbackChain :: "(string \<times> string list) list"
  o_modelFallbackMapping :: "(string \<times> modelMapping) list"
  o_stickyEnabled :: "bool option"
  o_ttlMs :: "int option"
  o_maxSessions :: "int option"

definition newManager :: "(string \<times> rawConfig list) list \<Rightarrow> managerOptions \<Rightarrow> poolManager" where
  "newManager providerPools options =
     initializeProviderStatus providerPools
       \<lparr> providerStatus = [],
         maxErrorCount = (case o_maxErrorCount options of None \<Rightarrow> 3 | Some n \<Rightarrow> n),
         pendingSaves = [],
         saveTimer = False,
         fallbackChain = o_providerFallbackChain options,
         modelFallbackMapping = o_modelFallbackMapping options,
         sticky_enabled = (case o_stickyEnabled options of None \<Rightarrow> False | Some b \<Rightarrow> b),
         ttlMs = (case o_ttlMs options of None \<Rightarrow> 30 * 60 * 1000 | Some n \<Rightarrow> n),
         maxSessions = (case o_maxSessions options of None \<Rightarrow> 10000 | Some n \<Rightarrow> n),
         stickySessionMap = [] \<rparr>"

datatype poolOp =
    OpInitialize
  | OpSelect time string "string option" selectOptions
  | OpMark markOp string "string option"
  | OpHealthChecks time adapterOracle

fun applyOp :: "poolManager \<Rightarrow> poolOp \<Rightarrow> poolManager" where
  "applyOp m OpInitialize = initializeProviderStatus (livePools m) m"
| "applyOp m (OpSelect now providerType requestedModel opts) =
     snd (selectProvider now providerType requestedModel opts m)"
| "applyOp m (OpMark op providerType u) = applyMarkOp op providerType u m"
| "applyOp m (OpHealthChecks now orc) = fst (performHealthChecks now orc m)"

definition runOps :: "poolManager \<Rightarrow> poolOp list \<Rightarrow> poolManager" where
  "runOps m ops = foldl applyOp m ops"

section \<open>Example states\<close>

definition emptyRaw :: rawConfig where
  "emptyRaw =
     \<lparr> r_uuid = None, r_isHealthy = None, r_isDisabled = None, r_lastUsed = None,
       r_usageCount = None, r_errorCount = None, r_lastErrorTime = None,
       r_lastErrorMessage = None, r_lastHealthCheckTime = None, r_lastHealthCheckModel = None,
       r_customName = None, r_notSupportedModels = None, r_checkHealth = False,
       r_checkModelName = None \<rparr>"

definition freshRaw :: "string \<Rightarrow> rawConfig" where
  "freshRaw u = emptyRaw\<lparr>r_uuid := Some u\<rparr>"

definition defaultOptions :: managerOptions where
  "defaultOptions =
     \<lparr> o_maxErrorCount = None, o_providerFallbackChain = [], o_modelFallbackMapping = [],
       o_stickyEnabled = None, o_ttlMs = None, o_maxSessions = None \<rparr>"

definition plainSelect :: selectOptions where
  "plainSelect = \<lparr>sessionId = None, skipUsageCount = False, isFromFallback = False\<rparr>"

text \<open>Two fresh Kiro credentials \<open>a\<close> and \<open>b\<close>, default options.\<close>

definition twoKiro :: poolManager where
  "twoKiro = newManager [(''claude-kiro-oauth'', [freshRaw ''a'', freshRaw ''b''])] defaultOptions"

text \<open>An upstream on which every probe fails.\<close>

definition deadUpstream :: adapterOracle where
  "deadUpstream =
     \<lparr> getServiceAdapterThrows = (\<lambda>_ _. None),
       generateContent = (\<lambda>_ _ _ _. GenThrows (Some ''down'')) \<rparr>"

section \<open>Vocabulary of the properties\<close>

text \<open>The sort key of the selection: \<open>lastUsed\<close> as epoch milliseconds, \<open>null\<close> as 0.\<close>

definition timeOf :: "credential \<Rightarrow> int" where
  "timeOf c = (case lastUsed c of None \<Rightarrow> 0 | Some t \<Rightarrow> t)"

text \<open>The healthy, non-disabled credentials of a type that support the requested model.\<close>

definition eligible :: "poolManager \<Rightarrow> string \<Rightarrow> string option \<Rightarrow> credential set" where
  "eligible m ty model =
     {c \<in> set (poolOf m ty). isHealthy c \<and> \<not> isDisabled c \<and>
        (truthy model \<longrightarrow> supportsModel c (the model))}"

text \<open>The same credentials as the status entries the source sorts.\<close>

definition candidateEntries :: "poolManager \<Rightarrow> string \<Rightarrow> string option \<Rightarrow> (nat \<times> credential) list" where
  "candidateEntries m ty model =
     (if truthy model
      then filter (\<lambda>(i, c). supportsModel c (the model)) (availableAndHealthy m ty)
      else availableAndHealthy m ty)"

text \<open>The call returns from the sticky-session branch of \<open>selectProvider\<close>.\<close>

definition stickyPathTaken ::
  "time \<Rightarrow> string \<Rightarrow> string option \<Rightarrow> selectOptions \<Rightarrow> poolManager \<Rightarrow> bool" where
  "stickyPathTaken now ty model opts m =
     (sticky_enabled m \<and> truthy (sessionId opts) \<and>
      fst (trySelectFromStickySession now ty model (the (sessionId opts)) m) \<noteq> None)"

text \<open>A pool whose second credential carries a \<open>lastUsed\<close> of 5000 ms.\<close>

definition futureDated :: poolManager where
  "futureDated =
     newManager [(''claude-kiro-oauth'', [freshRaw ''a'', (freshRaw ''b'')\<lparr>r_lastUsed := Some 5000\<rparr>])]
       defaultOptions"

text \<open>The manager with the binding of a session deleted from the sticky table.\<close>

definition dropBinding :: "string \<Rightarrow> poolManager \<Rightarrow> poolManager" where
  "dropBinding sid m = m\<lparr>stickySessionMap := mapDelete sid (stickySessionMap m)\<rparr>"

text \<open>Sticky sessions enabled, one credential \<open>x\<close> of type claude-custom and one credential
  \<open>a\<close> of type claude-kiro-oauth.\<close>

definition stickyPools :: poolManager where
  "stickyPools =
     newManager [(''claude-custom'', [freshRaw ''x'']), (''claude-kiro-oauth'', [freshRaw ''a''])]
       (defaultOptions\<lparr>o_stickyEnabled := Some True\<rparr>)"

definition withSession :: "bool \<Rightarrow> selectOptions" where
  "withSession fb = \<lparr>sessionId = Some ''S1'', skipUsageCount = False, isFromFallback = fb\<rparr>"

text \<open>The state after session \<open>S1\<close> was bound, at time 0, by a claude-custom selection.\<close>

definition boundS1 :: poolManager where
  "boundS1 = snd (selectProvider 0 ''claude-custom'' None (withSession False) stickyPools)"

definition bindingX :: stickySession where
  "bindingX = \<lparr>s_providerType = ''claude-custom'', s_providerUuid = Some ''x'', createdAt = 0,
                lastAccessedAt = 0, requestCount = 1\<rparr>"

text \<open>The sticky table is a well-formed map (no key twice) of at most \<open>maxSessions\<close> entries.\<close>

definition tableOk :: "poolManager \<Rightarrow> bool" where
  "tableOk m = (distinct (map fst (stickySessionMap m)) \<and>
                int (length (stickySessionMap m)) \<le> maxSessions m)"

text \<open>Sticky sessions enabled with \<open>maxSessions = 1\<close>; \<open>fullTable\<close> is the state after
  session \<open>S1\<close> was bound.\<close>

definition tinyPools :: poolManager where
  "tinyPools =
     newManager [(''claude-kiro-oauth'', [freshRaw ''a''])]
       (defaultOptions\<lparr>o_stickyEnabled := Some True, o_maxSessions := Some 1\<rparr>)"

definition fullTable :: poolManager where
  "fullTable = snd (selectProvider 0 ''claude-kiro-oauth'' None (withSession False) tinyPools)"

definition withS2 :: selectOptions where
  "withS2 = \<lparr>sessionId = Some ''S2'', skipUsageCount = False, isFromFallback = False\<rparr>"

text \<open>The health invariant of one credential, of all credentials of a manager, and of a
  configuration of the pool file.\<close>

definition credOk :: "int \<Rightarrow> credential \<Rightarrow> bool" where
  "credOk mx c = (errorCount c \<ge> mx \<longrightarrow> \<not> isHealthy c)"

definition credsAll :: "(credential \<Rightarrow> bool) \<Rightarrow> poolManager \<Rightarrow> bool" where
  "credsAll P m = list_all (\<lambda>(providerType, pool). list_all P pool) (providerStatus m)"

definition healthInv :: "poolManager \<Rightarrow> bool" where
  "healthInv m = credsAll (credOk (maxErrorCount m)) m"

definition rawOk :: "int \<Rightarrow> rawConfig \<Rightarrow> bool" where
  "rawOk mx r =
     ((case r_errorCount r of None \<Rightarrow> 0 | Some n \<Rightarrow> n) \<ge> mx \<longrightarrow> r_isHealthy r = Some False)"

text \<open>A pool file whose credential carries \<open>errorCount = 3\<close> and no \<open>isHealthy\<close>; and a
  manager constructed with \<open>maxErrorCount = 0\<close>.\<close>

definition staleErrors :: poolManager where
  "staleErrors =
     newManager [(''claude-kiro-oauth'', [(freshRaw ''a'')\<lparr>r_errorCount := Some 3\<rparr>])] defaultOptions"

definition zeroThreshold :: poolManager where
  "zeroThreshold =
     newManager [(''claude-kiro-oauth'', [freshRaw ''a''])] (defaultOptions\<lparr>o_maxErrorCount := Some 0\<rparr>)"

text \<open>Modelled from the spec: \<open>getProtocolPrefix\<close> of utils/common.js, which is not among
  the sources. The protocol prefix is derived from the type name: it is the part before
  the first hyphen. The theorems hold for every such function; only the examples use
  this one.\<close>

definition protocolPrefix :: "string \<Rightarrow> string" where
  "protocolPrefix providerType = takeWhile (\<lambda>c. c \<noteq> CHR ''-'') providerType"

text \<open>A \<open>getProviderModels\<close> that lists no model for any type (no restriction).\<close>

definition noModels :: "string \<Rightarrow> string list" where
  "noModels providerType = []"

text \<open>The only Kiro credential is unhealthy; the fallback chain of the Kiro type names a
  type of another protocol (\<open>crossChain\<close>) or of the same protocol (\<open>sameChain\<close>).\<close>

definition crossChain :: poolManager where
  "crossChain =
     newManager
       [(''claude-kiro-oauth'', [(freshRaw ''a'')\<lparr>r_isHealthy := Some False\<rparr>]),
        (''openai-custom'', [freshRaw ''o''])]
       (defaultOptions\<lparr>o_providerFallbackChain := [(''claude-kiro-oauth'', [''openai-custom''])]\<rparr>)"

definition sameChain :: poolManager where
  "sameChain =
     newManager
       [(''claude-kiro-oauth'', [(freshRaw ''a'')\<lparr>r_isHealthy := Some False\<rparr>]),
        (''claude-custom'', [freshRaw ''c''])]
       (defaultOptions\<lparr>o_providerFallbackChain := [(''claude-kiro-oauth'', [''claude-custom''])]\<rparr>)"

section \<open>Kiro adapter: API call with refresh and retry\<close>

text \<open>
  An error thrown by the HTTP client: \<open>error.response?.status\<close>, the verdict of
  \<open>isRetryableNetworkError\<close> (utils/common.js) on it, and the marker
  \<open>credentialMarkedUnhealthy\<close> that \<open>_markCredentialUnhealthy\<close> attaches.
\<close>

record apiError =
  status :: "nat option"
  isNetworkError :: bool
  credentialMarkedUnhealthy :: bool

datatype postResult = Response | Failed apiError

text \<open>The upstream as the call sees it: the outcome of the \<open>n\<close>-th POST of the call, and
  whether the forced token refresh made after the \<open>n\<close>-th POST throws.\<close>

record upstream =
  post :: "nat \<Rightarrow> postResult"
  refreshToken :: "nat \<Rightarrow> apiError option"

text \<open>The fields of the service the call reads; a retry setting that is absent or 0 is
  0 here, and \<open>REQUEST_MAX_RETRIES || 3\<close>, \<open>REQUEST_BASE_DELAY || 1000\<close> replace it.\<close>

record kiroService =
  k_uuid :: "string option"
  REQUEST_MAX_RETRIES :: nat
  REQUEST_BASE_DELAY :: nat

datatype apiEvent =
    EvPost nat
  | EvRefresh
  | EvMarkUnhealthyImmediately string
  | EvSleep nat

datatype apiOutcome = Returned | Thrown apiError

text \<open>The constant \<open>MODEL_PROVIDER.KIRO_API\<close> of utils/common.js: the provider type of the
  Kiro pools.\<close>

definition KIRO_API :: string where
  "KIRO_API = ''claude-kiro-oauth''"

text \<open>
  \<open>_markCredentialUnhealthy\<close>: with a pool manager and a uuid at hand it calls
  \<open>markProviderUnhealthyImmediately\<close> and marks the error object. The result is the error,
  the events and the pool manager (\<open>None\<close> when \<open>getProviderPoolManager()\<close> yields none).
\<close>

definition markCredentialUnhealthy ::
  "kiroService \<Rightarrow> time \<Rightarrow> string \<Rightarrow> apiError \<Rightarrow> poolManager option
     \<Rightarrow> apiError \<times> apiEvent list \<times> poolManager option" where
  "markCredentialUnhealthy svc now reason error pm =
     (case pm of
        Some m \<Rightarrow>
          if truthy (k_uuid svc)
          then (error\<lparr>credentialMarkedUnhealthy := True\<rparr>,
                [EvMarkUnhealthyImmediately reason],
                Some (markProviderUnhealthyImmediately now KIRO_API (k_uuid svc) (Some reason) m))
          else (error, [], pm)
      | None \<Rightarrow> (error, [], pm))"

definition maxRetriesOf :: "kiroService \<Rightarrow> nat" where
  "maxRetriesOf svc = (if REQUEST_MAX_RETRIES svc = 0 then 3 else REQUEST_MAX_RETRIES svc)"

definition baseDelayOf :: "kiroService \<Rightarrow> nat" where
  "baseDelayOf svc = (if REQUEST_BASE_DELAY svc = 0 then 1000 else REQUEST_BASE_DELAY svc)"

text \<open>
  \<open>callApi\<close>, from its \<open>try\<close> block on (the service is initialised and the request is
  built). \<open>n\<close> counts the POSTs made so far by the outermost call.
\<close>

function callApi ::
  "kiroService \<Rightarrow> upstream \<Rightarrow> time \<Rightarrow> nat \<Rightarrow> bool \<Rightarrow> nat \<Rightarrow> poolManager option
     \<Rightarrow> apiOutcome \<times> apiEvent list \<times> poolManager option" where
  "callApi svc up now n isRetry retryCount pm =
     (case post up n of
        Response \<Rightarrow> (Returned, [EvPost n], pm)
      | Failed error \<Rightarrow>
          if status error = Some 401 \<and> \<not> isRetry
          then (case refreshToken up n of
                  None \<Rightarrow>
                    (case callApi svc up now (Suc n) True retryCount pm of
                       (out, evs, pm') \<Rightarrow> (out, EvPost n # EvRefresh # evs, pm'))
                | Some refreshError \<Rightarrow>
                    (case markCredentialUnhealthy svc now
                            ''401 Unauthorized - Token refresh failed'' refreshError pm of
                       (e, evs, pm') \<Rightarrow> (Thrown e, EvPost n # EvRefresh # evs, pm')))
          else if status error = Some 403
          then (case markCredentialUnhealthy svc now ''403 Forbidden'' error pm of
                  (e, evs, pm') \<Rightarrow> (Thrown e, EvPost n # evs, pm'))
          else if status error = Some 429 \<and> retryCount < maxRetriesOf svc
          then (case callApi svc up now (Suc n) isRetry (Suc retryCount) pm of
                  (out, evs, pm') \<Rightarrow>
                    (out, EvPost n # EvSleep (baseDelayOf svc * 2 ^ retryCount) # evs, pm'))
          else if (case status error of None \<Rightarrow> False | Some s \<Rightarrow> 500 \<le> s \<and> s < 600) \<and>
                  retryCount < maxRetriesOf svc
          then (case callApi svc up now (Suc n) isRetry (Suc retryCount) pm of
                  (out, evs, pm') \<Rightarrow>
                    (out, EvPost n # EvSleep (baseDelayOf svc * 2 ^ retryCount) # evs, pm'))
          else if isNetworkError error \<and> retryCount < maxRetriesOf svc
          then (case callApi svc up now (Suc n) isRetry (Suc retryCount) pm of
                  (out, evs, pm') \<Rightarrow>
                    (out, EvPost n # EvSleep (baseDelayOf svc * 2 ^ retryCount) # evs, pm'))
          else (Thrown error, [EvPost n], pm))"
  by pat_completeness auto
termination
  by (relation "measure (\<lambda>(svc, up, now, n, isRetry, retryCount, pm).
        (if isRetry then 0 else 1) + (maxRetriesOf svc - retryCount))") auto

declare callApi.simps [simp del]

text \<open>The number of token refreshes in a trace.\<close>

definition refreshCount :: "apiEvent list \<Rightarrow> nat" where
  "refreshCount evs = length (filter (\<lambda>e. e = EvRefresh) evs)"

text \<open>Example errors, a service for credential \<open>a\<close> with default retry settings, and
  upstreams that answer every request with 401 (refresh succeeding), with 403, or with 401
  while the token refresh fails with a 401 of its own.\<close>

definition error401 :: apiError where
  "error401 = \<lparr>status = Some 401, isNetworkError = False, credentialMarkedUnhealthy = False\<rparr>"

definition error403 :: apiError where
  "error403 = \<lparr>status = Some 403, isNetworkError = False, credentialMarkedUnhealthy = False\<rparr>"

definition kiroA :: kiroService where
  "kiroA = \<lparr>k_uuid = Some ''a'', REQUEST_MAX_RETRIES = 0, REQUEST_BASE_DELAY = 0\<rparr>"

definition always401 :: upstream where
  "always401 = \<lparr>post = (\<lambda>n. Failed error401), refreshToken = (\<lambda>n. None)\<rparr>"

definition always403 :: upstream where
  "always403 = \<lparr>post = (\<lambda>n. Failed error403), refreshToken = (\<lambda>n. None)\<rparr>"

definition refreshFails :: upstream where
  "refreshFails = \<lparr>post = (\<lambda>n. Failed error401), refreshToken = (\<lambda>n. Some error401)\<rparr>"

text \<open>The errors that \<open>callApi\<close> retries with exponential backoff: 429, 5xx and the
  retryable network errors.\<close>

definition transient :: "apiError \<Rightarrow> bool" where
  "transient e =
     (status e = Some 429 \<or>
      (case status e of None \<Rightarrow> False | Some s \<Rightarrow> 500 \<le> s \<and> s < 600) \<or>
      isNetworkError e)"

section \<open>Kiro prompt-cache estimator: requests\<close>

text \<open>
  The parts of a request the estimator reads. A string field that is absent is the empty
  string (both are falsy); \<open>cache_control\<close> and \<open>input\<close> are objects, kept as the text
  \<open>JSON.stringify\<close> gives for them, \<open>None\<close> when absent. A \<open>content\<close> is \<open>null\<close>, a string,
  an array of parts (strings or objects) or a single object, kept as its JSON text.
\<close>

datatype part =
    PString string
  | PObject (p_type: string) (p_cache_control: "string option") (p_text: string)
      (p_thinking: string) (p_tool_use_id: string) (p_name: string) (p_id: string)
      (p_input: "string option") (p_content: content)
and content =
    CNull
  | CString string
  | CArray "part list"
  | CObject (co_cache_control: "string option") (co_json: string)

record message =
  role :: string
  m_content :: content
  m_cache_control :: "string option"

record tool =
  t_json :: string
  t_cache_control :: "string option"

record request =
  system :: content
  tools :: "tool list"
  messages :: "message list"

text \<open>Truthiness of a content value: \<open>null\<close> and the empty string are falsy, arrays and
  objects are truthy.\<close>

fun contentTruthy :: "content \<Rightarrow> bool" where
  "contentTruthy CNull = False"
| "contentTruthy (CString s) = (s \<noteq> [])"
| "contentTruthy (CArray ps) = True"
| "contentTruthy (CObject cc js) = True"

text \<open>\<open>parts.join(' ')\<close>.\<close>

fun joinSpace :: "string list \<Rightarrow> string" where
  "joinSpace [] = []"
| "joinSpace [s] = s"
| "joinSpace (s # t # rest) = s @ '' '' @ joinSpace (t # rest)"

definition pushIf :: "string \<Rightarrow> string list" where
  "pushIf s = (if s \<noteq> [] then [s] else [])"

definition pushOpt :: "string option \<Rightarrow> string list" where
  "pushOpt s = (case s of None \<Rightarrow> [] | Some js \<Rightarrow> [js])"

text \<open>\<open>contentToText(content, role)\<close>; \<open>partText\<close> is the body of its loop over an array.\<close>

fun contentToText :: "content \<Rightarrow> string \<Rightarrow> string"
and partText :: "part \<Rightarrow> string list" where
  "contentToText CNull rl = joinSpace (pushIf rl)"
| "contentToText (CString s) rl =
     (if s = [] then joinSpace (pushIf rl) else joinSpace (pushIf rl @ [s]))"
| "contentToText (CArray ps) rl = joinSpace (pushIf rl @ concat (map partText ps))"
| "contentToText (CObject cc js) rl = joinSpace (pushIf rl @ [js])"
| "partText (PString s) = [s]"
| "partText (PObject ty cc text thinking tool_use_id name ident input c) =
     pushIf ty @ pushOpt cc @ pushIf text @ pushIf thinking @ pushIf tool_use_id @
     pushIf name @ pushIf ident @ pushOpt input @
     (if contentTruthy c then [contentToText c []] else [])"

section \<open>Kiro prompt-cache estimator: token counts and cacheable content\<close>

text \<open>
  What the estimator takes from outside: the tokenizer \<open>countTokens\<close> of
  @anthropic-ai/tokenizer (\<open>None\<close> when it throws), the MD5-based hashes of the static
  prefix (\<open>computeContentHash\<close>, over model, system, tools, tool_choice and thinking) and
  of a message (\<open>simpleHash\<close> of its stable text), and the flag
  \<open>CACHE_ESTIMATION_CONFIG.OPTIMISTIC_MATCHING\<close> read from the process environment.
\<close>

record estimatorEnv =
  countTokens :: "string \<Rightarrow> nat option"
  computeContentHash :: "string \<Rightarrow> request \<Rightarrow> string"
  messageHash :: "message \<Rightarrow> string"
  OPTIMISTIC_MATCHING :: bool

text \<open>\<open>countTokensSimple\<close>: the tokenizer, or a quarter of the length rounded up when the
  tokenizer throws.\<close>

definition countTokensSimple :: "estimatorEnv \<Rightarrow> string \<Rightarrow> nat" where
  "countTokensSimple env text =
     (if text = [] then 0
      else case countTokens env text of
             Some n \<Rightarrow> n
           | None \<Rightarrow> (length text + 3) div 4)"

fun partHasCacheControl :: "part \<Rightarrow> bool" where
  "partHasCacheControl (PString s) = False"
| "partHasCacheControl (PObject ty cc text thinking tool_use_id name ident input c) = (cc \<noteq> None)"

definition messageHasCacheControl :: "message \<Rightarrow> bool" where
  "messageHasCacheControl msg =
     (if m_cache_control msg \<noteq> None then True
      else case m_content msg of
             CArray ps \<Rightarrow> list_ex partHasCacheControl ps
           | CObject cc js \<Rightarrow> cc \<noteq> None
           | _ \<Rightarrow> False)"

record cachedMessage =
  cm_index :: nat
  cm_role :: string
  cm_contentHash :: string
  cm_tokens :: nat

record cacheableContent =
  systemHasCacheControl :: bool
  toolsHasCacheControl :: bool
  hasCacheControl :: bool
  cachedMessages :: "cachedMessage list"
  lastCacheBreakpoint :: int
  prefixMessagesTokens :: nat
  allMessagesTokens :: "nat list"

text \<open>The index of the last message with a cache breakpoint, -1 when there is none.\<close>

definition lastCacheControlIndex :: "message list \<Rightarrow> int" where
  "lastCacheControlIndex msgs =
     foldl (\<lambda>k i. if messageHasCacheControl (msgs ! i) then int i else k) (-1) [0..<length msgs]"

definition extractCacheableContent :: "estimatorEnv \<Rightarrow> request \<Rightarrow> cacheableContent" where
  "extractCacheableContent env req =
     (let sysCC = (contentTruthy (system req) \<and>
                   (case system req of
                      CArray ps \<Rightarrow> list_ex partHasCacheControl ps
                    | CObject cc js \<Rightarrow> cc \<noteq> None
                    | _ \<Rightarrow> False));
          toolsCC = (tools req \<noteq> [] \<and> t_cache_control (last (tools req)) \<noteq> None);
          k = lastCacheControlIndex (messages req);
          allTokens = map (\<lambda>msg. countTokensSimple env (contentToText (m_content msg) (role msg)))
                          (messages req);
          cached = map (\<lambda>i. \<lparr>cm_index = i, cm_role = role (messages req ! i),
                                 cm_contentHash = messageHash env (messages req ! i),
                                 cm_tokens = allTokens ! i\<rparr>)
                       [0..<nat (k + 1)]
      in \<lparr> systemHasCacheControl = sysCC,
            toolsHasCacheControl = toolsCC,
            hasCacheControl = (sysCC \<or> toolsCC \<or> k \<ge> 0),
            cachedMessages = cached,
            lastCacheBreakpoint = k,
            prefixMessagesTokens = sum_list (map cm_tokens cached),
            allMessagesTokens = allTokens \<rparr>)"

text \<open>\<open>JSON.stringify\<close> of the tools array, from the JSON text of each tool.\<close>

fun joinComma :: "string list \<Rightarrow> string" where
  "joinComma [] = []"
| "joinComma [s] = s"
| "joinComma (s # t # rest) = s @ '','' @ joinComma (t # rest)"

definition toolsJson :: "tool list \<Rightarrow> string" where
  "toolsJson ts = ''['' @ joinComma (map t_json ts) @ '']''"

definition countStaticPrefixTokens :: "estimatorEnv \<Rightarrow> request \<Rightarrow> nat" where
  "countStaticPrefixTokens env req =
     (if contentTruthy (system req) then countTokensSimple env (contentToText (system req) [])
      else 0) +
     (if tools req \<noteq> [] then countTokensSimple env (toolsJson (tools req)) else 0)"

section \<open>Kiro prompt-cache estimator: model thresholds\<close>

definition MODEL_MIN_CACHE_TOKENS :: "(string \<times> nat) list" where
  "MODEL_MIN_CACHE_TOKENS =
     [(''claude-opus-4-5'', 4096),
      (''claude-opus-4'', 1024),
      (''claude-sonnet-4-5'', 1024),
      (''claude-sonnet-4'', 1024),
      (''claude-sonnet-3-7'', 1024),
      (''claude-haiku-4-5'', 4096),
      (''claude-haiku-3-5'', 2048),
      (''claude-haiku-3'', 2048),
      (''default'', 1024)]"

text \<open>\<open>getMinCacheTokens\<close>: the exact entry, else the first entry other than \<open>default\<close>
  whose key is a prefix of the model name, else the default.\<close>

definition getMinCacheTokens :: "string \<Rightarrow> nat" where
  "getMinCacheTokens model =
     (if model = [] then 1024
      else case map_of MODEL_MIN_CACHE_TOKENS model of
             Some tokens \<Rightarrow> tokens
           | None \<Rightarrow>
               (case find (\<lambda>(p, tokens). p \<noteq> ''default'' \<and> startsWith model p)
                          MODEL_MIN_CACHE_TOKENS of
                  Some (p, tokens) \<Rightarrow> tokens
                | None \<Rightarrow> 1024))"

section \<open>Kiro prompt-cache estimator: history and estimate\<close>

record cachedPrefix =
  cp_staticPrefixTokens :: nat
  cp_staticCacheable :: nat
  cp_prefixMessagesTokens :: nat
  cp_lastCacheBreakpoint :: int
  cp_cachedMessages :: "cachedMessage list"
  cp_allMessagesTokens :: "nat list"
  cp_hitCount :: nat

record cacheItem =
  c_value :: cachedPrefix
  c_timestamp :: time

record estimatorStats =
  totalRequests :: nat
  estimatedCacheHits :: nat
  estimatedCacheCreations :: nat
  skippedLowConfidence :: nat
  skippedNoCacheControl :: nat
  skippedBelowThreshold :: nat

text \<open>The estimator of one account: its configuration, the \<open>SimpleLRUCache\<close> of request
  prefixes (a \<open>Map\<close>, in insertion order) and its counters.\<close>

record estimator =
  e_enabled :: bool
  minCacheableTokens :: nat
  maxCacheSize :: nat
  historyTTL :: int
  requestCache :: "(string \<times> cacheItem) list"
  stats :: estimatorStats

text \<open>The constructor: an option that is absent or 0 takes the default
  (\<open>config.minCacheableTokens || 1024\<close> and so on); \<open>enabled\<close> is on unless it is \<open>false\<close>.\<close>

record estimatorOptions =
  eo_enabled :: "bool option"
  eo_minCacheableTokens :: nat
  eo_maxCacheSize :: nat
  eo_historyTTL :: nat

definition newEstimator :: "estimatorOptions \<Rightarrow> estimator" where
  "newEstimator opts =
     \<lparr> e_enabled = (eo_enabled opts \<noteq> Some False),
       minCacheableTokens = (if eo_minCacheableTokens opts = 0 then 1024 else eo_minCacheableTokens opts),
       maxCacheSize = (if eo_maxCacheSize opts = 0 then 500 else eo_maxCacheSize opts),
       historyTTL = (if eo_historyTTL opts = 0 then 300000 else int (eo_historyTTL opts)),
       requestCache = [],
       stats = \<lparr>totalRequests = 0, estimatedCacheHits = 0, estimatedCacheCreations = 0,
                 skippedLowConfidence = 0, skippedNoCacheControl = 0,
                 skippedBelowThreshold = 0\<rparr> \<rparr>"

text \<open>\<open>SimpleLRUCache.get\<close> and \<open>SimpleLRUCache.set\<close>.\<close>

definition lruGet :: "time \<Rightarrow> string \<Rightarrow> estimator \<Rightarrow> cacheItem option \<times> estimator" where
  "lruGet now key est =
     (case map_of (requestCache est) key of
        None \<Rightarrow> (None, est)
      | Some item \<Rightarrow>
          if now - c_timestamp item > historyTTL est
          then (None, est\<lparr>requestCache := mapDelete key (requestCache est)\<rparr>)
          else (Some (item\<lparr>c_timestamp := now\<rparr>),
                est\<lparr>requestCache := mapEntry key (\<lambda>i. i\<lparr>c_timestamp := now\<rparr>) (requestCache est)\<rparr>))"

definition lruSet :: "time \<Rightarrow> string \<Rightarrow> cachedPrefix \<Rightarrow> estimator \<Rightarrow> estimator" where
  "lruSet now key v est =
     (if key \<in> fst ` set (requestCache est)
      then est\<lparr>requestCache :=
                 mapEntry key (\<lambda>i. \<lparr>c_value = v, c_timestamp = now\<rparr>) (requestCache est)\<rparr>
      else
        let cache = (if length (requestCache est) \<ge> maxCacheSize est
                     then (case requestCache est of
                             [] \<Rightarrow> []
                           | (firstKey, i) # rest \<Rightarrow> mapDelete firstKey (requestCache est))
                     else requestCache est)
        in est\<lparr>requestCache := cache @ [(key, \<lparr>c_value = v, c_timestamp = now\<rparr>)]\<rparr>)"

datatype matchStatus = Hit | Changed | New

record matchDetail =
  md_index :: nat
  md_status :: matchStatus
  md_tokens :: nat

text \<open>
  The loop over the messages of the cached prefix, compared position by position with the
  messages stored for the same static prefix. The result is \<open>matchDetails\<close>,
  \<open>prefixBroken\<close> and \<open>lastMatchedBreakpoint\<close>.
\<close>

fun matchMessages ::
  "bool \<Rightarrow> cachedMessage list \<Rightarrow> cachedMessage list \<Rightarrow> bool \<Rightarrow> int
     \<Rightarrow> matchDetail list \<times> bool \<times> int" where
  "matchMessages optimistic [] previousMessages prefixBroken lastMatched =
     ([], prefixBroken, lastMatched)"
| "matchMessages optimistic (currentMsg # rest) previousMessages prefixBroken lastMatched =
     (let previousMsg = (case previousMessages of [] \<Rightarrow> None | p # ps \<Rightarrow> Some p);
          contentMatches =
            (case previousMsg of
               None \<Rightarrow> False
             | Some p \<Rightarrow> cm_index p = cm_index currentMsg \<and>
                         cm_contentHash p = cm_contentHash currentMsg);
          isMatch = (if optimistic then contentMatches else \<not> prefixBroken \<and> contentMatches);
          detail = \<lparr>md_index = cm_index currentMsg,
                    md_status = (if isMatch then Hit
                                 else if previousMsg \<noteq> None then Changed else New),
                    md_tokens = cm_tokens currentMsg\<rparr>
      in case matchMessages optimistic rest (tl previousMessages)
                (if optimistic then prefixBroken else (prefixBroken \<or> \<not> isMatch))
                (if isMatch then int (cm_index currentMsg) else lastMatched) of
           (details, broken, lastM) \<Rightarrow> (detail # details, broken, lastM))"

text \<open>\<open>for (let i = lo; i <= hi && i < allMessagesTokens.length; i++) acc += allMessagesTokens[i]\<close>.\<close>

definition sumTokens :: "nat list \<Rightarrow> int \<Rightarrow> int \<Rightarrow> nat" where
  "sumTokens allTokens lo hi =
     sum_list (map (\<lambda>i. allTokens ! i) [nat lo..<min (nat (hi + 1)) (length allTokens)])"

datatype estimationSource =
    SrcDisabled | SrcNoCacheControl | SrcBelowThreshold | SrcCacheHit | SrcCacheHitPartial
  | SrcCacheCreation

record estimate =
  cache_read_input_tokens :: int
  cache_creation_input_tokens :: int
  uncached_input_tokens :: int
  source :: estimationSource

text \<open>\<open>staticCacheable\<close> and \<open>totalCacheableTokens\<close> as \<open>estimateCacheTokens\<close> computes them.\<close>

definition staticCacheableOf :: "estimatorEnv \<Rightarrow> request \<Rightarrow> nat" where
  "staticCacheableOf env req =
     (let cc = extractCacheableContent env req
      in if systemHasCacheControl cc \<or> toolsHasCacheControl cc
         then countStaticPrefixTokens env req else 0)"

definition totalCacheableTokens :: "estimatorEnv \<Rightarrow> request \<Rightarrow> nat" where
  "totalCacheableTokens env req =
     staticCacheableOf env req + prefixMessagesTokens (extractCacheableContent env req)"

text \<open>The split of the cacheable tokens on a hit of the static prefix.\<close>

definition hitSplit ::
  "bool \<Rightarrow> nat \<Rightarrow> cacheableContent \<Rightarrow> cachedPrefix \<Rightarrow> nat \<times> nat" where
  "hitSplit optimistic staticCacheable cc prev =
     (case matchMessages optimistic (cachedMessages cc) (cp_cachedMessages prev) False (-1) of
        (matchDetails, prefixBroken, lastMatchedBreakpoint) \<Rightarrow>
          if optimistic
          then (staticCacheable +
                  sum_list (map md_tokens (filter (\<lambda>d. md_status d = Hit) matchDetails)),
                sum_list (map md_tokens (filter (\<lambda>d. md_status d \<noteq> Hit) matchDetails)))
          else if cachedMessages cc = [] then (staticCacheable, 0)
          else if \<not> prefixBroken
          then (staticCacheable + sumTokens (allMessagesTokens cc) 0 (lastCacheBreakpoint cc), 0)
          else ((if lastMatchedBreakpoint \<ge> 0
                 then staticCacheable + sumTokens (allMessagesTokens cc) 0 lastMatchedBreakpoint
                 else staticCacheable),
                sumTokens (allMessagesTokens cc) (lastMatchedBreakpoint + 1)
                  (lastCacheBreakpoint cc)))"

text \<open>An increment of one of the counters.\<close>

definition bump :: "(estimatorStats \<Rightarrow> estimatorStats) \<Rightarrow> estimator \<Rightarrow> estimator" where
  "bump f est = est\<lparr>stats := f (stats est)\<rparr>"

definition estimateCacheTokens ::
  "estimatorEnv \<Rightarrow> time \<Rightarrow> request \<Rightarrow> int \<Rightarrow> string \<Rightarrow> estimator \<Rightarrow> estimate \<times> estimator"
  where
  "estimateCacheTokens env now req totalInputTokens model est =
     (if \<not> e_enabled est
      then (\<lparr>cache_read_input_tokens = 0, cache_creation_input_tokens = 0,
              uncached_input_tokens = totalInputTokens, source = SrcDisabled\<rparr>, est)
      else
        let est1 = bump (\<lambda>s. s\<lparr>totalRequests := totalRequests s + 1\<rparr>) est;
            cc = extractCacheableContent env req
        in if \<not> hasCacheControl cc
           then (\<lparr>cache_read_input_tokens = 0, cache_creation_input_tokens = 0,
                   uncached_input_tokens = totalInputTokens, source = SrcNoCacheControl\<rparr>,
                 bump (\<lambda>s. s\<lparr>skippedNoCacheControl := skippedNoCacheControl s + 1\<rparr>) est1)
           else
             let staticPrefixTokens = countStaticPrefixTokens env req;
                 staticCacheable = (if systemHasCacheControl cc \<or> toolsHasCacheControl cc
                                    then staticPrefixTokens else 0);
                 totalCacheable = staticCacheable + prefixMessagesTokens cc;
                 uncachedTokens = max 0 (totalInputTokens - int totalCacheable)
             in if totalCacheable < minCacheableTokens est1
                then (\<lparr>cache_read_input_tokens = 0, cache_creation_input_tokens = 0,
                        uncached_input_tokens = totalInputTokens, source = SrcBelowThreshold\<rparr>,
                      bump (\<lambda>s. s\<lparr>skippedBelowThreshold := skippedBelowThreshold s + 1\<rparr>) est1)
                else
                  let prefixHash = computeContentHash env model req
                  in case lruGet now prefixHash est1 of
                       (Some item, est2) \<Rightarrow>
                         (case hitSplit (OPTIMISTIC_MATCHING env) staticCacheable cc (c_value item) of
                            (cacheRead, cacheCreation) \<Rightarrow>
                              (\<lparr>cache_read_input_tokens = int cacheRead,
                                 cache_creation_input_tokens = int cacheCreation,
                                 uncached_input_tokens = uncachedTokens,
                                 source = (if cacheCreation > 0 then SrcCacheHitPartial
                                           else SrcCacheHit)\<rparr>,
                               bump (\<lambda>s. s\<lparr>estimatedCacheHits := estimatedCacheHits s + 1\<rparr>)
                                 (lruSet now prefixHash
                                    \<lparr>cp_staticPrefixTokens = staticPrefixTokens,
                                      cp_staticCacheable = staticCacheable,
                                      cp_prefixMessagesTokens = prefixMessagesTokens cc,
                                      cp_lastCacheBreakpoint = lastCacheBreakpoint cc,
                                      cp_cachedMessages = cachedMessages cc,
                                      cp_allMessagesTokens = allMessagesTokens cc,
                                      cp_hitCount = cp_hitCount (c_value item) + 1\<rparr> est2)))
                     | (None, est2) \<Rightarrow>
                         (\<lparr>cache_read_input_tokens = 0,
                            cache_creation_input_tokens = int totalCacheable,
                            uncached_input_tokens = uncachedTokens, source = SrcCacheCreation\<rparr>,
                          lruSet now prefixHash
                            \<lparr>cp_staticPrefixTokens = staticPrefixTokens,
                              cp_staticCacheable = staticCacheable,
                              cp_prefixMessagesTokens = prefixMessagesTokens cc,
                              cp_lastCacheBreakpoint = lastCacheBreakpoint cc,
                              cp_cachedMessages = cachedMessages cc,
                              cp_allMessagesTokens = allMessagesTokens cc,
                              cp_hitCount = 0\<rparr>
                            (bump (\<lambda>s. s\<lparr>estimatedCacheCreations := estimatedCacheCreations s + 1\<rparr>)
                               est2)))"

text \<open>
  An example. The properties below hold for every tokenizer; to instantiate them the
  example tokenizer returns a count for every text, one token for each word between single
  spaces. The request has one system block with a cache breakpoint, whose text is the word
  \<open>hello\<close> 1500 times, and no messages; the estimator has the default configuration.
\<close>

definition ephemeral :: string where
  \<open>ephemeral = ''{"type":"ephemeral"}''\<close>

definition wordTokens :: "string \<Rightarrow> nat" where
  "wordTokens text = length (filter (\<lambda>c. c = CHR '' '') text) + 1"

definition wordEnv :: estimatorEnv where
  "wordEnv =
     \<lparr> countTokens = (\<lambda>text. Some (wordTokens text)),
       computeContentHash = (\<lambda>model req. ''prefix''),
       messageHash = (\<lambda>msg. ''message''), OPTIMISTIC_MATCHING = True \<rparr>"

definition helloSystem :: request where
  "helloSystem =
     \<lparr> system = CArray [PObject ''text'' (Some ephemeral)
                          (concat (replicate 1499 ''hello '') @ ''hello'')
                          [] [] [] [] None CNull],
       tools = [], messages = [] \<rparr>"

definition defaultEstimator :: estimator where
  "defaultEstimator =
     newEstimator \<lparr>eo_enabled = None, eo_minCacheableTokens = 0, eo_maxCacheSize = 0,
                   eo_historyTTL = 0\<rparr>"

text \<open>The sum of the three token counts of an estimate.\<close>

definition tokenSum :: "estimate \<Rightarrow> int" where
  "tokenSum r = cache_read_input_tokens r + cache_creation_input_tokens r + uncached_input_tokens r"

section \<open>Properties\<close>

lemma findIndex_None_iff: "findIndex P xs = None \<longleftrightarrow> (\<forall>x \<in> set xs. \<not> P x)"
  by (induction xs) (auto split: option.splits)

lemma findIndex_Some: "findIndex P xs = Some i \<Longrightarrow> i < length xs \<and> P (xs ! i)"
  by (induction xs arbitrary: i) (auto split: if_splits option.splits)

lemma findProvider_None_iff:
  "findProvider m ty u = None \<longleftrightarrow>
     (ty = [] \<or> \<not> truthy u \<or> (\<forall>c \<in> set (poolOf m ty). uuid c \<noteq> u))"
  by (auto simp: findProvider_def findIndex_None_iff)

text \<open>
  C9. Each of markProviderUnhealthy, markProviderUnhealthyImmediately, markProviderHealthy,
  resetProviderCounters, disableProvider and enableProvider leaves the whole manager state
  as it was (so neither a credential nor the set of pending saves nor the save timer
  changes) when the given configuration has no uuid or no credential with that uuid is in
  the pool of the given provider type.
\<close>

theorem mark_ops_noop_when_not_found:
  "\<not> truthy u \<or> (\<forall>c \<in> set (poolOf m ty). uuid c \<noteq> u) \<Longrightarrow> applyMarkOp op ty u m = m"
proof -
  assume h: "\<not> truthy u \<or> (\<forall>c \<in> set (poolOf m ty). uuid c \<noteq> u)"
  show ?thesis
  proof (cases "truthy u")
    case False
    then show ?thesis
      by (cases op)
         (simp_all add: markProviderUnhealthy_def markProviderUnhealthyImmediately_def
            markProviderHealthy_def resetProviderCounters_def disableProvider_def
            enableProvider_def)
  next
    case True
    with h have "findProvider m ty u = None"
      by (simp add: findProvider_None_iff)
    then show ?thesis
      by (cases op)
         (simp_all add: markProviderUnhealthy_def markProviderUnhealthyImmediately_def
            markProviderHealthy_def resetProviderCounters_def disableProvider_def
            enableProvider_def)
  qed
qed

theorem mark_ops_noop_when_not_found_witness:
  "Some ''zzz'' \<notin> set (map uuid (poolOf twoKiro ''claude-kiro-oauth'')) \<and>
   applyMarkOp Disable ''claude-kiro-oauth'' (Some ''zzz'') twoKiro = twoKiro"
proof -
  have h: "\<forall>c \<in> set (poolOf twoKiro ''claude-kiro-oauth''). uuid c \<noteq> Some ''zzz''"
    by (simp add: twoKiro_def newManager_def initializeProviderStatus_def poolOf_def
          initConfig_def freshRaw_def emptyRaw_def)
  from h mark_ops_noop_when_not_found [of "Some ''zzz''" twoKiro "''claude-kiro-oauth''" Disable]
  show ?thesis by auto
qed

lemma foldl_fixed:
  "(\<And>e. e \<in> set es \<Longrightarrow> f s e = s) \<Longrightarrow> foldl f s es = s"
  by (induction es) auto

lemma statusEntries_in:
  "(ty, i) \<in> set (statusEntries m) \<Longrightarrow> i < length (poolOf m ty)"
  by (auto simp: statusEntries_def)

text \<open>
  C8. When every credential of every provider type is healthy, performHealthChecks returns
  the manager exactly as it was (no credential field, pending save or timer changes) and
  the list of probes it sent is empty.
\<close>

theorem performHealthChecks_all_healthy:
  assumes "\<forall>ty. \<forall>c \<in> set (poolOf m ty). isHealthy c"
  shows "performHealthChecks now orc m = (m, [])"
  unfolding performHealthChecks_def
proof (rule foldl_fixed)
  fix e assume e: "e \<in> set (statusEntries m)"
  obtain ty i where [simp]: "e = (ty, i)" by (cases e)
  from e have "i < length (poolOf m ty)" by (simp add: statusEntries_in)
  with assms have "isHealthy (poolOf m ty ! i)" by (meson nth_mem)
  then show "healthCheckEntry now orc e (m, []) = (m, [])"
    by (simp add: healthCheckEntry_def)
qed

lemma twoKiro_status:
  "providerStatus twoKiro =
     [(''claude-kiro-oauth'', [initConfig (freshRaw ''a''), initConfig (freshRaw ''b'')])]"
  by (simp add: twoKiro_def newManager_def initializeProviderStatus_def)

lemma fresh_fields [simp]:
  "uuid (initConfig (freshRaw u)) = Some u"
  "isHealthy (initConfig (freshRaw u))"
  "\<not> isDisabled (initConfig (freshRaw u))"
  "lastUsed (initConfig (freshRaw u)) = None"
  "usageCount (initConfig (freshRaw u)) = 0"
  "errorCount (initConfig (freshRaw u)) = 0"
  "notSupportedModels (initConfig (freshRaw u)) = None"
  by (simp_all add: initConfig_def freshRaw_def emptyRaw_def)

theorem performHealthChecks_all_healthy_witness:
  "list_all isHealthy (poolOf twoKiro ''claude-kiro-oauth'') \<and>
   performHealthChecks 1000 deadUpstream twoKiro = (twoKiro, [])"
proof -
  have h: "\<forall>ty. \<forall>c \<in> set (poolOf twoKiro ty). isHealthy c"
    by (simp add: poolOf_def twoKiro_status)
  from h performHealthChecks_all_healthy [of twoKiro 1000 deadUpstream]
  show ?thesis by (simp add: poolOf_def twoKiro_status)
qed

lemma map_of_mapEntry:
  "map_of (mapEntry k f xs) k' = (if k' = k then map_option f (map_of xs k) else map_of xs k')"
  by (induction xs) auto

lemma poolOf_updCred:
  "poolOf (updCred ty i f m) ty' =
     (if ty' = ty then (poolOf m ty)[i := f (poolOf m ty ! i)] else poolOf m ty')"
  by (auto simp: poolOf_def updCred_def map_of_mapEntry split: option.splits)

lemma poolOf_status_cong: "providerStatus m' = providerStatus m \<Longrightarrow> poolOf m' = poolOf m"
  by (rule ext) (simp add: poolOf_def)

lemma providerStatus_debouncedSave [simp]:
  "providerStatus (debouncedSave ty m) = providerStatus m"
  by (simp add: debouncedSave_def)

lemma providerStatus_createStickySession [simp]:
  "providerStatus (createStickySession now sid ty u m) = providerStatus m"
  by (simp add: createStickySession_def evictOldestSessions_def Let_def)

lemma set_insertBy [simp]: "set (insertBy cmp x ys) = insert x (set ys)"
  by (induction ys) auto

lemma set_sortBy [simp]: "set (sortBy cmp xs) = set xs"
  by (induction xs) (auto simp: sortBy_def)

lemma length_insertBy [simp]: "length (insertBy cmp x ys) = Suc (length ys)"
  by (induction ys) auto

lemma length_sortBy [simp]: "length (sortBy cmp xs) = length xs"
  by (induction xs) (auto simp: sortBy_def)

lemma sortBy_Cons: "sortBy cmp (x # xs) = insertBy cmp x (sortBy cmp xs)"
  by (simp add: sortBy_def)

lemma hd_insertBy:
  "hd (insertBy cmp x ys) = (if ys = [] \<or> cmp x (hd ys) \<le> 0 then x else hd ys)"
  by (cases ys) auto

lemma sortBy_Nil_iff [simp]: "sortBy cmp xs = [] \<longleftrightarrow> xs = []"
  using length_sortBy[of cmp xs] by (metis length_0_conv)

lemma hd_sortBy_min:
  assumes total: "\<And>a b. cmp a b \<le> 0 \<or> cmp b a \<le> 0"
      and trans: "\<And>a b c. cmp a b \<le> 0 \<Longrightarrow> cmp b c \<le> 0 \<Longrightarrow> cmp a c \<le> 0"
  shows "xs \<noteq> [] \<Longrightarrow> hd (sortBy cmp xs) \<in> set xs \<and> (\<forall>y \<in> set xs. cmp (hd (sortBy cmp xs)) y \<le> 0)"
proof (induction xs)
  case Nil
  then show ?case by simp
next
  case (Cons x xs)
  show ?case
  proof (cases "xs = []")
    case True
    then show ?thesis using total[of x x] by (simp add: sortBy_def)
  next
    case False
    with Cons.IH have IH: "hd (sortBy cmp xs) \<in> set xs"
      "\<forall>y \<in> set xs. cmp (hd (sortBy cmp xs)) y \<le> 0" by auto
    let ?h = "hd (sortBy cmp xs)"
    have hd: "hd (sortBy cmp (x # xs)) = (if cmp x ?h \<le> 0 then x else ?h)"
      using False by (simp add: sortBy_Cons hd_insertBy)
    show ?thesis
    proof (cases "cmp x ?h \<le> 0")
      case True
      then show ?thesis using hd IH trans[of x ?h] total[of x x] by auto
    next
      case False
      then have "cmp ?h x \<le> 0" using total[of x ?h] by auto
      then show ?thesis using hd IH False by auto
    qed
  qed
qed

lemma lruCompare_le:
  "lruCompare a b \<le> 0 \<longleftrightarrow> timeOf a < timeOf b \<or> (timeOf a = timeOf b \<and> usageCount a \<le> usageCount b)"
  by (auto simp: lruCompare_def timeOf_def Let_def)

lemma set_candidateEntries:
  "set (candidateEntries m ty model) =
     {(i, c). i < length (poolOf m ty) \<and> c = poolOf m ty ! i \<and> c \<in> eligible m ty model}"
  by (auto simp: candidateEntries_def availableAndHealthy_def eligible_def in_set_enumerate_eq)

lemma eligible_iff_candidateEntries:
  "eligible m ty model = snd ` set (candidateEntries m ty model)"
  by (force simp: set_candidateEntries eligible_def in_set_conv_nth)

lemma selectLRU_candidates:
  "selectLRU now ty model opts m =
     (if candidateEntries m ty model = [] then (None, m)
      else
        let selected = hd (sortBy (\<lambda>a b. lruCompare (snd a) (snd b)) (candidateEntries m ty model));
            m1 = (if sticky_enabled m \<and> truthy (sessionId opts) \<and> \<not> isFromFallback opts
                  then createStickySession now (the (sessionId opts)) ty (uuid (snd selected)) m
                  else m);
            m2 = (if \<not> skipUsageCount opts
                  then debouncedSave ty (updCred ty (fst selected) (touch now) m1)
                  else m1)
        in (Some (poolOf m2 ty ! fst selected), m2))"
  by (simp add: selectLRU_def candidateEntries_def Let_def)

lemma lruCompare_total: "lruCompare a b \<le> 0 \<or> lruCompare b a \<le> 0"
  by (auto simp: lruCompare_le)

lemma lruCompare_trans: "lruCompare a b \<le> 0 \<Longrightarrow> lruCompare b c \<le> 0 \<Longrightarrow> lruCompare a c \<le> 0"
  by (auto simp: lruCompare_le)

lemma selectLRU_spec:
  assumes ne: "eligible m ty model \<noteq> {}" and use: "\<not> skipUsageCount opts"
  shows "\<exists>i < length (poolOf m ty).
           poolOf m ty ! i \<in> eligible m ty model \<and>
           (\<forall>c \<in> eligible m ty model. lruCompare (poolOf m ty ! i) c \<le> 0) \<and>
           fst (selectLRU now ty model opts m) = Some (touch now (poolOf m ty ! i)) \<and>
           poolOf (snd (selectLRU now ty model opts m)) ty =
             (poolOf m ty)[i := touch now (poolOf m ty ! i)]"
proof -
  let ?cs = "candidateEntries m ty model"
  let ?cmp = "\<lambda>a b::nat \<times> credential. lruCompare (snd a) (snd b)"
  let ?sel = "hd (sortBy ?cmp ?cs)"
  from ne have cs: "?cs \<noteq> []" by (auto simp: eligible_iff_candidateEntries)
  have "?sel \<in> set ?cs \<and> (\<forall>y \<in> set ?cs. ?cmp ?sel y \<le> 0)"
  proof (rule hd_sortBy_min[OF _ _ cs])
    fix a b :: "nat \<times> credential"
    show "lruCompare (snd a) (snd b) \<le> 0 \<or> lruCompare (snd b) (snd a) \<le> 0"
      by (rule lruCompare_total)
  next
    fix a b c :: "nat \<times> credential"
    assume "lruCompare (snd a) (snd b) \<le> 0" "lruCompare (snd b) (snd c) \<le> 0"
    then show "lruCompare (snd a) (snd c) \<le> 0" by (rule lruCompare_trans)
  qed
  then have sel_in: "?sel \<in> set ?cs" and sel_min: "\<forall>y \<in> set ?cs. lruCompare (snd ?sel) (snd y) \<le> 0"
    by auto
  obtain i c where sel: "?sel = (i, c)" by (cases ?sel)
  from sel_in sel have i: "i < length (poolOf m ty)" and c: "c = poolOf m ty ! i"
    and el: "c \<in> eligible m ty model"
    by (auto simp: set_candidateEntries)
  have min: "\<forall>c' \<in> eligible m ty model. lruCompare c c' \<le> 0"
    using sel_min sel by (auto simp: eligible_iff_candidateEntries)
  let ?m1 = "(if sticky_enabled m \<and> truthy (sessionId opts) \<and> \<not> isFromFallback opts
              then createStickySession now (the (sessionId opts)) ty (uuid c) m else m)"
  have p1: "poolOf ?m1 = poolOf m" by (rule poolOf_status_cong) simp
  have res: "selectLRU now ty model opts m =
      (Some (poolOf (debouncedSave ty (updCred ty i (touch now) ?m1)) ty ! i),
       debouncedSave ty (updCred ty i (touch now) ?m1))"
    using cs use sel by (simp add: selectLRU_candidates Let_def)
  have p2: "poolOf (debouncedSave ty (updCred ty i (touch now) ?m1)) ty
              = (poolOf m ty)[i := touch now (poolOf m ty ! i)]"
    using poolOf_status_cong[of "debouncedSave ty (updCred ty i (touch now) ?m1)"
            "updCred ty i (touch now) ?m1"]
    by (simp add: poolOf_updCred p1)
  show ?thesis
    using i c el min res p2 by (intro exI[of _ i]) (simp del: split_paired_All)
qed

lemma providerStatus_trySelect [simp]:
  "providerStatus (snd (trySelectFromStickySession now ty model sid m)) = providerStatus m"
  by (simp add: trySelectFromStickySession_def Let_def split: option.splits)

lemma eligible_status_cong:
  "providerStatus m' = providerStatus m \<Longrightarrow> eligible m' ty model = eligible m ty model"
  using poolOf_status_cong[of m' m] by (simp add: eligible_def)

lemma selectProvider_not_sticky:
  assumes "ty \<noteq> []" "\<not> stickyPathTaken now ty model opts m"
  shows "\<exists>m1. providerStatus m1 = providerStatus m \<and>
              selectProvider now ty model opts m = selectLRU now ty model opts m1"
proof (cases "sticky_enabled m \<and> truthy (sessionId opts)")
  case False
  with assms show ?thesis by (auto simp: selectProvider_def)
next
  case True
  let ?r = "trySelectFromStickySession now ty model (the (sessionId opts)) m"
  from True assms have "fst ?r = None" by (simp add: stickyPathTaken_def)
  with True assms have "selectProvider now ty model opts m = selectLRU now ty model opts (snd ?r)"
    by (cases ?r) (simp add: selectProvider_def)
  then show ?thesis by (intro exI[of _ "snd ?r"]) simp
qed

lemma touch_fields [simp]:
  "isHealthy (touch now c) = isHealthy c"
  "isDisabled (touch now c) = isDisabled c"
  "supportsModel (touch now c) model = supportsModel c model"
  "lastUsed (touch now c) = Some now"
  "uuid (touch now c) = uuid c"
  "timeOf (touch now c) = now"
  by (simp_all add: touch_def supportsModel_def timeOf_def)

text \<open>
  C3 (amended). A selectProvider call that does not return from the sticky-session branch,
  with skipUsageCount false and a non-empty set of healthy, non-disabled credentials
  supporting the requested model, returns one of them (the entry at some position \<open>i\<close>,
  with lastUsed set to now and usageCount incremented), and that entry is minimal under
  (lastUsed as epoch milliseconds with null as 0, then usageCount); this holds whatever
  the clock reads. If in addition no candidate's stored lastUsed is later than the clock
  reading of the call, then after the call the lastUsed of the returned credential is at
  least that of every candidate.
\<close>

theorem selectProvider_lru:
  assumes ty: "ty \<noteq> []"
      and ns: "\<not> stickyPathTaken now ty model opts m"
      and use: "\<not> skipUsageCount opts"
      and ne: "eligible m ty model \<noteq> {}"
  shows "\<exists>i < length (poolOf m ty).
           poolOf m ty ! i \<in> eligible m ty model \<and>
           (\<forall>c \<in> eligible m ty model.
              timeOf (poolOf m ty ! i) < timeOf c \<or>
              (timeOf (poolOf m ty ! i) = timeOf c \<and> usageCount (poolOf m ty ! i) \<le> usageCount c)) \<and>
           fst (selectProvider now ty model opts m) = Some (touch now (poolOf m ty ! i)) \<and>
           poolOf (snd (selectProvider now ty model opts m)) ty =
             (poolOf m ty)[i := touch now (poolOf m ty ! i)] \<and>
           ((\<forall>c \<in> eligible m ty model. timeOf c \<le> now) \<longrightarrow>
            (\<forall>c \<in> eligible (snd (selectProvider now ty model opts m)) ty model.
               timeOf c \<le> timeOf (touch now (poolOf m ty ! i))))"
proof -
  from selectProvider_not_sticky[OF ty ns] obtain m1 where
    st: "providerStatus m1 = providerStatus m" and
    eq: "selectProvider now ty model opts m = selectLRU now ty model opts m1" by blast
  have el: "eligible m1 ty model = eligible m ty model" using st by (rule eligible_status_cong)
  have po: "poolOf m1 = poolOf m" using st by (rule poolOf_status_cong)
  from ne el have "eligible m1 ty model \<noteq> {}" by simp
  from selectLRU_spec[OF this use, of now] obtain i where
    "i < length (poolOf m1 ty)"
    "poolOf m1 ty ! i \<in> eligible m1 ty model"
    "\<forall>c \<in> eligible m1 ty model. lruCompare (poolOf m1 ty ! i) c \<le> 0"
    "fst (selectLRU now ty model opts m1) = Some (touch now (poolOf m1 ty ! i))"
    "poolOf (snd (selectLRU now ty model opts m1)) ty =
             (poolOf m1 ty)[i := touch now (poolOf m1 ty ! i)]"
    by (elim exE conjE)
  then have
    i: "i < length (poolOf m ty)" and
    c0: "poolOf m ty ! i \<in> eligible m ty model" and
    mn: "\<forall>c \<in> eligible m ty model. lruCompare (poolOf m ty ! i) c \<le> 0" and
    r: "fst (selectProvider now ty model opts m) = Some (touch now (poolOf m ty ! i))" and
    p: "poolOf (snd (selectProvider now ty model opts m)) ty =
             (poolOf m ty)[i := touch now (poolOf m ty ! i)]"
    by (simp_all only: el po eq)
  have after: "\<forall>c \<in> eligible (snd (selectProvider now ty model opts m)) ty model.
              timeOf c \<le> timeOf (touch now (poolOf m ty ! i))"
    if clock: "\<forall>c \<in> eligible m ty model. timeOf c \<le> now"
  proof
    fix c assume "c \<in> eligible (snd (selectProvider now ty model opts m)) ty model"
    then have cin: "c \<in> set ((poolOf m ty)[i := touch now (poolOf m ty ! i)])"
      and ok: "isHealthy c \<and> \<not> isDisabled c \<and> (truthy model \<longrightarrow> supportsModel c (the model))"
      by (simp_all add: eligible_def p)
    from cin have "c = touch now (poolOf m ty ! i) \<or> c \<in> set (poolOf m ty)"
      using set_update_subset_insert by fastforce
    then show "timeOf c \<le> timeOf (touch now (poolOf m ty ! i))"
    proof
      assume "c = touch now (poolOf m ty ! i)" then show ?thesis by simp
    next
      assume "c \<in> set (poolOf m ty)"
      with ok have "c \<in> eligible m ty model" by (simp add: eligible_def)
      with clock show ?thesis by simp
    qed
  qed
  have mn': "\<forall>c \<in> eligible m ty model.
              timeOf (poolOf m ty ! i) < timeOf c \<or>
              (timeOf (poolOf m ty ! i) = timeOf c \<and> usageCount (poolOf m ty ! i) \<le> usageCount c)"
    using mn by (simp add: lruCompare_le)
  show ?thesis
    using i c0 mn' r p after by (intro exI[of _ i] conjI impI) assumption+
qed

lemma futureDated_status:
  "providerStatus futureDated =
     [(''claude-kiro-oauth'',
       [initConfig (freshRaw ''a''), initConfig ((freshRaw ''b'')\<lparr>r_lastUsed := Some 5000\<rparr>)])]"
  by (simp add: futureDated_def newManager_def initializeProviderStatus_def)

lemma futureDated_pool:
  "poolOf futureDated ''claude-kiro-oauth'' =
     [initConfig (freshRaw ''a''), initConfig ((freshRaw ''b'')\<lparr>r_lastUsed := Some 5000\<rparr>)]"
  by (simp add: poolOf_def futureDated_status)

lemma futureB_fields [simp]:
  "uuid (initConfig ((freshRaw u)\<lparr>r_lastUsed := t\<rparr>)) = Some u"
  "isHealthy (initConfig ((freshRaw u)\<lparr>r_lastUsed := t\<rparr>))"
  "\<not> isDisabled (initConfig ((freshRaw u)\<lparr>r_lastUsed := t\<rparr>))"
  "lastUsed (initConfig ((freshRaw u)\<lparr>r_lastUsed := t\<rparr>)) = t"
  "usageCount (initConfig ((freshRaw u)\<lparr>r_lastUsed := t\<rparr>)) = 0"
  "notSupportedModels (initConfig ((freshRaw u)\<lparr>r_lastUsed := t\<rparr>)) = None"
  by (simp_all add: initConfig_def freshRaw_def emptyRaw_def)

lemma futureDated_flags [simp]:
  "sticky_enabled futureDated = False"
  by (simp add: futureDated_def newManager_def initializeProviderStatus_def defaultOptions_def)

lemma futureDated_candidates:
  "candidateEntries futureDated ''claude-kiro-oauth'' None =
     [(0, initConfig (freshRaw ''a'')), (1, initConfig ((freshRaw ''b'')\<lparr>r_lastUsed := Some 5000\<rparr>))]"
  by (simp add: candidateEntries_def availableAndHealthy_def futureDated_pool truthy_def)

lemma futureDated_select:
  "selectProvider 1000 ''claude-kiro-oauth'' None plainSelect futureDated =
     (Some (touch 1000 (initConfig (freshRaw ''a''))),
      debouncedSave ''claude-kiro-oauth''
        (updCred ''claude-kiro-oauth'' 0 (touch 1000) futureDated))"
  by (simp add: selectProvider_def selectLRU_candidates futureDated_candidates sortBy_def
        lruCompare_def plainSelect_def truthy_def Let_def poolOf_updCred futureDated_pool
        poolOf_status_cong[of "debouncedSave _ _" "updCred ''claude-kiro-oauth'' 0 (touch 1000) futureDated"])


lemma poolOf_debouncedSave [simp]: "poolOf (debouncedSave ty m) = poolOf m"
  by (rule poolOf_status_cong) simp

lemma poolOf_createStickySession [simp]:
  "poolOf (createStickySession now sid ty u m) = poolOf m"
  by (rule poolOf_status_cong) simp

theorem selectProvider_lru_counterexample:
  "\<not> stickyPathTaken 1000 ''claude-kiro-oauth'' None plainSelect futureDated \<and>
   \<not> skipUsageCount plainSelect \<and>
   (let A = initConfig (freshRaw ''a'');
        B = initConfig ((freshRaw ''b'')\<lparr>r_lastUsed := Some 5000\<rparr>);
        res = selectProvider 1000 ''claude-kiro-oauth'' None plainSelect futureDated
    in eligible futureDated ''claude-kiro-oauth'' None = {A, B} \<and>
       fst res = Some (touch 1000 A) \<and>
       lastUsed (touch 1000 A) = Some 1000 \<and>
       B \<in> eligible (snd res) ''claude-kiro-oauth'' None \<and>
       lastUsed B = Some 5000 \<and>
       \<not> timeOf B \<le> timeOf (touch 1000 A))"
proof -
  have 1: "\<not> stickyPathTaken 1000 ''claude-kiro-oauth'' None plainSelect futureDated"
    by (simp add: stickyPathTaken_def)
  have 2: "\<not> skipUsageCount plainSelect" by (simp add: plainSelect_def)
  have 3: "eligible futureDated ''claude-kiro-oauth'' None =
             {initConfig (freshRaw ''a''), initConfig ((freshRaw ''b'')\<lparr>r_lastUsed := Some 5000\<rparr>)}"
    by (auto simp: eligible_def futureDated_pool truthy_def)
  have 4: "initConfig ((freshRaw ''b'')\<lparr>r_lastUsed := Some 5000\<rparr>)
             \<in> eligible (snd (selectProvider 1000 ''claude-kiro-oauth'' None plainSelect futureDated))
                  ''claude-kiro-oauth'' None"
    by (simp add: futureDated_select eligible_def poolOf_updCred futureDated_pool truthy_def)
  show ?thesis
    using 1 2 3 4 by (simp add: futureDated_select timeOf_def Let_def)
qed

lemma twoKiro_pool:
  "poolOf twoKiro ''claude-kiro-oauth'' = [initConfig (freshRaw ''a''), initConfig (freshRaw ''b'')]"
  by (simp add: poolOf_def twoKiro_status)

lemma twoKiro_flags [simp]: "sticky_enabled twoKiro = False" "maxErrorCount twoKiro = 3"
  by (simp_all add: twoKiro_def newManager_def initializeProviderStatus_def defaultOptions_def)

theorem selectProvider_lru_witness:
  "\<exists>i < length (poolOf twoKiro ''claude-kiro-oauth'').
      poolOf twoKiro ''claude-kiro-oauth'' ! i \<in> eligible twoKiro ''claude-kiro-oauth'' None \<and>
      fst (selectProvider 1000 ''claude-kiro-oauth'' None plainSelect twoKiro) =
        Some (touch 1000 (poolOf twoKiro ''claude-kiro-oauth'' ! i)) \<and>
      (\<forall>c \<in> eligible (snd (selectProvider 1000 ''claude-kiro-oauth'' None plainSelect twoKiro))
               ''claude-kiro-oauth'' None.
         timeOf c \<le> timeOf (touch 1000 (poolOf twoKiro ''claude-kiro-oauth'' ! i)))"
proof -
  have ns: "\<not> stickyPathTaken 1000 ''claude-kiro-oauth'' None plainSelect twoKiro"
    by (simp add: stickyPathTaken_def)
  have use: "\<not> skipUsageCount plainSelect" by (simp add: plainSelect_def)
  have el: "eligible twoKiro ''claude-kiro-oauth'' None =
              {initConfig (freshRaw ''a''), initConfig (freshRaw ''b'')}"
    by (auto simp: eligible_def twoKiro_pool truthy_def)
  have ne: "eligible twoKiro ''claude-kiro-oauth'' None \<noteq> {}" by (simp add: el)
  have clock: "\<forall>c \<in> eligible twoKiro ''claude-kiro-oauth'' None. timeOf c \<le> 1000"
    by (simp add: el timeOf_def)
  from selectProvider_lru [OF _ ns use ne] clock show ?thesis by fastforce
qed

lemma map_of_mapDelete: "map_of (mapDelete k xs) k' = (if k' = k then None else map_of xs k')"
  by (induction xs) (auto simp: mapDelete_def)

lemma map_of_mapSet: "map_of (mapSet k v xs) k' = (if k' = k then Some v else map_of xs k')"
proof (cases "k \<in> fst ` set xs")
  case True
  then have "map_of xs k \<noteq> None" by (simp add: map_of_eq_None_iff)
  with True show ?thesis by (auto simp: mapSet_def map_of_mapEntry)
next
  case False
  then have "map_of xs k = None" by (simp add: map_of_eq_None_iff)
  with False show ?thesis by (auto simp: mapSet_def map_add_def split: option.splits)
qed

lemma stickySessionMap_debouncedSave [simp]:
  "stickySessionMap (debouncedSave ty m) = stickySessionMap m"
  by (simp add: debouncedSave_def)

lemma stickySessionMap_updCred [simp]:
  "stickySessionMap (updCred ty i f m) = stickySessionMap m"
  by (simp add: updCred_def)

lemma selectLRU_fallback_keeps_table:
  "isFromFallback opts \<Longrightarrow>
     stickySessionMap (snd (selectLRU now ty model opts m)) = stickySessionMap m"
  by (simp add: selectLRU_candidates Let_def)

lemma selectLRU_Some_entry:
  assumes "fst (selectLRU now ty model opts m) = Some c"
  shows "candidateEntries m ty model \<noteq> [] \<and>
         uuid c = uuid (snd (hd (sortBy (\<lambda>a b. lruCompare (snd a) (snd b)) (candidateEntries m ty model))))"
proof -
  let ?cs = "candidateEntries m ty model"
  let ?sel = "hd (sortBy (\<lambda>a b. lruCompare (snd a) (snd b)) ?cs)"
  from assms have cs: "?cs \<noteq> []" by (auto simp: selectLRU_candidates split: if_splits)
  then have "?sel \<in> set (sortBy (\<lambda>a b. lruCompare (snd a) (snd b)) ?cs)"
    by (intro hd_in_set) simp
  then have "?sel \<in> set ?cs" by simp
  then have i: "fst ?sel < length (poolOf m ty)" and c: "snd ?sel = poolOf m ty ! fst ?sel"
    by (auto simp: set_candidateEntries)
  from assms cs have "c = poolOf m ty ! fst ?sel \<or> c = touch now (poolOf m ty ! fst ?sel)"
    using i by (auto simp: selectLRU_candidates Let_def poolOf_updCred split: if_splits)
  with c cs show ?thesis by auto
qed

lemma selectLRU_rebinds:
  assumes "fst (selectLRU now ty model opts m) = Some c"
      and "sticky_enabled m" "sessionId opts = Some sid" "sid \<noteq> []" "\<not> isFromFallback opts"
  shows "map_of (stickySessionMap (snd (selectLRU now ty model opts m))) sid =
           Some \<lparr>s_providerType = ty, s_providerUuid = uuid c, createdAt = now,
                 lastAccessedAt = now, requestCount = 1\<rparr>"
proof -
  from selectLRU_Some_entry[OF assms(1)] have cs: "candidateEntries m ty model \<noteq> []"
    and u: "uuid c = uuid (snd (hd (sortBy (\<lambda>a b. lruCompare (snd a) (snd b)) (candidateEntries m ty model))))"
    by auto
  show ?thesis
    using cs assms(2-5)
    by (simp add: selectLRU_candidates Let_def truthy_def u createStickySession_def map_of_mapSet)
qed

lemma trySelect_dropped:
  assumes "map_of (stickySessionMap m) sid = Some session"
      and "now - lastAccessedAt session > ttlMs m \<or>
       (s_providerType session = ty \<and>
         (case findProvider m ty (s_providerUuid session) of
            None \<Rightarrow> True
          | Some i \<Rightarrow> \<not> isHealthy (poolOf m ty ! i) \<or> isDisabled (poolOf m ty ! i)))"
  shows "trySelectFromStickySession now ty model sid m = (None, dropBinding sid m)"
  using assms
  by (auto simp: trySelectFromStickySession_def dropBinding_def Let_def split: option.splits)

lemma trySelect_kept:
  assumes "map_of (stickySessionMap m) sid = Some session"
      and "\<not> now - lastAccessedAt session > ttlMs m \<and>
       (s_providerType session \<noteq> ty \<or>
         (case findProvider m ty (s_providerUuid session) of
            None \<Rightarrow> False
          | Some i \<Rightarrow> isHealthy (poolOf m ty ! i) \<and> \<not> isDisabled (poolOf m ty ! i) \<and>
                      truthy model \<and> \<not> supportsModel (poolOf m ty ! i) (the model)))"
  shows "trySelectFromStickySession now ty model sid m = (None, m)"
  using assms
  by (auto simp: trySelectFromStickySession_def Let_def split: option.splits)

lemma selectProvider_sticky_miss:
  assumes "sticky_enabled m" "sessionId opts = Some sid" "sid \<noteq> []" "ty \<noteq> []"
      and "trySelectFromStickySession now ty model sid m = (None, m1)"
  shows "selectProvider now ty model opts m = selectLRU now ty model opts m1"
  using assms by (simp add: selectProvider_def truthy_def)

text \<open>
  C6 (amended). In a selectProvider call with sticky sessions enabled and a session id that
  is bound in the sticky table, the sticky step deletes the binding when the session's TTL
  has expired, or when the bound provider type is the requested one and the bound credential
  is not found, unhealthy or disabled; the call then continues with LRU selection on the
  table without the binding. When the TTL has not expired and either the bound provider
  type differs from the requested one, or only the model-support test fails, the sticky
  step leaves the table as it is and the call continues with LRU selection. LRU selection
  leaves the table untouched when isFromFallback is set; otherwise, when it selects a
  credential, it binds the session to that credential.
\<close>

theorem sticky_binding_fate:
  assumes en: "sticky_enabled m" and so: "sessionId opts = Some sid" and sid: "sid \<noteq> []"
      and ty: "ty \<noteq> []" and bound: "map_of (stickySessionMap m) sid = Some session"
  shows
    "((now - lastAccessedAt session > ttlMs m \<or>
       (s_providerType session = ty \<and>
         (case findProvider m ty (s_providerUuid session) of
            None \<Rightarrow> True
          | Some i \<Rightarrow> \<not> isHealthy (poolOf m ty ! i) \<or> isDisabled (poolOf m ty ! i)))) \<longrightarrow>
        trySelectFromStickySession now ty model sid m = (None, dropBinding sid m) \<and>
        map_of (stickySessionMap (dropBinding sid m)) sid = None \<and>
        selectProvider now ty model opts m = selectLRU now ty model opts (dropBinding sid m)) \<and>
     ((\<not> now - lastAccessedAt session > ttlMs m \<and>
       (s_providerType session \<noteq> ty \<or>
         (case findProvider m ty (s_providerUuid session) of
            None \<Rightarrow> False
          | Some i \<Rightarrow> isHealthy (poolOf m ty ! i) \<and> \<not> isDisabled (poolOf m ty ! i) \<and>
                      truthy model \<and> \<not> supportsModel (poolOf m ty ! i) (the model)))) \<longrightarrow>
        trySelectFromStickySession now ty model sid m = (None, m) \<and>
        selectProvider now ty model opts m = selectLRU now ty model opts m) \<and>
     (isFromFallback opts \<longrightarrow>
        stickySessionMap (snd (selectLRU now ty model opts m')) = stickySessionMap m') \<and>
     (\<not> isFromFallback opts \<and> sticky_enabled m' \<longrightarrow>
        (case fst (selectLRU now ty model opts m') of
           None \<Rightarrow> True
         | Some c \<Rightarrow>
             map_of (stickySessionMap (snd (selectLRU now ty model opts m'))) sid =
               Some \<lparr>s_providerType = ty, s_providerUuid = uuid c, createdAt = now,
                     lastAccessedAt = now, requestCount = 1\<rparr>))"
proof (intro conjI impI)
  assume a: "now - lastAccessedAt session > ttlMs m \<or>
       (s_providerType session = ty \<and>
         (case findProvider m ty (s_providerUuid session) of
            None \<Rightarrow> True
          | Some i \<Rightarrow> \<not> isHealthy (poolOf m ty ! i) \<or> isDisabled (poolOf m ty ! i)))"
  show t: "trySelectFromStickySession now ty model sid m = (None, dropBinding sid m)"
    by (rule trySelect_dropped[OF bound a])
  show "map_of (stickySessionMap (dropBinding sid m)) sid = None"
    by (simp add: dropBinding_def map_of_mapDelete)
  show "selectProvider now ty model opts m = selectLRU now ty model opts (dropBinding sid m)"
    by (rule selectProvider_sticky_miss[OF en so sid ty t])
next
  assume a: "\<not> now - lastAccessedAt session > ttlMs m \<and>
       (s_providerType session \<noteq> ty \<or>
         (case findProvider m ty (s_providerUuid session) of
            None \<Rightarrow> False
          | Some i \<Rightarrow> isHealthy (poolOf m ty ! i) \<and> \<not> isDisabled (poolOf m ty ! i) \<and>
                      truthy model \<and> \<not> supportsModel (poolOf m ty ! i) (the model)))"
  show t: "trySelectFromStickySession now ty model sid m = (None, m)"
    by (rule trySelect_kept[OF bound a])
  show "selectProvider now ty model opts m = selectLRU now ty model opts m"
    by (rule selectProvider_sticky_miss[OF en so sid ty t])
next
  assume "isFromFallback opts"
  then show "stickySessionMap (snd (selectLRU now ty model opts m')) = stickySessionMap m'"
    by (rule selectLRU_fallback_keeps_table)
next
  assume nf: "\<not> isFromFallback opts \<and> sticky_enabled m'"
  show "case fst (selectLRU now ty model opts m') of
           None \<Rightarrow> True
         | Some c \<Rightarrow>
             map_of (stickySessionMap (snd (selectLRU now ty model opts m'))) sid =
               Some \<lparr>s_providerType = ty, s_providerUuid = uuid c, createdAt = now,
                     lastAccessedAt = now, requestCount = 1\<rparr>"
  proof (cases "fst (selectLRU now ty model opts m')")
    case None
    then show ?thesis by simp
  next
    case (Some c)
    from nf selectLRU_rebinds[OF Some _ so sid] Some show ?thesis by simp
  qed
qed

lemma stickyPools_fields [simp]:
  "sticky_enabled stickyPools" "ttlMs stickyPools = 1800000" "maxSessions stickyPools = 10000"
  "stickySessionMap stickyPools = []"
  "providerStatus stickyPools =
     [(''claude-custom'', [initConfig (freshRaw ''x'')]),
      (''claude-kiro-oauth'', [initConfig (freshRaw ''a'')])]"
  by (simp_all add: stickyPools_def newManager_def initializeProviderStatus_def defaultOptions_def)

lemma withSession_fields [simp]:
  "sessionId (withSession fb) = Some ''S1''" "skipUsageCount (withSession fb) = False"
  "isFromFallback (withSession fb) = fb"
  by (simp_all add: withSession_def)

lemma boundS1_eq:
  "boundS1 =
     debouncedSave ''claude-custom''
       (updCred ''claude-custom'' 0 (touch 0)
          (createStickySession 0 ''S1'' ''claude-custom'' (Some ''x'') stickyPools))"
proof -
  have t: "trySelectFromStickySession 0 ''claude-custom'' None ''S1'' stickyPools = (None, stickyPools)"
    by (simp add: trySelectFromStickySession_def)
  have c: "candidateEntries stickyPools ''claude-custom'' None = [(0, initConfig (freshRaw ''x''))]"
    by (simp add: candidateEntries_def availableAndHealthy_def poolOf_def truthy_def)
  show ?thesis
    unfolding boundS1_def selectProvider_sticky_miss[OF _ _ _ _ t, of "withSession False", simplified]
    by (simp add: selectLRU_candidates c sortBy_def truthy_def Let_def)
qed

lemma boundS1_fields [simp]:
  "sticky_enabled boundS1" "ttlMs boundS1 = 1800000"
  "stickySessionMap boundS1 = [(''S1'', bindingX)]"
  by (simp_all add: boundS1_eq debouncedSave_def updCred_def createStickySession_def
        mapSet_def bindingX_def)

theorem sticky_binding_fate_counterexample:
  "map_of (stickySessionMap boundS1) ''S1'' = Some bindingX \<and>
   s_providerType bindingX \<noteq> ''claude-kiro-oauth'' \<and>
   \<not> 1000 - lastAccessedAt bindingX > ttlMs boundS1 \<and>
   map_of (stickySessionMap
       (snd (trySelectFromStickySession 1000 ''claude-kiro-oauth'' None ''S1'' boundS1))) ''S1''
     = Some bindingX \<and>
   map_of (stickySessionMap
       (snd (selectProvider 1000 ''claude-kiro-oauth'' None (withSession True) boundS1))) ''S1''
     = Some bindingX"
proof -
  have b: "map_of (stickySessionMap boundS1) ''S1'' = Some bindingX" by simp
  have k: "\<not> 1000 - lastAccessedAt bindingX > ttlMs boundS1 \<and>
           s_providerType bindingX \<noteq> ''claude-kiro-oauth''"
    by (simp add: bindingX_def)
  have t: "trySelectFromStickySession 1000 ''claude-kiro-oauth'' None ''S1'' boundS1 = (None, boundS1)"
    by (rule trySelect_kept[OF b]) (use k in simp)
  have s: "selectProvider 1000 ''claude-kiro-oauth'' None (withSession True) boundS1 =
           selectLRU 1000 ''claude-kiro-oauth'' None (withSession True) boundS1"
    by (rule selectProvider_sticky_miss[OF _ _ _ _ t]) simp_all
  show ?thesis
    using k by (simp add: t s selectLRU_fallback_keeps_table)
qed

theorem sticky_binding_fate_witness:
  "trySelectFromStickySession 1000 ''claude-kiro-oauth'' None ''S1'' boundS1 = (None, boundS1) \<and>
   selectProvider 1000 ''claude-kiro-oauth'' None (withSession True) boundS1 =
     selectLRU 1000 ''claude-kiro-oauth'' None (withSession True) boundS1 \<and>
   trySelectFromStickySession 1800001 ''claude-custom'' None ''S1'' boundS1 =
     (None, dropBinding ''S1'' boundS1)"
proof -
  have b: "map_of (stickySessionMap boundS1) ''S1'' = Some bindingX" by simp
  note f = sticky_binding_fate[OF _ _ _ _ b, of "withSession True"]
  from f[of "''claude-kiro-oauth''" 1000 None] f[of "''claude-custom''" 1800001 None]
  show ?thesis by (simp add: bindingX_def)
qed

lemma length_mapDelete_le: "length (mapDelete k xs) \<le> length xs"
  by (simp add: mapDelete_def)

lemma keys_mapDelete: "fst ` set (mapDelete k xs) = fst ` set xs - {k}"
  by (auto simp: mapDelete_def image_iff)

lemma distinct_mapDelete: "distinct (map fst xs) \<Longrightarrow> distinct (map fst (mapDelete k xs))"
  by (simp add: mapDelete_def distinct_map_filter)

lemma map_fst_mapEntry [simp]: "map fst (mapEntry k f xs) = map fst xs"
  by (induction xs) auto

lemma length_mapEntry [simp]: "length (mapEntry k f xs) = length xs"
  by (induction xs) auto

lemma length_mapSet:
  "length (mapSet k v xs) = (if k \<in> fst ` set xs then length xs else Suc (length xs))"
  by (simp add: mapSet_def)

lemma distinct_mapSet: "distinct (map fst xs) \<Longrightarrow> distinct (map fst (mapSet k v xs))"
  by (auto simp: mapSet_def)

lemma distinct_map_insertBy:
  "distinct (map f (insertBy cmp x ys)) \<longleftrightarrow> f x \<notin> f ` set ys \<and> distinct (map f ys)"
  by (induction ys) auto

lemma sortBy_Nil [simp]: "sortBy cmp [] = []"
  by (simp add: sortBy_def)

lemma distinct_map_sortBy: "distinct (map f (sortBy cmp xs)) \<longleftrightarrow> distinct (map f xs)"
  by (induction xs) (auto simp: sortBy_Cons distinct_map_insertBy)

lemma foldl_mapDelete:
  "foldl (\<lambda>tbl e. mapDelete (fst e) tbl) tbl es = filter (\<lambda>(k, v). k \<notin> fst ` set es) tbl"
proof (induction es arbitrary: tbl)
  case Nil
  then show ?case by simp
next
  case (Cons e es)
  have "foldl (\<lambda>tbl e. mapDelete (fst e) tbl) tbl (e # es) =
          filter (\<lambda>(k, v). k \<notin> fst ` set es) (mapDelete (fst e) tbl)"
    by (simp add: Cons.IH)
  also have "\<dots> = filter (\<lambda>(k, v). k \<notin> fst ` set (e # es)) tbl"
    unfolding mapDelete_def filter_filter by (rule filter_cong) auto
  finally show ?case .
qed

lemma length_filter_keys:
  assumes "distinct (map fst tbl)" "K \<subseteq> fst ` set tbl" "finite K"
  shows "length (filter (\<lambda>(k, v). k \<notin> K) tbl) = length tbl - card K"
proof -
  have d: "distinct (map fst (filter (\<lambda>(k, v). k \<notin> K) tbl))"
    using assms(1) by (simp add: distinct_map_filter)
  have "length (filter (\<lambda>(k, v). k \<notin> K) tbl) = card (fst ` set (filter (\<lambda>(k, v). k \<notin> K) tbl))"
    using distinct_card[OF d] by simp
  also have "fst ` set (filter (\<lambda>(k, v). k \<notin> K) tbl) = fst ` set tbl - K"
    by (auto simp: image_iff)
  also have "card (fst ` set tbl - K) = card (fst ` set tbl) - card K"
    using assms(2,3) by (simp add: card_Diff_subset)
  also have "card (fst ` set tbl) = length tbl"
    using distinct_card[OF assms(1)] by simp
  finally show ?thesis .
qed

lemma evict_length:
  assumes "distinct (map fst (stickySessionMap m))"
  shows "length (stickySessionMap (evictOldestSessions count m)) =
           length (stickySessionMap m) - nat (min count (int (length (stickySessionMap m))))"
proof -
  let ?tbl = "stickySessionMap m"
  let ?srt = "sortBy (\<lambda>a b. lastAccessedAt (snd a) - lastAccessedAt (snd b)) ?tbl"
  let ?n = "nat (min count (int (length ?tbl)))"
  let ?es = "take ?n ?srt"
  have n: "?n \<le> length ?srt" by simp
  have ds: "distinct (map fst ?srt)" using assms by (simp add: distinct_map_sortBy)
  then have de: "distinct (map fst ?es)" by (simp add: take_map[symmetric] del: take_map)
  have card: "card (fst ` set ?es) = ?n"
    using distinct_card[OF de] n by simp
  have sub: "fst ` set ?es \<subseteq> fst ` set ?tbl"
    using set_take_subset[of ?n ?srt] by auto
  have "stickySessionMap (evictOldestSessions count m) =
          filter (\<lambda>(k, v). k \<notin> fst ` set ?es) ?tbl"
    by (simp add: evictOldestSessions_def Let_def foldl_mapDelete)
  then show ?thesis
    using length_filter_keys[OF assms sub] card by simp
qed

lemma evict_distinct:
  "distinct (map fst (stickySessionMap m)) \<Longrightarrow>
   distinct (map fst (stickySessionMap (evictOldestSessions count m)))"
  by (simp add: evictOldestSessions_def Let_def foldl_mapDelete distinct_map_filter)

lemma maxSessions_evict [simp]: "maxSessions (evictOldestSessions count m) = maxSessions m"
  by (simp add: evictOldestSessions_def Let_def)

lemma createStickySession_ok:
  assumes "tableOk m" "10 \<le> maxSessions m"
  shows "tableOk (createStickySession now sid ty u m)"
proof -
  let ?len = "length (stickySessionMap m)"
  from assms have d: "distinct (map fst (stickySessionMap m))" and le: "int ?len \<le> maxSessions m"
    by (simp_all add: tableOk_def)
  show ?thesis
  proof (cases "int ?len \<ge> maxSessions m")
    case True
    with le have eq: "int ?len = maxSessions m" by simp
    let ?m1 = "evictOldestSessions (maxSessions m div 10) m"
    have "length (stickySessionMap ?m1) = ?len - nat (min (maxSessions m div 10) (int ?len))"
      by (rule evict_length[OF d])
    moreover have "1 \<le> maxSessions m div 10" "maxSessions m div 10 \<le> maxSessions m"
      using assms(2) by simp_all
    ultimately have "int (length (stickySessionMap ?m1)) + 1 \<le> maxSessions m"
      using eq by simp
    moreover have "distinct (map fst (stickySessionMap ?m1))" by (rule evict_distinct[OF d])
    ultimately show ?thesis
      using True
      by (simp add: tableOk_def createStickySession_def Let_def distinct_mapSet length_mapSet)
  next
    case False
    with d show ?thesis
      by (simp add: tableOk_def createStickySession_def Let_def distinct_mapSet length_mapSet)
  qed
qed

lemma maxSessions_simps [simp]:
  "maxSessions (debouncedSave ty m) = maxSessions m"
  "maxSessions (updCred ty i f m) = maxSessions m"
  "maxSessions (createStickySession now sid ty u m) = maxSessions m"
  "maxSessions (updateStickySessionAccess now sid m) = maxSessions m"
  "maxSessions (snd (trySelectFromStickySession now ty model sid m)) = maxSessions m"
  by (simp_all add: debouncedSave_def updCred_def createStickySession_def Let_def
        updateStickySessionAccess_def trySelectFromStickySession_def split: option.splits)

lemma trySelect_tableOk:
  "tableOk m \<Longrightarrow> tableOk (snd (trySelectFromStickySession now ty model sid m))"
  using length_mapDelete_le[of sid "stickySessionMap m"]
  by (auto simp: trySelectFromStickySession_def tableOk_def Let_def distinct_mapDelete
           split: option.splits)

lemma tableOk_touch:
  "tableOk m \<Longrightarrow> tableOk (debouncedSave ty (updCred ty2 i f m))"
  by (simp add: tableOk_def)

lemma selectLRU_tableOk:
  assumes "tableOk m" "10 \<le> maxSessions m"
  shows "tableOk (snd (selectLRU now ty model opts m))"
  using assms(1) createStickySession_ok[OF assms] tableOk_touch
  by (simp add: selectLRU_candidates Let_def)

lemma selectProvider_tableOk:
  assumes "tableOk m" "10 \<le> maxSessions m"
  shows "tableOk (snd (selectProvider now ty model opts m))"
proof -
  let ?r = "trySelectFromStickySession now ty model (the (sessionId opts)) m"
  have t: "tableOk (snd ?r)" by (rule trySelect_tableOk[OF assms(1)])
  have mx: "10 \<le> maxSessions (snd ?r)" using assms(2) by simp
  have l1: "tableOk (snd (selectLRU now ty model opts (snd ?r)))"
    by (rule selectLRU_tableOk[OF t mx])
  have l2: "tableOk (snd (selectLRU now ty model opts m))"
    by (rule selectLRU_tableOk[OF assms])
  have s: "tableOk (updateStickySessionAccess now sid (snd ?r))" for sid
    using t by (simp add: tableOk_def updateStickySessionAccess_def)
  show ?thesis
    using assms(1) l1 l2 s tableOk_touch
    by (cases ?r) (auto simp: selectProvider_def Let_def split: option.splits)
qed

lemma createStickySession_grows:
  assumes "maxSessions m < 10" "int (length (stickySessionMap m)) = maxSessions m"
      and "sid \<notin> fst ` set (stickySessionMap m)"
  shows "int (length (stickySessionMap (createStickySession now sid ty u m))) = maxSessions m + 1"
proof -
  from assms(1,2) have "maxSessions m div 10 = 0" by simp
  then have "stickySessionMap (evictOldestSessions (maxSessions m div 10) m) = stickySessionMap m"
    by (simp add: evictOldestSessions_def Let_def)
  with assms show ?thesis
    by (simp add: createStickySession_def Let_def length_mapSet)
qed

lemma selectProvider_grows:
  assumes "maxSessions m < 10" "int (length (stickySessionMap m)) = maxSessions m"
      and "sticky_enabled m" "sessionId opts = Some sid" "sid \<noteq> []"
      and "sid \<notin> fst ` set (stickySessionMap m)" "\<not> isFromFallback opts"
      and "fst (selectProvider now ty model opts m) \<noteq> None"
  shows "int (length (stickySessionMap (snd (selectProvider now ty model opts m)))) = maxSessions m + 1"
proof -
  from assms(6) have nb: "map_of (stickySessionMap m) sid = None"
    by (simp add: map_of_eq_None_iff)
  then have t: "trySelectFromStickySession now ty model sid m = (None, m)"
    by (simp add: trySelectFromStickySession_def)
  from assms(8) have ty: "ty \<noteq> []" by (auto simp: selectProvider_def)
  have eq: "selectProvider now ty model opts m = selectLRU now ty model opts m"
    by (rule selectProvider_sticky_miss[OF assms(3,4,5) ty t])
  with assms(8) have cs: "candidateEntries m ty model \<noteq> []"
    by (auto simp: selectLRU_candidates split: if_splits)
  show ?thesis
    using cs assms(3,4,5,7) createStickySession_grows[OF assms(1,2,6)]
    by (simp add: eq selectLRU_candidates Let_def truthy_def)
qed

lemma table_updCred [simp]:
  "stickySessionMap (updCred ty i f m) = stickySessionMap m"
  by (simp add: updCred_def)

lemma table_applyMarkOp [simp]:
  "stickySessionMap (applyMarkOp op ty u m) = stickySessionMap m"
  "maxSessions (applyMarkOp op ty u m) = maxSessions m"
  by (cases op; simp add: markProviderUnhealthy_def markProviderUnhealthyImmediately_def
        markProviderHealthy_def resetProviderCounters_def disableProvider_def
        enableProvider_def split: option.splits)+

lemma table_marks [simp]:
  "stickySessionMap (markProviderUnhealthy now ty u msg m) = stickySessionMap m"
  "maxSessions (markProviderUnhealthy now ty u msg m) = maxSessions m"
  "stickySessionMap (markProviderHealthy now ty u reset model m) = stickySessionMap m"
  "maxSessions (markProviderHealthy now ty u reset model m) = maxSessions m"
  "stickySessionMap (resetProviderCounters ty u m) = stickySessionMap m"
  "maxSessions (resetProviderCounters ty u m) = maxSessions m"
  using table_applyMarkOp[of "MarkUnhealthy now msg" ty u m]
        table_applyMarkOp[of "MarkHealthy now reset model" ty u m]
        table_applyMarkOp[of ResetCounters ty u m]
  by simp_all

lemma foldl_invariant:
  "P s \<Longrightarrow> (\<And>s e. P s \<Longrightarrow> P (f s e)) \<Longrightarrow> P (foldl f s es)"
  by (induction es arbitrary: s) auto

lemma healthCheckEntry_table:
  "stickySessionMap (fst (healthCheckEntry now orc e st)) = stickySessionMap (fst st) \<and>
   maxSessions (fst (healthCheckEntry now orc e st)) = maxSessions (fst st)"
  by (cases e; cases st)
     (simp add: healthCheckEntry_def Let_def split: prod.splits checkOutcome.splits option.splits)

lemma performHealthChecks_table:
  "stickySessionMap (fst (performHealthChecks now orc m)) = stickySessionMap m \<and>
   maxSessions (fst (performHealthChecks now orc m)) = maxSessions m"
  unfolding performHealthChecks_def
  by (rule foldl_invariant[where P = "\<lambda>st. stickySessionMap (fst st) = stickySessionMap m \<and>
                                            maxSessions (fst st) = maxSessions m"])
     (simp_all add: healthCheckEntry_table)

lemma maxSessions_selectProvider [simp]:
  "maxSessions (snd (selectProvider now ty model opts m)) = maxSessions m"
proof -
  have l: "maxSessions (snd (selectLRU now ty model opts m')) = maxSessions m'" for m'
    by (simp add: selectLRU_candidates Let_def)
  let ?r = "trySelectFromStickySession now ty model (the (sessionId opts)) m"
  have "maxSessions (snd ?r) = maxSessions m" by simp
  then show ?thesis
    by (cases ?r) (auto simp: selectProvider_def Let_def l split: option.splits)
qed

lemma applyOp_tableOk:
  assumes "tableOk m" "10 \<le> maxSessions m"
  shows "tableOk (applyOp m op) \<and> maxSessions (applyOp m op) = maxSessions m"
proof (cases op)
  case OpInitialize
  with assms show ?thesis by (simp add: initializeProviderStatus_def tableOk_def)
next
  case (OpSelect now ty model opts)
  with selectProvider_tableOk[OF assms] show ?thesis by simp
next
  case (OpMark mop ty u)
  with assms show ?thesis by (simp add: tableOk_def)
next
  case (OpHealthChecks now orc)
  with assms performHealthChecks_table[of now orc m] show ?thesis by (simp add: tableOk_def)
qed

lemma runOps_tableOk:
  assumes "tableOk m" "10 \<le> maxSessions m"
  shows "tableOk (runOps m ops) \<and> maxSessions (runOps m ops) = maxSessions m"
  unfolding runOps_def
  by (rule foldl_invariant[where P = "\<lambda>s. tableOk s \<and> maxSessions s = maxSessions m"])
     (use assms applyOp_tableOk in auto)

lemma newManager_tableOk:
  "0 \<le> maxSessions (newManager pools options) \<Longrightarrow> tableOk (newManager pools options)"
  by (simp add: newManager_def initializeProviderStatus_def tableOk_def)

text \<open>
  C10. With maxSessions at least 10, the sticky session map of a manager never holds more
  than maxSessions entries: the bound holds after every sequence of operations on a newly
  constructed manager, and every selectProvider call preserves it (together with the
  uniqueness of the map's keys). With maxSessions below 10 the bound fails: the eviction
  batch maxSessions div 10 is zero, and a selectProvider call that binds a new session in
  a table of exactly maxSessions entries leaves maxSessions + 1 entries.
\<close>

theorem sticky_table_bound:
  "(10 \<le> maxSessions (newManager pools options) \<longrightarrow>
      int (length (stickySessionMap (runOps (newManager pools options) ops)))
        \<le> maxSessions (newManager pools options)) \<and>
   (10 \<le> maxSessions m \<and> tableOk m \<longrightarrow> tableOk (snd (selectProvider now ty model opts m))) \<and>
   (maxSessions m < 10 \<and> int (length (stickySessionMap m)) = maxSessions m \<and>
    sticky_enabled m \<and> sessionId opts = Some sid \<and> sid \<noteq> [] \<and>
    sid \<notin> fst ` set (stickySessionMap m) \<and> \<not> isFromFallback opts \<and>
    fst (selectProvider now ty model opts m) \<noteq> None \<longrightarrow>
      int (length (stickySessionMap (snd (selectProvider now ty model opts m)))) = maxSessions m + 1)"
proof (intro conjI impI)
  assume a: "10 \<le> maxSessions (newManager pools options)"
  then have "tableOk (newManager pools options)" by (intro newManager_tableOk) simp
  from runOps_tableOk[OF this a, of ops]
  show "int (length (stickySessionMap (runOps (newManager pools options) ops)))
          \<le> maxSessions (newManager pools options)"
    by (simp add: tableOk_def)
next
  assume "10 \<le> maxSessions m \<and> tableOk m"
  then show "tableOk (snd (selectProvider now ty model opts m))"
    by (simp add: selectProvider_tableOk)
next
  assume "maxSessions m < 10 \<and> int (length (stickySessionMap m)) = maxSessions m \<and>
    sticky_enabled m \<and> sessionId opts = Some sid \<and> sid \<noteq> [] \<and>
    sid \<notin> fst ` set (stickySessionMap m) \<and> \<not> isFromFallback opts \<and>
    fst (selectProvider now ty model opts m) \<noteq> None"
  then have "maxSessions m < 10" "int (length (stickySessionMap m)) = maxSessions m"
    "sticky_enabled m" "sessionId opts = Some sid" "sid \<noteq> []"
    "sid \<notin> fst ` set (stickySessionMap m)" "\<not> isFromFallback opts"
    "fst (selectProvider now ty model opts m) \<noteq> None"
    by blast+
  then show "int (length (stickySessionMap (snd (selectProvider now ty model opts m)))) = maxSessions m + 1"
    by (rule selectProvider_grows)
qed

lemma tinyPools_fields [simp]:
  "sticky_enabled tinyPools" "maxSessions tinyPools = 1" "stickySessionMap tinyPools = []"
  "providerStatus tinyPools = [(''claude-kiro-oauth'', [initConfig (freshRaw ''a'')])]"
  by (simp_all add: tinyPools_def newManager_def initializeProviderStatus_def defaultOptions_def)

lemma fullTable_eq:
  "fullTable =
     debouncedSave ''claude-kiro-oauth''
       (updCred ''claude-kiro-oauth'' 0 (touch 0)
          (createStickySession 0 ''S1'' ''claude-kiro-oauth'' (Some ''a'') tinyPools))"
proof -
  have t: "trySelectFromStickySession 0 ''claude-kiro-oauth'' None ''S1'' tinyPools = (None, tinyPools)"
    by (simp add: trySelectFromStickySession_def)
  have c: "candidateEntries tinyPools ''claude-kiro-oauth'' None = [(0, initConfig (freshRaw ''a''))]"
    by (simp add: candidateEntries_def availableAndHealthy_def poolOf_def truthy_def)
  show ?thesis
    unfolding fullTable_def selectProvider_sticky_miss[OF _ _ _ _ t, of "withSession False", simplified]
    by (simp add: selectLRU_candidates c sortBy_def truthy_def Let_def)
qed

lemma fullTable_fields [simp]:
  "sticky_enabled fullTable" "maxSessions fullTable = 1"
  "stickySessionMap fullTable =
     [(''S1'', \<lparr>s_providerType = ''claude-kiro-oauth'', s_providerUuid = Some ''a'', createdAt = 0,
               lastAccessedAt = 0, requestCount = 1\<rparr>)]"
  "poolOf fullTable ''claude-kiro-oauth'' = [touch 0 (initConfig (freshRaw ''a''))]"
  by (simp_all add: fullTable_eq poolOf_updCred)
     (simp_all add: debouncedSave_def updCred_def createStickySession_def mapSet_def poolOf_def)

lemma fullTable_selects:
  "fst (selectProvider 1 ''claude-kiro-oauth'' None withS2 fullTable) \<noteq> None"
proof -
  have t: "trySelectFromStickySession 1 ''claude-kiro-oauth'' None ''S2'' fullTable = (None, fullTable)"
    by (simp add: trySelectFromStickySession_def)
  have c: "candidateEntries fullTable ''claude-kiro-oauth'' None \<noteq> []"
    by (simp add: candidateEntries_def availableAndHealthy_def truthy_def)
  have "selectProvider 1 ''claude-kiro-oauth'' None withS2 fullTable =
        selectLRU 1 ''claude-kiro-oauth'' None withS2 fullTable"
    by (rule selectProvider_sticky_miss[OF _ _ _ _ t]) (simp_all add: withS2_def)
  with c show ?thesis by (simp add: selectLRU_candidates Let_def)
qed

theorem sticky_table_bound_witness:
  "maxSessions fullTable = 1 \<and> length (stickySessionMap fullTable) = 1 \<and>
   int (length (stickySessionMap
          (snd (selectProvider 1 ''claude-kiro-oauth'' None withS2 fullTable)))) = 2 \<and>
   int (length (stickySessionMap
          (runOps (newManager [(''claude-kiro-oauth'', [freshRaw ''a''])] defaultOptions)
             [OpSelect 0 ''claude-kiro-oauth'' None plainSelect]))) \<le> 10000"
proof -
  have len: "length (stickySessionMap fullTable) = 1" by simp
  have keys: "''S2'' \<notin> fst ` set (stickySessionMap fullTable)" by simp
  have mx: "maxSessions (newManager [(''claude-kiro-oauth'', [freshRaw ''a''])] defaultOptions) = 10000"
    by (simp add: newManager_def initializeProviderStatus_def defaultOptions_def)
  from sticky_table_bound
         [of "[(''claude-kiro-oauth'', [freshRaw ''a''])]" defaultOptions
             "[OpSelect 0 ''claude-kiro-oauth'' None plainSelect]" fullTable
             1 "''claude-kiro-oauth''" None withS2 "''S2''"]
       len keys mx fullTable_selects
  show ?thesis by (simp add: withS2_def)
qed

lemma credsAll_cong:
  "providerStatus m' = providerStatus m \<Longrightarrow> credsAll P m' = credsAll P m"
  by (simp add: credsAll_def)

lemma list_all_update:
  "list_all P xs \<Longrightarrow> (\<And>c. P c \<Longrightarrow> P (f c)) \<Longrightarrow> list_all P (xs[i := f (xs ! i)])"
proof -
  assume a: "list_all P xs" "\<And>c. P c \<Longrightarrow> P (f c)"
  show ?thesis
  proof (cases "i < length xs")
    case True
    with a have "P (f (xs ! i))" by (simp add: list_all_length)
    with a(1) show ?thesis
      by (auto simp: list_all_iff dest!: subsetD[OF set_update_subset_insert])
  next
    case False
    then have "xs[i := f (xs ! i)] = xs" by (intro list_update_beyond) simp
    with a(1) show ?thesis by simp
  qed
qed

lemma list_all_mapEntry:
  "list_all Q xs \<Longrightarrow> (\<And>v. Q (k, v) \<Longrightarrow> Q (k, f v)) \<Longrightarrow> list_all Q (mapEntry k f xs)"
  by (induction xs) auto

lemma credsAll_updCred:
  assumes "credsAll P m" "\<And>c. P c \<Longrightarrow> P (f c)"
  shows "credsAll P (updCred ty i f m)"
  using assms(1) unfolding credsAll_def updCred_def
  by (auto intro!: list_all_mapEntry list_all_update assms(2))

lemma credsAll_debouncedSave [simp]: "credsAll P (debouncedSave ty m) = credsAll P m"
  by (rule credsAll_cong) simp

lemma maxErrorCount_simps [simp]:
  "maxErrorCount (debouncedSave ty m) = maxErrorCount m"
  "maxErrorCount (updCred ty i f m) = maxErrorCount m"
  by (simp_all add: debouncedSave_def updCred_def)

lemma maxErrorCount_applyMarkOp [simp]:
  "maxErrorCount (applyMarkOp op ty u m) = maxErrorCount m"
  by (cases op; simp add: markProviderUnhealthy_def markProviderUnhealthyImmediately_def
        markProviderHealthy_def resetProviderCounters_def disableProvider_def
        enableProvider_def split: option.splits)

lemma healthInv_updCred:
  assumes "healthInv m" "\<And>c. credOk (maxErrorCount m) c \<Longrightarrow> credOk (maxErrorCount m) (f c)"
  shows "healthInv (debouncedSave ty (updCred ty' i f m))"
  using assms by (simp add: healthInv_def credsAll_updCred)

lemma healthInv_applyMarkOp:
  assumes "healthInv m" "1 \<le> maxErrorCount m"
  shows "healthInv (applyMarkOp op ty u m)"
proof (cases op)
  case (MarkUnhealthy now msg)
  show ?thesis
    unfolding MarkUnhealthy applyMarkOp.simps markProviderUnhealthy_def
    using assms by (auto split: option.splits intro!: healthInv_updCred simp: credOk_def Let_def)
next
  case (MarkUnhealthyImmediately now msg)
  show ?thesis
    unfolding MarkUnhealthyImmediately applyMarkOp.simps markProviderUnhealthyImmediately_def
    using assms by (auto split: option.splits intro!: healthInv_updCred simp: credOk_def Let_def)
next
  case (MarkHealthy now reset model)
  show ?thesis
    unfolding MarkHealthy applyMarkOp.simps markProviderHealthy_def
    using assms by (auto split: option.splits intro!: healthInv_updCred simp: credOk_def Let_def)
next
  case ResetCounters
  show ?thesis
    unfolding ResetCounters applyMarkOp.simps resetProviderCounters_def
    using assms by (auto split: option.splits intro!: healthInv_updCred simp: credOk_def Let_def)
next
  case Disable
  show ?thesis
    unfolding Disable applyMarkOp.simps disableProvider_def
    using assms by (auto split: option.splits intro!: healthInv_updCred simp: credOk_def Let_def)
next
  case Enable
  show ?thesis
    unfolding Enable applyMarkOp.simps enableProvider_def
    using assms by (auto split: option.splits intro!: healthInv_updCred simp: credOk_def Let_def)
qed

lemma healthInv_marks:
  assumes "healthInv m" "1 \<le> maxErrorCount m"
  shows "healthInv (markProviderUnhealthy now ty u msg m)"
        "healthInv (markProviderHealthy now ty u reset model m)"
        "healthInv (resetProviderCounters ty u m)"
  using healthInv_applyMarkOp[OF assms, of "MarkUnhealthy now msg" ty u]
        healthInv_applyMarkOp[OF assms, of "MarkHealthy now reset model" ty u]
        healthInv_applyMarkOp[OF assms, of ResetCounters ty u]
  by simp_all

lemma maxErrorCount_marks [simp]:
  "maxErrorCount (markProviderUnhealthy now ty u msg m) = maxErrorCount m"
  "maxErrorCount (markProviderHealthy now ty u reset model m) = maxErrorCount m"
  "maxErrorCount (resetProviderCounters ty u m) = maxErrorCount m"
  using maxErrorCount_applyMarkOp[of "MarkUnhealthy now msg" ty u m]
        maxErrorCount_applyMarkOp[of "MarkHealthy now reset model" ty u m]
        maxErrorCount_applyMarkOp[of ResetCounters ty u m]
  by simp_all

lemma healthInv_cong:
  "providerStatus m' = providerStatus m \<Longrightarrow> maxErrorCount m' = maxErrorCount m \<Longrightarrow>
   healthInv m' = healthInv m"
  by (simp add: healthInv_def credsAll_def)

lemma credOk_touch [simp]: "credOk mx (touch now c) = credOk mx c"
  by (simp add: credOk_def touch_def)

lemma maxErrorCount_sticky [simp]:
  "maxErrorCount (createStickySession now sid ty u m) = maxErrorCount m"
  "maxErrorCount (updateStickySessionAccess now sid m) = maxErrorCount m"
  "maxErrorCount (snd (trySelectFromStickySession now ty model sid m)) = maxErrorCount m"
  by (simp_all add: createStickySession_def evictOldestSessions_def Let_def
        updateStickySessionAccess_def trySelectFromStickySession_def split: option.splits)

lemma providerStatus_updateAccess [simp]:
  "providerStatus (updateStickySessionAccess now sid m) = providerStatus m"
  by (simp add: updateStickySessionAccess_def)

lemma healthInv_touch:
  "healthInv m \<Longrightarrow> providerStatus m' = providerStatus m \<Longrightarrow> maxErrorCount m' = maxErrorCount m \<Longrightarrow>
   healthInv (debouncedSave ty (updCred ty' i (touch now) m'))"
  using healthInv_cong[of m' m] by (intro healthInv_updCred) simp_all

lemma selectLRU_healthInv:
  assumes "healthInv m"
  shows "healthInv (snd (selectLRU now ty model opts m)) \<and>
         maxErrorCount (snd (selectLRU now ty model opts m)) = maxErrorCount m"
  using assms healthInv_touch[OF assms, of m] healthInv_touch[OF assms, of "createStickySession now _ _ _ m"]
        healthInv_cong[of "createStickySession now _ _ _ m" m]
  by (simp add: selectLRU_candidates Let_def)

lemma selectProvider_healthInv:
  assumes "healthInv m"
  shows "healthInv (snd (selectProvider now ty model opts m)) \<and>
         maxErrorCount (snd (selectProvider now ty model opts m)) = maxErrorCount m"
proof -
  let ?r = "trySelectFromStickySession now ty model (the (sessionId opts)) m"
  have h: "healthInv (snd ?r)" using assms healthInv_cong[of "snd ?r" m] by simp
  have u: "healthInv (updateStickySessionAccess now sid (snd ?r))" for sid
    using assms healthInv_cong[of "updateStickySessionAccess now sid (snd ?r)" m] by simp
  have t: "healthInv (debouncedSave ty (updCred ty i (touch now) (updateStickySessionAccess now sid (snd ?r))))"
    for sid i
    by (rule healthInv_touch[OF assms]) simp_all
  have mx: "maxErrorCount (snd ?r) = maxErrorCount m" by simp
  show ?thesis
    using assms selectLRU_healthInv[OF assms] selectLRU_healthInv[OF h] u t mx
    by (cases ?r) (auto simp: selectProvider_def Let_def split: option.splits)
qed

lemma healthCheckEntry_healthInv:
  assumes "healthInv (fst st)" "1 \<le> maxErrorCount (fst st)"
  shows "healthInv (fst (healthCheckEntry now orc e st)) \<and>
         maxErrorCount (fst (healthCheckEntry now orc e st)) = maxErrorCount (fst st)"
proof -
  obtain ty i m probes where [simp]: "e = (ty, i)" "st = (m, probes)" by (cases e; cases st) auto
  from assms have m: "healthInv m" "1 \<le> maxErrorCount m" by simp_all
  have upd: "healthInv (updCred ty i f (markProviderUnhealthy now ty u msg m))"
    if "\<And>c. isHealthy (f c) = isHealthy c \<and> errorCount (f c) = errorCount c" for f u msg
  proof -
    have "credsAll (credOk (maxErrorCount m)) (markProviderUnhealthy now ty u msg m)"
      using healthInv_marks(1)[OF m, of now ty u msg] by (simp add: healthInv_def)
    then have "credsAll (credOk (maxErrorCount m)) (updCred ty i f (markProviderUnhealthy now ty u msg m))"
      by (rule credsAll_updCred) (simp add: credOk_def that)
    then show ?thesis by (simp add: healthInv_def)
  qed
  show ?thesis
    using m healthInv_marks[OF m]
    by (auto simp: healthCheckEntry_def Let_def intro!: upd
             split: prod.splits checkOutcome.splits option.splits if_splits)
qed

lemma performHealthChecks_healthInv:
  assumes "healthInv m" "1 \<le> maxErrorCount m"
  shows "healthInv (fst (performHealthChecks now orc m)) \<and>
         maxErrorCount (fst (performHealthChecks now orc m)) = maxErrorCount m"
  unfolding performHealthChecks_def
  by (rule foldl_invariant[where P = "\<lambda>st. healthInv (fst st) \<and> maxErrorCount (fst st) = maxErrorCount m"])
     (use assms healthCheckEntry_healthInv in auto)

lemma initConfig_toRaw_flags [simp]:
  "isHealthy (initConfig (toRaw c)) = isHealthy c"
  "errorCount (initConfig (toRaw c)) = errorCount c"
  by (simp_all add: initConfig_def toRaw_def)

lemma reinitialize_healthInv:
  assumes "healthInv m"
  shows "healthInv (initializeProviderStatus (livePools m) m)"
  using assms
  by (fastforce simp: healthInv_def credsAll_def initializeProviderStatus_def livePools_def
        list_all_iff credOk_def)

lemma applyOp_healthInv:
  assumes "healthInv m" "1 \<le> maxErrorCount m"
  shows "healthInv (applyOp m op) \<and> maxErrorCount (applyOp m op) = maxErrorCount m"
proof (cases op)
  case OpInitialize
  with reinitialize_healthInv[OF assms(1)] show ?thesis by (simp add: initializeProviderStatus_def)
next
  case (OpSelect now ty model opts)
  with selectProvider_healthInv[OF assms(1)] show ?thesis by simp
next
  case (OpMark mop ty u)
  with healthInv_applyMarkOp[OF assms] show ?thesis by simp
next
  case (OpHealthChecks now orc)
  with performHealthChecks_healthInv[OF assms] show ?thesis by simp
qed

lemma newManager_healthInv:
  assumes "list_all (\<lambda>(ty, cfgs). list_all (rawOk (maxErrorCount (newManager pools options))) cfgs) pools"
  shows "healthInv (newManager pools options)"
proof -
  have mx: "maxErrorCount (newManager pools options) =
              (case o_maxErrorCount options of None \<Rightarrow> 3 | Some n \<Rightarrow> n)"
    by (simp add: newManager_def initializeProviderStatus_def)
  have "rawOk mx r \<Longrightarrow> credOk mx (initConfig r)" for mx r
    by (auto simp: rawOk_def credOk_def initConfig_def split: option.splits)
  with assms show ?thesis
    unfolding healthInv_def credsAll_def
    by (auto simp: newManager_def initializeProviderStatus_def list_all_iff)
qed

text \<open>
  C2 (amended). If maxErrorCount is at least 1, then errorCount >= maxErrorCount implies
  isHealthy = false for every credential after every sequence of initializeProviderStatus,
  selectProvider, the six marking operations and performHealthChecks, provided it holds
  before the sequence; it holds for a newly constructed manager when every configuration
  of the pool file that carries an errorCount at or above maxErrorCount also carries
  isHealthy = false (in particular when no configuration carries an errorCount).
\<close>

theorem health_invariant:
  "(1 \<le> maxErrorCount m \<and> healthInv m \<longrightarrow> healthInv (runOps m ops)) \<and>
   (1 \<le> maxErrorCount (newManager pools options) \<and>
    list_all (\<lambda>(ty, cfgs). list_all (rawOk (maxErrorCount (newManager pools options))) cfgs) pools
      \<longrightarrow> healthInv (runOps (newManager pools options) ops))"
proof -
  have run: "healthInv (runOps m' ops)" if "1 \<le> maxErrorCount m'" "healthInv m'" for m'
  proof -
    have "healthInv (foldl applyOp m' ops) \<and> maxErrorCount (foldl applyOp m' ops) = maxErrorCount m'"
      by (rule foldl_invariant[where P = "\<lambda>s. healthInv s \<and> maxErrorCount s = maxErrorCount m'"])
         (use that applyOp_healthInv in auto)
    then show ?thesis by (simp add: runOps_def)
  qed
  show ?thesis
    using run[of m] run[of "newManager pools options"] newManager_healthInv[of pools options]
    by blast
qed

theorem health_invariant_counterexample:
  "maxErrorCount staleErrors = 3 \<and>
   map errorCount (poolOf staleErrors ''claude-kiro-oauth'') = [3] \<and>
   map isHealthy (poolOf staleErrors ''claude-kiro-oauth'') = [True] \<and>
   \<not> healthInv staleErrors \<and>
   maxErrorCount zeroThreshold = 0 \<and>
   map errorCount (poolOf zeroThreshold ''claude-kiro-oauth'') = [0] \<and>
   map isHealthy (poolOf zeroThreshold ''claude-kiro-oauth'') = [True] \<and>
   \<not> healthInv zeroThreshold"
  by (simp add: staleErrors_def zeroThreshold_def newManager_def initializeProviderStatus_def
        defaultOptions_def poolOf_def healthInv_def credsAll_def credOk_def initConfig_def
        freshRaw_def emptyRaw_def)

theorem health_invariant_witness:
  "maxErrorCount twoKiro = 3 \<and> healthInv twoKiro \<and>
   healthInv (runOps twoKiro
     [OpMark (MarkUnhealthy 1000 (Some ''boom'')) ''claude-kiro-oauth'' (Some ''a''),
      OpMark (MarkUnhealthy 2000 None) ''claude-kiro-oauth'' (Some ''a''),
      OpMark (MarkUnhealthy 3000 None) ''claude-kiro-oauth'' (Some ''a''),
      OpSelect 4000 ''claude-kiro-oauth'' None plainSelect,
      OpHealthChecks 200000 deadUpstream,
      OpInitialize])"
proof -
  have h: "healthInv twoKiro"
    by (simp add: healthInv_def credsAll_def credOk_def twoKiro_status)
  from h health_invariant [of twoKiro _ "[]" defaultOptions] show ?thesis
    by simp
qed

lemma config_selectLRU [simp]:
  "modelFallbackMapping (snd (selectLRU now ty model opts m)) = modelFallbackMapping m"
  "fallbackChain (snd (selectLRU now ty model opts m)) = fallbackChain m"
  by (simp_all add: selectLRU_candidates Let_def createStickySession_def evictOldestSessions_def
        debouncedSave_def updCred_def)

lemma config_trySelect [simp]:
  "modelFallbackMapping (snd (trySelectFromStickySession now ty model sid m)) = modelFallbackMapping m"
  "fallbackChain (snd (trySelectFromStickySession now ty model sid m)) = fallbackChain m"
  by (simp_all add: trySelectFromStickySession_def Let_def split: option.splits)

lemma config_selectProvider:
  "modelFallbackMapping (snd (selectProvider now ty model opts m)) = modelFallbackMapping m \<and>
   fallbackChain (snd (selectProvider now ty model opts m)) = fallbackChain m"
proof -
  let ?r = "trySelectFromStickySession now ty model (the (sessionId opts)) m"
  have "modelFallbackMapping (snd ?r) = modelFallbackMapping m" "fallbackChain (snd ?r) = fallbackChain m"
    by simp_all
  then show ?thesis
    by (cases ?r)
       (auto simp: selectProvider_def Let_def debouncedSave_def updCred_def
          updateStickySessionAccess_def split: option.splits)
qed

lemma tryChain_result:
  "tryChain gpp gpm now providerType requestedModel opts types tried m = (Some r, m') \<Longrightarrow>
     actualModel r = None \<and> actualProviderType r \<in> set types \<and>
     isFallback r = (actualProviderType r \<noteq> providerType) \<and>
     (isFallback r \<and> truthy requestedModel \<longrightarrow> gpp providerType = gpp (actualProviderType r)) \<and>
     modelFallbackMapping m' = modelFallbackMapping m \<and> fallbackChain m' = fallbackChain m"
proof (induction gpp gpm now providerType requestedModel opts types tried m rule: tryChain.induct)
  case (1 gpp gpm now providerType requestedModel opts triedTypes m)
  then show ?case by simp
next
  case (2 gpp gpm now providerType requestedModel opts currentType rest triedTypes m)
  let ?sel = "selectProvider now currentType requestedModel
                (opts\<lparr>isFromFallback := (currentType \<noteq> providerType)\<rparr>) m"
  note cfg = config_selectProvider[of now currentType requestedModel
                "opts\<lparr>isFromFallback := (currentType \<noteq> providerType)\<rparr>" m]
  show ?case
  proof (cases "currentType \<in> set triedTypes")
    case True
    with "2.prems" have
      "tryChain gpp gpm now providerType requestedModel opts rest triedTypes m = (Some r, m')"
      by simp
    from "2.IH"(1)[OF True this] show ?thesis by simp
  next
    case nt: False
    show ?thesis
    proof (cases "poolOf m currentType = []")
      case True
      with nt "2.prems" have
        "tryChain gpp gpm now providerType requestedModel opts rest (currentType # triedTypes) m
           = (Some r, m')" by simp
      from "2.IH"(2)[OF nt True this] show ?thesis by simp
    next
      case ne: False
      show ?thesis
      proof (cases "currentType \<noteq> providerType \<and> truthy requestedModel \<and>
              (gpp providerType \<noteq> gpp currentType \<or>
               (gpm currentType \<noteq> [] \<and> the requestedModel \<notin> set (gpm currentType)))")
        case True
        with nt ne "2.prems" have
          "tryChain gpp gpm now providerType requestedModel opts rest (currentType # triedTypes) m
             = (Some r, m')" by simp
        from "2.IH"(3)[OF nt ne True this] show ?thesis by simp
      next
        case ok: False
        have unf: "tryChain gpp gpm now providerType requestedModel opts (currentType # rest) triedTypes m =
              (case ?sel of
                 (Some selectedConfig, m') \<Rightarrow>
                   (Some \<lparr>config = selectedConfig, actualProviderType = currentType,
                          isFallback = (currentType \<noteq> providerType), actualModel = None\<rparr>, m')
               | (None, m') \<Rightarrow>
                   tryChain gpp gpm now providerType requestedModel opts rest
                     (currentType # triedTypes) m')"
          by (simp only: tryChain.simps nt ne ok if_False)
        show ?thesis
        proof (cases ?sel)
          case (Pair res m1)
          show ?thesis
          proof (cases res)
            case None
            with Pair "2.prems" have
              "tryChain gpp gpm now providerType requestedModel opts rest (currentType # triedTypes) m1
                 = (Some r, m')" by (simp add: unf del: tryChain.simps)
            from "2.IH"(4)[OF nt ne ok Pair[symmetric, unfolded None] refl this] Pair None cfg
            show ?thesis by simp
          next
            case (Some c)
            with Pair "2.prems" have
              "r = \<lparr>config = c, actualProviderType = currentType,
                     isFallback = (currentType \<noteq> providerType), actualModel = None\<rparr>" "m' = m1"
              by (auto simp add: unf simp del: tryChain.simps)
            with ok cfg Pair show ?thesis by auto
          qed
        qed
      qed
    qed
  qed
qed

lemma tryTargetChain_result:
  "tryTargetChain gpp gpm now target tModel opts types m = (Some r, m') \<Longrightarrow>
     isFallback r \<and> actualModel r = Some tModel \<and> actualProviderType r \<in> set types \<and>
     gpp target = gpp (actualProviderType r)"
proof (induction gpp gpm now target tModel opts types m rule: tryTargetChain.induct)
  case (1 gpp gpm now target tModel opts m)
  then show ?case by simp
next
  case (2 gpp gpm now target tModel opts fallbackType rest m)
  let ?sel = "selectProvider now fallbackType (Some tModel) (opts\<lparr>isFromFallback := True\<rparr>) m"
  show ?case
  proof (cases "gpp target \<noteq> gpp fallbackType")
    case True
    with "2.prems" have "tryTargetChain gpp gpm now target tModel opts rest m = (Some r, m')"
      by simp
    from "2.IH"(1)[OF True this] show ?thesis by simp
  next
    case same: False
    show ?thesis
    proof (cases "gpm fallbackType \<noteq> [] \<and> tModel \<notin> set (gpm fallbackType)")
      case True
      with same "2.prems" have "tryTargetChain gpp gpm now target tModel opts rest m = (Some r, m')"
        by simp
      from "2.IH"(2)[OF same True this] show ?thesis by simp
    next
      case ok: False
      have unf: "tryTargetChain gpp gpm now target tModel opts (fallbackType # rest) m =
            (case ?sel of
               (Some fallbackSelectedConfig, m') \<Rightarrow>
                 (Some \<lparr>config = fallbackSelectedConfig, actualProviderType = fallbackType,
                        isFallback = True, actualModel = Some tModel\<rparr>, m')
             | (None, m') \<Rightarrow> tryTargetChain gpp gpm now target tModel opts rest m')"
        by (simp only: tryTargetChain.simps same ok if_False)
      show ?thesis
      proof (cases ?sel)
        case (Pair res m1)
        show ?thesis
        proof (cases res)
          case None
          with Pair "2.prems" have
            "tryTargetChain gpp gpm now target tModel opts rest m1 = (Some r, m')"
            by (simp add: unf del: tryTargetChain.simps)
          from "2.IH"(3)[OF same ok Pair[symmetric, unfolded None] refl this] show ?thesis by simp
        next
          case (Some c)
          with Pair "2.prems" have
            "r = \<lparr>config = c, actualProviderType = fallbackType,
                   isFallback = True, actualModel = Some tModel\<rparr>"
            by (auto simp add: unf simp del: tryTargetChain.simps)
          with same show ?thesis by simp
        qed
      qed
    qed
  qed
qed

lemma chainOf_selectProvider [simp]:
  "chainOf (snd (selectProvider now ty model opts m)) = chainOf m"
  by (rule ext) (simp add: chainOf_def config_selectProvider)

lemma tryModelMapping_result:
  assumes "tryModelMapping gpp gpm now requestedModel opts m = (Some r, m')"
  shows "truthy requestedModel \<and>
         (\<exists>mapping. map_of (modelFallbackMapping m) (the requestedModel) = Some mapping \<and>
            truthy (targetProviderType mapping) \<and> truthy (targetModel mapping) \<and>
            isFallback r \<and> actualModel r = targetModel mapping \<and>
            (actualProviderType r = the (targetProviderType mapping) \<or>
             (actualProviderType r \<in> set (chainOf m (the (targetProviderType mapping))) \<and>
              gpp (actualProviderType r) = gpp (the (targetProviderType mapping)))))"
proof -
  from assms have tr: "truthy requestedModel"
    by (auto simp: tryModelMapping_def split: if_splits)
  with assms obtain mapping where
    mp: "map_of (modelFallbackMapping m) (the requestedModel) = Some mapping"
    by (auto simp: tryModelMapping_def split: option.splits)
  with assms tr have tt: "truthy (targetProviderType mapping)" "truthy (targetModel mapping)"
    by (auto simp: tryModelMapping_def split: if_splits)
  let ?target = "the (targetProviderType mapping)"
  let ?tModel = "the (targetModel mapping)"
  let ?sel = "selectProvider now ?target (Some ?tModel) (opts\<lparr>isFromFallback := True\<rparr>) m"
  from tt have tm: "targetModel mapping = Some ?tModel" by (auto simp: truthy_def split: option.splits)
  from assms tr mp tt have ne: "poolOf m ?target \<noteq> []"
    by (auto simp: tryModelMapping_def Let_def split: if_splits)
  have unf: "tryModelMapping gpp gpm now requestedModel opts m =
      (case ?sel of
         (Some selectedConfig, m') \<Rightarrow>
           (Some \<lparr>config = selectedConfig, actualProviderType = ?target,
                  isFallback = True, actualModel = Some ?tModel\<rparr>, m')
       | (None, m') \<Rightarrow> tryTargetChain gpp gpm now ?target ?tModel opts (chainOf m' ?target) m')"
    using tr mp tt ne by (simp add: tryModelMapping_def Let_def)
  have "isFallback r \<and> actualModel r = Some ?tModel \<and>
        (actualProviderType r = ?target \<or>
         (actualProviderType r \<in> set (chainOf m ?target) \<and> gpp (actualProviderType r) = gpp ?target))"
  proof (cases ?sel)
    case (Pair res m1)
    show ?thesis
    proof (cases res)
      case None
      with Pair assms have
        "tryTargetChain gpp gpm now ?target ?tModel opts (chainOf m1 ?target) m1 = (Some r, m')"
        by (simp add: unf)
      moreover have "chainOf m1 = chainOf m"
        using chainOf_selectProvider[of now ?target "Some ?tModel" "opts\<lparr>isFromFallback := True\<rparr>" m]
        by (simp add: Pair)
      ultimately show ?thesis using tryTargetChain_result[of gpp gpm now ?target ?tModel opts _ m1 r m']
        by simp
    next
      case (Some c)
      with Pair assms show ?thesis by (auto simp: unf)
    qed
  qed
  with tr mp tt tm show ?thesis by auto
qed

text \<open>
  C7 (amended). Whenever selectProviderWithFallback returns a result with isFallback:true,
  one of these holds. (a) The result comes from the fallback chain of the requested type:
  actualProviderType is a member of that chain other than the requested type, no
  actualModel is set, and, if a requested model was given, actualProviderType has the same
  protocol prefix as the requested type. (b) The result originates from the
  modelFallbackMapping entry of the requested model: actualModel is the entry's target
  model and actualProviderType is the entry's target type or a member of the target's
  fallback chain with the target's protocol prefix. Without a requested model no prefix
  test is made.
\<close>

theorem fallback_origin:
  assumes "selectProviderWithFallback gpp gpm now providerType requestedModel opts m = (Some r, m')"
      and "isFallback r"
  shows "(actualProviderType r \<in> set (chainOf m providerType) \<and>
          actualProviderType r \<noteq> providerType \<and> actualModel r = None \<and>
          (truthy requestedModel \<longrightarrow> gpp (actualProviderType r) = gpp providerType)) \<or>
         (truthy requestedModel \<and>
          (\<exists>mapping. map_of (modelFallbackMapping m) (the requestedModel) = Some mapping \<and>
             truthy (targetProviderType mapping) \<and> actualModel r = targetModel mapping \<and>
             (actualProviderType r = the (targetProviderType mapping) \<or>
              (actualProviderType r \<in> set (chainOf m (the (targetProviderType mapping))) \<and>
               gpp (actualProviderType r) = gpp (the (targetProviderType mapping))))))"
proof -
  let ?t1 = "tryChain gpp gpm now providerType requestedModel opts
               (providerType # chainOf m providerType) [] m"
  from assms(1) have ty: "providerType \<noteq> []"
    by (auto simp: selectProviderWithFallback_def split: if_splits)
  obtain res m1 where t1: "?t1 = (res, m1)" by (cases ?t1)
  show ?thesis
  proof (cases res)
    case (Some r1)
    with t1 assms(1) ty have "?t1 = (Some r, m')"
      by (simp add: selectProviderWithFallback_def del: tryChain.simps)
    from tryChain_result[OF this] assms(2) show ?thesis by auto
  next
    case None
    with t1 assms(1) ty have tm: "tryModelMapping gpp gpm now requestedModel opts m1 = (Some r, m')"
      by (simp add: selectProviderWithFallback_def del: tryChain.simps)
    have cfg: "modelFallbackMapping m1 = modelFallbackMapping m" "chainOf m1 = chainOf m"
    proof -
      have "tryChain gpp gpm now providerType requestedModel opts types tried m0 = (None, m2) \<Longrightarrow>
            modelFallbackMapping m2 = modelFallbackMapping m0 \<and> fallbackChain m2 = fallbackChain m0"
        for types tried m0 m2
      proof (induction gpp gpm now providerType requestedModel opts types tried m0
               rule: tryChain.induct)
        case (1 gpp gpm now providerType requestedModel opts triedTypes m)
        then show ?case by simp
      next
        case (2 gpp gpm now providerType requestedModel opts currentType rest triedTypes m)
        note cfg = config_selectProvider[of now currentType requestedModel
                "opts\<lparr>isFromFallback := (currentType \<noteq> providerType)\<rparr>" m]
        from "2.prems" "2.IH" cfg show ?case
          by (auto split: if_splits prod.splits option.splits)
      qed
      from this[OF t1[unfolded None]] show "modelFallbackMapping m1 = modelFallbackMapping m"
        "chainOf m1 = chainOf m"
        by (auto simp: chainOf_def fun_eq_iff)
    qed
    from tryModelMapping_result[OF tm] cfg show ?thesis by auto
  qed
qed

lemma plainSelect_fields [simp]:
  "sessionId plainSelect = None" "\<not> skipUsageCount plainSelect" "\<not> isFromFallback plainSelect"
  by (simp_all add: plainSelect_def)

lemma selectProvider_no_sticky:
  "\<not> sticky_enabled m \<Longrightarrow> ty \<noteq> [] \<Longrightarrow>
   selectProvider now ty model opts m = selectLRU now ty model opts m"
  by (simp add: selectProvider_def)

lemma crossChain_fields [simp]:
  "\<not> sticky_enabled crossChain" "modelFallbackMapping crossChain = []"
  "chainOf crossChain ''claude-kiro-oauth'' = [''openai-custom'']"
  "poolOf crossChain ''claude-kiro-oauth'' = [initConfig ((freshRaw ''a'')\<lparr>r_isHealthy := Some False\<rparr>)]"
  "poolOf crossChain ''openai-custom'' = [initConfig (freshRaw ''o'')]"
  by (simp_all add: crossChain_def newManager_def initializeProviderStatus_def defaultOptions_def
        chainOf_def poolOf_def)

lemma unhealthy_raw [simp]:
  "\<not> isHealthy (initConfig ((freshRaw u)\<lparr>r_isHealthy := Some False\<rparr>))"
  by (simp add: initConfig_def freshRaw_def emptyRaw_def)

lemma crossChain_primary:
  "selectProvider 1000 ''claude-kiro-oauth'' None (plainSelect\<lparr>isFromFallback := False\<rparr>) crossChain
     = (None, crossChain)"
  by (simp add: selectProvider_no_sticky selectLRU_candidates candidateEntries_def
        availableAndHealthy_def truthy_def)

lemma crossChain_secondary:
  "fst (selectProvider 1000 ''openai-custom'' None (plainSelect\<lparr>isFromFallback := True\<rparr>) crossChain)
     = Some (touch 1000 (initConfig (freshRaw ''o'')))"
  by (simp add: selectProvider_no_sticky selectLRU_candidates candidateEntries_def
        availableAndHealthy_def truthy_def sortBy_def Let_def poolOf_updCred)

theorem fallback_origin_counterexample:
  "fst (selectProviderWithFallback protocolPrefix noModels 1000 ''claude-kiro-oauth'' None
          plainSelect crossChain) =
     Some \<lparr>config = touch 1000 (initConfig (freshRaw ''o'')), actualProviderType = ''openai-custom'',
           isFallback = True, actualModel = None\<rparr> \<and>
   protocolPrefix ''openai-custom'' = ''openai'' \<and>
   protocolPrefix ''claude-kiro-oauth'' = ''claude'' \<and>
   modelFallbackMapping crossChain = []"
proof -
  let ?sel = "selectProvider 1000 ''openai-custom'' None (plainSelect\<lparr>isFromFallback := True\<rparr>) crossChain"
  have "tryChain protocolPrefix noModels 1000 ''claude-kiro-oauth'' None plainSelect
          [''claude-kiro-oauth'', ''openai-custom''] [] crossChain =
        (Some \<lparr>config = touch 1000 (initConfig (freshRaw ''o'')), actualProviderType = ''openai-custom'',
           isFallback = True, actualModel = None\<rparr>, snd ?sel)"
    using crossChain_secondary
    by (cases ?sel) (simp add: crossChain_primary truthy_def)
  then show ?thesis
    by (simp add: selectProviderWithFallback_def protocolPrefix_def del: tryChain.simps)
qed

lemma sameChain_fields [simp]:
  "\<not> sticky_enabled sameChain" "modelFallbackMapping sameChain = []"
  "chainOf sameChain ''claude-kiro-oauth'' = [''claude-custom'']"
  "poolOf sameChain ''claude-kiro-oauth'' = [initConfig ((freshRaw ''a'')\<lparr>r_isHealthy := Some False\<rparr>)]"
  "poolOf sameChain ''claude-custom'' = [initConfig (freshRaw ''c'')]"
  by (simp_all add: sameChain_def newManager_def initializeProviderStatus_def defaultOptions_def
        chainOf_def poolOf_def)

lemma sameChain_primary:
  "selectProvider 1000 ''claude-kiro-oauth'' (Some ''claude-haiku-4-5'')
     (plainSelect\<lparr>isFromFallback := False\<rparr>) sameChain = (None, sameChain)"
  by (simp add: selectProvider_no_sticky selectLRU_candidates candidateEntries_def
        availableAndHealthy_def truthy_def)

lemma sameChain_secondary:
  "fst (selectProvider 1000 ''claude-custom'' (Some ''claude-haiku-4-5'')
     (plainSelect\<lparr>isFromFallback := True\<rparr>) sameChain)
     = Some (touch 1000 (initConfig (freshRaw ''c'')))"
  by (simp add: selectProvider_no_sticky selectLRU_candidates candidateEntries_def
        availableAndHealthy_def truthy_def sortBy_def Let_def poolOf_updCred supportsModel_def)

theorem fallback_origin_witness:
  "fst (selectProviderWithFallback protocolPrefix noModels 1000 ''claude-kiro-oauth''
          (Some ''claude-haiku-4-5'') plainSelect sameChain) =
     Some \<lparr>config = touch 1000 (initConfig (freshRaw ''c'')), actualProviderType = ''claude-custom'',
           isFallback = True, actualModel = None\<rparr> \<and>
   protocolPrefix ''claude-custom'' = protocolPrefix ''claude-kiro-oauth''"
proof -
  let ?sel = "selectProvider 1000 ''claude-custom'' (Some ''claude-haiku-4-5'')
                (plainSelect\<lparr>isFromFallback := True\<rparr>) sameChain"
  let ?R = "\<lparr>config = touch 1000 (initConfig (freshRaw ''c'')), actualProviderType = ''claude-custom'',
           isFallback = True, actualModel = None\<rparr>"
  have "tryChain protocolPrefix noModels 1000 ''claude-kiro-oauth'' (Some ''claude-haiku-4-5'') plainSelect
          [''claude-kiro-oauth'', ''claude-custom''] [] sameChain = (Some ?R, snd ?sel)"
    using sameChain_secondary
    by (cases ?sel) (simp add: sameChain_primary truthy_def protocolPrefix_def noModels_def)
  then have eq: "selectProviderWithFallback protocolPrefix noModels 1000 ''claude-kiro-oauth''
          (Some ''claude-haiku-4-5'') plainSelect sameChain = (Some ?R, snd ?sel)"
    by (simp add: selectProviderWithFallback_def del: tryChain.simps)
  from fallback_origin[OF eq] eq show ?thesis
    by (simp add: truthy_def)
qed

lemma markCredentialUnhealthy_refreshCount:
  "markCredentialUnhealthy svc now reason e pm = (e', evs, pm') \<Longrightarrow> refreshCount evs = 0"
  by (auto simp: markCredentialUnhealthy_def refreshCount_def split: option.splits if_splits)

lemma callApi_Response:
  "post up n = Response \<Longrightarrow> callApi svc up now n isRetry retryCount pm = (Returned, [EvPost n], pm)"
  by (simp add: callApi.simps[of svc up now n])

lemma callApi_401_refreshed:
  "post up n = Failed e \<Longrightarrow> status e = Some 401 \<Longrightarrow> refreshToken up n = None \<Longrightarrow>
   callApi svc up now n False retryCount pm =
     (case callApi svc up now (Suc n) True retryCount pm of
        (out, evs, pm') \<Rightarrow> (out, EvPost n # EvRefresh # evs, pm'))"
  by (simp add: callApi.simps[of svc up now n])

lemma callApi_401_refresh_failed:
  "post up n = Failed e \<Longrightarrow> status e = Some 401 \<Longrightarrow> refreshToken up n = Some refreshError \<Longrightarrow>
   callApi svc up now n False retryCount pm =
     (case markCredentialUnhealthy svc now ''401 Unauthorized - Token refresh failed''
             refreshError pm of
        (e', evs, pm') \<Rightarrow> (Thrown e', EvPost n # EvRefresh # evs, pm'))"
  by (simp add: callApi.simps[of svc up now n])

lemma callApi_403:
  "post up n = Failed e \<Longrightarrow> status e = Some 403 \<Longrightarrow>
   callApi svc up now n isRetry retryCount pm =
     (case markCredentialUnhealthy svc now ''403 Forbidden'' e pm of
        (e', evs, pm') \<Rightarrow> (Thrown e', EvPost n # evs, pm'))"
  by (simp add: callApi.simps[of svc up now n])

lemma callApi_retry:
  "post up n = Failed e \<Longrightarrow> status e = Some 401 \<longrightarrow> isRetry \<Longrightarrow> status e \<noteq> Some 403 \<Longrightarrow>
   transient e \<Longrightarrow> retryCount < maxRetriesOf svc \<Longrightarrow>
   callApi svc up now n isRetry retryCount pm =
     (case callApi svc up now (Suc n) isRetry (Suc retryCount) pm of
        (out, evs, pm') \<Rightarrow>
          (out, EvPost n # EvSleep (baseDelayOf svc * 2 ^ retryCount) # evs, pm'))"
  by (auto simp: callApi.simps[of svc up now n] transient_def)

lemma callApi_give_up:
  "post up n = Failed e \<Longrightarrow> status e = Some 401 \<longrightarrow> isRetry \<Longrightarrow> status e \<noteq> Some 403 \<Longrightarrow>
   \<not> (transient e \<and> retryCount < maxRetriesOf svc) \<Longrightarrow>
   callApi svc up now n isRetry retryCount pm = (Thrown e, [EvPost n], pm)"
  by (auto simp: callApi.simps[of svc up now n] transient_def)

lemma refreshCount_simps [simp]:
  "refreshCount [] = 0" "refreshCount (EvRefresh # evs) = Suc (refreshCount evs)"
  "refreshCount (EvPost k # evs) = refreshCount evs"
  "refreshCount (EvSleep d # evs) = refreshCount evs"
  "refreshCount (EvMarkUnhealthyImmediately r # evs) = refreshCount evs"
  by (simp_all add: refreshCount_def)

lemma callApi_refreshCount:
  "refreshCount (fst (snd (callApi svc up now n isRetry retryCount pm))) \<le> (if isRetry then 0 else 1)"
proof (induction "(if isRetry then 0 else 1) + (maxRetriesOf svc - retryCount)"
         arbitrary: n isRetry retryCount rule: less_induct)
  case less
  show ?case
  proof (cases "post up n")
    case Response
    then show ?thesis by (simp add: callApi_Response)
  next
    case (Failed e)
    consider (refreshed) "status e = Some 401" "\<not> isRetry" "refreshToken up n = None"
      | (refreshFailed) re where "status e = Some 401" "\<not> isRetry" "refreshToken up n = Some re"
      | (forbidden) "status e = Some 403"
      | (retry) "status e = Some 401 \<longrightarrow> isRetry" "status e \<noteq> Some 403" "transient e"
                "retryCount < maxRetriesOf svc"
      | (giveUp) "status e = Some 401 \<longrightarrow> isRetry" "status e \<noteq> Some 403"
                "\<not> (transient e \<and> retryCount < maxRetriesOf svc)"
      by (cases "refreshToken up n") auto
    then show ?thesis
    proof cases
      case refreshed
      have "refreshCount (fst (snd (callApi svc up now (Suc n) True retryCount pm))) \<le> 0"
        using less[of True retryCount "Suc n"] refreshed by simp
      with refreshed Failed show ?thesis
        by (auto simp: callApi_401_refreshed split: prod.splits)
    next
      case refreshFailed
      with Failed show ?thesis
        using markCredentialUnhealthy_refreshCount[of svc now _ re pm]
        by (auto simp: callApi_401_refresh_failed split: prod.splits)
    next
      case forbidden
      with Failed show ?thesis
        using markCredentialUnhealthy_refreshCount[of svc now _ e pm]
        by (auto simp: callApi_403 split: prod.splits)
    next
      case retry
      have "refreshCount (fst (snd (callApi svc up now (Suc n) isRetry (Suc retryCount) pm)))
              \<le> (if isRetry then 0 else 1)"
        using less[of isRetry "Suc retryCount" "Suc n"] retry by simp
      with retry Failed show ?thesis
        by (auto simp: callApi_retry split: prod.splits)
    next
      case giveUp
      with Failed show ?thesis by (simp add: callApi_give_up)
    qed
  qed
qed

text \<open>
  C5 (amended). In callApi: a 401 on a call that has not yet refreshed triggers one forced
  token refresh and, if it succeeds, one retry of the request; no call refreshes more than
  once. If the refresh fails, the refresh error is thrown to the caller in every case, and
  markProviderUnhealthyImmediately is invoked on the credential first when a pool manager
  and a uuid are at hand. A 403 is thrown to the caller in every case, with no retry and
  no refresh, and markProviderUnhealthyImmediately is invoked first under the same
  proviso. A 401 on the request retried after the refresh is thrown to the caller unless
  it counts as a transient error with retries left; callApi does not mark the credential
  for it.
\<close>

theorem callApi_auth_errors:
  assumes "post up n = Failed e"
  shows
    "(status e = Some 401 \<and> refreshToken up n = None \<longrightarrow>
        callApi svc up now n False retryCount pm =
          (case callApi svc up now (Suc n) True retryCount pm of
             (out, evs, pm') \<Rightarrow> (out, EvPost n # EvRefresh # evs, pm'))) \<and>
     refreshCount (fst (snd (callApi svc up now n False retryCount pm))) \<le> 1 \<and>
     refreshCount (fst (snd (callApi svc up now n True retryCount pm))) = 0 \<and>
     (status e = Some 401 \<and> refreshToken up n = Some refreshError \<longrightarrow>
        callApi svc up now n False retryCount pm =
          (if pm \<noteq> None \<and> truthy (k_uuid svc)
           then (Thrown (refreshError\<lparr>credentialMarkedUnhealthy := True\<rparr>),
                 [EvPost n, EvRefresh,
                  EvMarkUnhealthyImmediately ''401 Unauthorized - Token refresh failed''],
                 Some (markProviderUnhealthyImmediately now KIRO_API (k_uuid svc)
                         (Some ''401 Unauthorized - Token refresh failed'') (the pm)))
           else (Thrown refreshError, [EvPost n, EvRefresh], pm))) \<and>
     (status e = Some 403 \<longrightarrow>
        callApi svc up now n isRetry retryCount pm =
          (if pm \<noteq> None \<and> truthy (k_uuid svc)
           then (Thrown (e\<lparr>credentialMarkedUnhealthy := True\<rparr>),
                 [EvPost n, EvMarkUnhealthyImmediately ''403 Forbidden''],
                 Some (markProviderUnhealthyImmediately now KIRO_API (k_uuid svc)
                         (Some ''403 Forbidden'') (the pm)))
           else (Thrown e, [EvPost n], pm))) \<and>
     (status e = Some 401 \<and> \<not> (isNetworkError e \<and> retryCount < maxRetriesOf svc) \<longrightarrow>
        callApi svc up now n True retryCount pm = (Thrown e, [EvPost n], pm))"
proof (intro conjI impI)
  assume "status e = Some 401 \<and> refreshToken up n = None"
  with assms show "callApi svc up now n False retryCount pm =
          (case callApi svc up now (Suc n) True retryCount pm of
             (out, evs, pm') \<Rightarrow> (out, EvPost n # EvRefresh # evs, pm'))"
    by (simp add: callApi_401_refreshed)
next
  show "refreshCount (fst (snd (callApi svc up now n False retryCount pm))) \<le> 1"
    using callApi_refreshCount[of svc up now n False retryCount pm] by simp
next
  show "refreshCount (fst (snd (callApi svc up now n True retryCount pm))) = 0"
    using callApi_refreshCount[of svc up now n True retryCount pm] by simp
next
  assume "status e = Some 401 \<and> refreshToken up n = Some refreshError"
  with assms show "callApi svc up now n False retryCount pm =
          (if pm \<noteq> None \<and> truthy (k_uuid svc)
           then (Thrown (refreshError\<lparr>credentialMarkedUnhealthy := True\<rparr>),
                 [EvPost n, EvRefresh,
                  EvMarkUnhealthyImmediately ''401 Unauthorized - Token refresh failed''],
                 Some (markProviderUnhealthyImmediately now KIRO_API (k_uuid svc)
                         (Some ''401 Unauthorized - Token refresh failed'') (the pm)))
           else (Thrown refreshError, [EvPost n, EvRefresh], pm))"
    by (cases pm) (simp_all add: callApi_401_refresh_failed markCredentialUnhealthy_def)
next
  assume "status e = Some 403"
  with assms show "callApi svc up now n isRetry retryCount pm =
          (if pm \<noteq> None \<and> truthy (k_uuid svc)
           then (Thrown (e\<lparr>credentialMarkedUnhealthy := True\<rparr>),
                 [EvPost n, EvMarkUnhealthyImmediately ''403 Forbidden''],
                 Some (markProviderUnhealthyImmediately now KIRO_API (k_uuid svc)
                         (Some ''403 Forbidden'') (the pm)))
           else (Thrown e, [EvPost n], pm))"
    by (cases pm) (simp_all add: callApi_403 markCredentialUnhealthy_def)
next
  assume a: "status e = Some 401 \<and> \<not> (isNetworkError e \<and> retryCount < maxRetriesOf svc)"
  then have "\<not> (transient e \<and> retryCount < maxRetriesOf svc)"
    by (auto simp: transient_def)
  with assms a show "callApi svc up now n True retryCount pm = (Thrown e, [EvPost n], pm)"
    by (intro callApi_give_up) auto
qed

theorem callApi_auth_errors_counterexample:
  "post always401 1 = Failed error401 \<and> status error401 = Some 401 \<and>
   callApi kiroA always401 1000 0 False 0 (Some twoKiro) =
     (Thrown error401, [EvPost 0, EvRefresh, EvPost 1], Some twoKiro) \<and>
   map isHealthy (poolOf twoKiro KIRO_API) = [True, True]"
proof -
  have p: "post always401 k = Failed error401" "refreshToken always401 k = None" for k
    by (simp_all add: always401_def)
  have s: "status error401 = Some 401" "\<not> isNetworkError error401"
    by (simp_all add: error401_def)
  have "\<not> transient error401" by (simp add: transient_def error401_def)
  then have 2: "callApi kiroA always401 1000 (Suc 0) True 0 (Some twoKiro) =
             (Thrown error401, [EvPost 1], Some twoKiro)"
    using callApi_give_up[OF p(1)[of "Suc 0"], where isRetry = True and svc = kiroA
            and retryCount = 0 and now = 1000 and pm = "Some twoKiro"] s
    by simp
  have "callApi kiroA always401 1000 0 False 0 (Some twoKiro) =
          (Thrown error401, [EvPost 0, EvRefresh, EvPost 1], Some twoKiro)"
    using callApi_401_refreshed[OF p(1)[of 0] s(1) p(2)[of 0], where svc = kiroA
            and retryCount = 0 and now = 1000 and pm = "Some twoKiro"]
    by (simp add: 2)
  then show ?thesis
    using p(1)[of 1] s(1) by (simp add: KIRO_API_def twoKiro_pool)
qed

theorem callApi_auth_errors_witness:
  "callApi kiroA always403 1000 0 False 0 (Some twoKiro) =
     (Thrown (error403\<lparr>credentialMarkedUnhealthy := True\<rparr>),
      [EvPost 0, EvMarkUnhealthyImmediately ''403 Forbidden''],
      Some (markProviderUnhealthyImmediately 1000 KIRO_API (Some ''a'') (Some ''403 Forbidden'')
              twoKiro)) \<and>
   callApi kiroA always403 1000 0 False 0 None = (Thrown error403, [EvPost 0], None) \<and>
   callApi kiroA refreshFails 1000 0 False 0 (Some twoKiro) =
     (Thrown (error401\<lparr>credentialMarkedUnhealthy := True\<rparr>),
      [EvPost 0, EvRefresh,
       EvMarkUnhealthyImmediately ''401 Unauthorized - Token refresh failed''],
      Some (markProviderUnhealthyImmediately 1000 KIRO_API (Some ''a'')
              (Some ''401 Unauthorized - Token refresh failed'') twoKiro)) \<and>
   callApi kiroA refreshFails 1000 0 False 0 None =
     (Thrown error401, [EvPost 0, EvRefresh], None) \<and>
   refreshCount (fst (snd (callApi kiroA always401 1000 0 False 0 (Some twoKiro)))) \<le> 1"
proof -
  have p: "post always403 0 = Failed error403" by (simp add: always403_def)
  have q: "post always401 0 = Failed error401" by (simp add: always401_def)
  have r: "post refreshFails 0 = Failed error401" "refreshToken refreshFails 0 = Some error401"
    by (simp_all add: refreshFails_def)
  from callApi_auth_errors[OF p, where svc = kiroA and now = 1000 and retryCount = 0
         and pm = "Some twoKiro" and isRetry = False]
       callApi_auth_errors[OF p, where svc = kiroA and now = 1000 and retryCount = 0
         and pm = None and isRetry = False]
       callApi_auth_errors[OF r(1), where svc = kiroA and now = 1000 and retryCount = 0
         and pm = "Some twoKiro" and refreshError = error401]
       callApi_auth_errors[OF r(1), where svc = kiroA and now = 1000 and retryCount = 0
         and pm = None and refreshError = error401]
       callApi_auth_errors[OF q, where svc = kiroA and now = 1000 and retryCount = 0
         and pm = "Some twoKiro"]
  show ?thesis
    using r(2) by (simp add: error403_def error401_def kiroA_def truthy_def)
qed

lemma immediate_mark_effect:
  "map isHealthy (poolOf (markProviderUnhealthyImmediately 1000 KIRO_API (Some ''a'')
      (Some ''403 Forbidden'') twoKiro) KIRO_API) = [False, True]"
  by (simp add: markProviderUnhealthyImmediately_def findProvider_def KIRO_API_def twoKiro_pool
        truthy_def poolOf_updCred)

lemma foldl_invariant_set:
  "P s \<Longrightarrow> (\<And>s e. e \<in> set es \<Longrightarrow> P s \<Longrightarrow> P (f s e)) \<Longrightarrow> P (foldl f s es)"
  by (induction es arbitrary: s) auto

lemma lastCacheControlIndex_bounds:
  "-1 \<le> lastCacheControlIndex msgs \<and> lastCacheControlIndex msgs < int (length msgs)"
  unfolding lastCacheControlIndex_def
  by (rule foldl_invariant_set[where P = "\<lambda>k. -1 \<le> k \<and> k < int (length msgs)"]) auto

lemma extract_fields:
  "lastCacheBreakpoint (extractCacheableContent env req) = lastCacheControlIndex (messages req)"
  "length (allMessagesTokens (extractCacheableContent env req)) = length (messages req)"
  "map cm_tokens (cachedMessages (extractCacheableContent env req)) =
     map (\<lambda>i. allMessagesTokens (extractCacheableContent env req) ! i)
         [0..<nat (lastCacheControlIndex (messages req) + 1)]"
  "map cm_index (cachedMessages (extractCacheableContent env req)) =
     [0..<nat (lastCacheControlIndex (messages req) + 1)]"
  "prefixMessagesTokens (extractCacheableContent env req) =
     sum_list (map cm_tokens (cachedMessages (extractCacheableContent env req)))"
  by (simp_all add: extractCacheableContent_def Let_def comp_def)

lemma matchMessages_tokens:
  "matchMessages optimistic cur prev broken lastM = (details, broken', lastM') \<Longrightarrow>
   map md_tokens details = map cm_tokens cur"
proof (induction cur arbitrary: prev broken lastM details broken' lastM')
  case Nil
  then show ?case by simp
next
  case (Cons c cs)
  then show ?case
    by (auto simp: Let_def split: prod.splits)
qed

lemma sum_filter_split:
  "sum_list (map f (filter P xs)) + sum_list (map f (filter (\<lambda>x. \<not> P x) xs)) =
   (sum_list (map f xs) :: nat)"
  by (induction xs) auto

lemma matchMessages_last:
  "matchMessages optimistic cur prev broken lastM = (details, broken', lastM') \<Longrightarrow>
   lastM' = lastM \<or> lastM' \<in> int ` set (map cm_index cur)"
proof (induction cur arbitrary: prev broken lastM details broken' lastM')
  case Nil
  then show ?case by simp
next
  case (Cons c cs)
  from Cons.prems obtain b l where
    rec: "matchMessages optimistic cs (tl prev) b l = (tl details, broken', lastM')"
    and l: "l = lastM \<or> l = int (cm_index c)"
    by (auto simp: Let_def split: prod.splits if_splits)
  from Cons.IH[OF rec] l show ?case by auto
qed

lemma sumTokens_split:
  assumes "-1 \<le> a" "a \<le> k"
  shows "sumTokens xs 0 a + sumTokens xs (a + 1) k = sumTokens xs 0 k"
proof -
  let ?n = "length xs"
  have le: "min (nat (a + 1)) ?n \<le> min (nat (k + 1)) ?n" using assms by simp
  have "[0..<min (nat (k + 1)) ?n] =
        [0..<min (nat (a + 1)) ?n] @ [min (nat (a + 1)) ?n..<min (nat (k + 1)) ?n]"
    using le by (metis le0 upt_add_eq_append le_add_diff_inverse)
  moreover have "[nat (a + 1)..<min (nat (k + 1)) ?n] = [min (nat (a + 1)) ?n..<min (nat (k + 1)) ?n]"
    by (cases "nat (a + 1) \<le> ?n") (simp_all add: min_def)
  ultimately show ?thesis
    using assms by (simp add: sumTokens_def)
qed

lemma sumTokens_prefix:
  assumes "-1 \<le> k" "k < int (length xs)"
  shows "sumTokens xs 0 k = sum_list (map (\<lambda>i. xs ! i) [0..<nat (k + 1)])"
  using assms by (simp add: sumTokens_def min_def)

lemma hitSplit_sum:
  assumes "hitSplit optimistic sc (extractCacheableContent env req) prev = (rd, cr)"
  shows "rd + cr = sc + prefixMessagesTokens (extractCacheableContent env req)"
proof -
  let ?cc = "extractCacheableContent env req"
  let ?k = "lastCacheControlIndex (messages req)"
  obtain details broken lastM where
    mm: "matchMessages optimistic (cachedMessages ?cc) (cp_cachedMessages prev) False (-1)
           = (details, broken, lastM)"
    by (cases "matchMessages optimistic (cachedMessages ?cc) (cp_cachedMessages prev) False (-1)")
  have kb: "-1 \<le> ?k" "?k < int (length (allMessagesTokens ?cc))"
    using lastCacheControlIndex_bounds[of "messages req"] by (simp_all add: extract_fields)
  have pre: "prefixMessagesTokens ?cc = sumTokens (allMessagesTokens ?cc) 0 ?k"
    using sumTokens_prefix[OF kb] by (simp add: extract_fields(5) extract_fields(3))
  have tok: "sum_list (map md_tokens details) = prefixMessagesTokens ?cc"
    using matchMessages_tokens[OF mm] by (simp add: extract_fields(5))
  have lm: "-1 \<le> lastM \<and> lastM \<le> ?k"
    using matchMessages_last[OF mm] kb(1) by (auto simp: extract_fields(4))
  show ?thesis
  proof (cases optimistic)
    case True
    with assms mm have "rd = sc + sum_list (map md_tokens (filter (\<lambda>d. md_status d = Hit) details))"
      "cr = sum_list (map md_tokens (filter (\<lambda>d. md_status d \<noteq> Hit) details))"
      by (simp_all add: hitSplit_def)
    then show ?thesis
      using sum_filter_split[of md_tokens "\<lambda>d. md_status d = Hit" details] tok by simp
  next
    case strict: False
    show ?thesis
    proof (cases "cachedMessages ?cc = []")
      case True
      with assms mm strict have "rd = sc" "cr = 0" by (simp_all add: hitSplit_def)
      moreover from True have "prefixMessagesTokens ?cc = 0" by (simp add: extract_fields(5))
      ultimately show ?thesis by simp
    next
      case ne: False
      show ?thesis
      proof (cases broken)
        case False
        with assms mm strict ne have "rd = sc + sumTokens (allMessagesTokens ?cc) 0 ?k" "cr = 0"
          by (simp_all add: hitSplit_def extract_fields(1))
        with pre show ?thesis by simp
      next
        case True
        with assms mm strict ne have
          "rd = (if lastM \<ge> 0 then sc + sumTokens (allMessagesTokens ?cc) 0 lastM else sc)"
          "cr = sumTokens (allMessagesTokens ?cc) (lastM + 1) ?k"
          by (simp_all add: hitSplit_def extract_fields(1))
        moreover have "lastM < 0 \<Longrightarrow> sumTokens (allMessagesTokens ?cc) 0 lastM = 0"
          by (simp add: sumTokens_def)
        ultimately have "rd + cr = sc + (sumTokens (allMessagesTokens ?cc) 0 lastM +
                                         sumTokens (allMessagesTokens ?cc) (lastM + 1) ?k)"
          by (cases "lastM \<ge> 0") simp_all
        with sumTokens_split[of lastM ?k "allMessagesTokens ?cc"] lm pre show ?thesis by simp
      qed
    qed
  qed
qed

lemma length_filter_concat_replicate:
  "length (filter P (concat (replicate n xs))) = n * length (filter P xs)"
  by (induction n) simp_all

lemma helloSystem_tokens:
  "countStaticPrefixTokens wordEnv helloSystem = 1502"
  by (simp add: countStaticPrefixTokens_def helloSystem_def countTokensSimple_def wordEnv_def
        wordTokens_def pushIf_def pushOpt_def ephemeral_def length_filter_concat_replicate)

lemma helloSystem_content:
  "hasCacheControl (extractCacheableContent wordEnv helloSystem)"
  "systemHasCacheControl (extractCacheableContent wordEnv helloSystem)"
  "prefixMessagesTokens (extractCacheableContent wordEnv helloSystem) = 0"
  by (simp_all add: extractCacheableContent_def helloSystem_def lastCacheControlIndex_def Let_def)

lemma helloSystem_cacheable: "totalCacheableTokens wordEnv helloSystem = 1502"
  by (simp add: totalCacheableTokens_def staticCacheableOf_def helloSystem_content
        helloSystem_tokens Let_def)

lemma defaultEstimator_fields [simp]:
  "e_enabled defaultEstimator" "minCacheableTokens defaultEstimator = 1024"
  "requestCache defaultEstimator = []"
  by (simp_all add: defaultEstimator_def newEstimator_def)

lemma bump_fields [simp]:
  "e_enabled (bump f est) = e_enabled est"
  "minCacheableTokens (bump f est) = minCacheableTokens est"
  "requestCache (bump f est) = requestCache est"
  "historyTTL (bump f est) = historyTTL est"
  by (simp_all add: bump_def)

lemma helloSystem_estimate:
  "fst (estimateCacheTokens wordEnv now helloSystem tin model defaultEstimator) =
     \<lparr>cache_read_input_tokens = 0, cache_creation_input_tokens = 1502,
      uncached_input_tokens = max 0 (tin - 1502), source = SrcCacheCreation\<rparr>"
  by (simp add: estimateCacheTokens_def helloSystem_content helloSystem_tokens lruGet_def Let_def)

lemma estimate_cases:
  "fst (estimateCacheTokens env now req tin model est) =
     (if \<not> e_enabled est
      then \<lparr>cache_read_input_tokens = 0, cache_creation_input_tokens = 0,
             uncached_input_tokens = tin, source = SrcDisabled\<rparr>
      else if \<not> hasCacheControl (extractCacheableContent env req)
      then \<lparr>cache_read_input_tokens = 0, cache_creation_input_tokens = 0,
             uncached_input_tokens = tin, source = SrcNoCacheControl\<rparr>
      else if totalCacheableTokens env req < minCacheableTokens est
      then \<lparr>cache_read_input_tokens = 0, cache_creation_input_tokens = 0,
             uncached_input_tokens = tin, source = SrcBelowThreshold\<rparr>
      else case fst (lruGet now (computeContentHash env model req)
                       (bump (\<lambda>s. s\<lparr>totalRequests := totalRequests s + 1\<rparr>) est)) of
             None \<Rightarrow>
               \<lparr>cache_read_input_tokens = 0,
                cache_creation_input_tokens = int (totalCacheableTokens env req),
                uncached_input_tokens = max 0 (tin - int (totalCacheableTokens env req)),
                source = SrcCacheCreation\<rparr>
           | Some item \<Rightarrow>
               (case hitSplit (OPTIMISTIC_MATCHING env) (staticCacheableOf env req)
                       (extractCacheableContent env req) (c_value item) of
                  (cacheRead, cacheCreation) \<Rightarrow>
                    \<lparr>cache_read_input_tokens = int cacheRead,
                     cache_creation_input_tokens = int cacheCreation,
                     uncached_input_tokens = max 0 (tin - int (totalCacheableTokens env req)),
                     source = (if cacheCreation > 0 then SrcCacheHitPartial else SrcCacheHit)\<rparr>))"
  by (simp add: estimateCacheTokens_def totalCacheableTokens_def staticCacheableOf_def Let_def
        split: prod.splits option.splits)

lemma estimate_past_threshold:
  assumes en: "e_enabled est" and cc: "hasCacheControl (extractCacheableContent env req)"
      and ge: "minCacheableTokens est \<le> totalCacheableTokens env req"
  shows "source (fst (estimateCacheTokens env now req tin model est))
           \<in> {SrcCacheHit, SrcCacheHitPartial, SrcCacheCreation} \<and>
         cache_read_input_tokens (fst (estimateCacheTokens env now req tin model est)) +
         cache_creation_input_tokens (fst (estimateCacheTokens env now req tin model est)) =
           int (totalCacheableTokens env req) \<and>
         0 \<le> cache_read_input_tokens (fst (estimateCacheTokens env now req tin model est)) \<and>
         0 \<le> cache_creation_input_tokens (fst (estimateCacheTokens env now req tin model est)) \<and>
         uncached_input_tokens (fst (estimateCacheTokens env now req tin model est)) =
           max 0 (tin - int (totalCacheableTokens env req))"
proof -
  let ?tc = "totalCacheableTokens env req"
  let ?get = "fst (lruGet now (computeContentHash env model req)
                       (bump (\<lambda>s. s\<lparr>totalRequests := totalRequests s + 1\<rparr>) est))"
  from ge have nlt: "\<not> ?tc < minCacheableTokens est" by simp
  show ?thesis
  proof (cases ?get)
    case None
    with en cc nlt show ?thesis by (simp add: estimate_cases)
  next
    case (Some item)
    obtain rd cr where hs: "hitSplit (OPTIMISTIC_MATCHING env) (staticCacheableOf env req)
                       (extractCacheableContent env req) (c_value item) = (rd, cr)"
      by (cases "hitSplit (OPTIMISTIC_MATCHING env) (staticCacheableOf env req)
                       (extractCacheableContent env req) (c_value item)")
    from hitSplit_sum[OF hs] have "rd + cr = ?tc" by (simp add: totalCacheableTokens_def)
    then have "int rd + int cr = int ?tc" by (metis of_nat_add)
    with Some hs en cc nlt show ?thesis by (simp add: estimate_cases)
  qed
qed

lemma estimate_early:
  assumes "\<not> e_enabled est \<or> \<not> hasCacheControl (extractCacheableContent env req) \<or>
           totalCacheableTokens env req < minCacheableTokens est"
  shows "source (fst (estimateCacheTokens env now req tin model est))
           \<in> {SrcDisabled, SrcNoCacheControl, SrcBelowThreshold} \<and>
         cache_read_input_tokens (fst (estimateCacheTokens env now req tin model est)) = 0 \<and>
         cache_creation_input_tokens (fst (estimateCacheTokens env now req tin model est)) = 0 \<and>
         uncached_input_tokens (fst (estimateCacheTokens env now req tin model est)) = tin"
  using assms by (auto simp: estimate_cases)

text \<open>
  C1. For every request, every tokenizer and every non-negative totalInputTokens,
  estimateCacheTokens returns cache_read_input_tokens, cache_creation_input_tokens and
  uncached_input_tokens that are non-negative, but their sum is totalInputTokens only when
  the estimate stops early (estimator disabled, no cache_control, cacheable tokens below
  the minimum) or the cacheable tokens (staticCacheable + prefixMessagesTokens) do not
  exceed totalInputTokens. When the estimator is enabled, the request has a cache
  breakpoint and the cacheable tokens reach the minimum and exceed totalInputTokens,
  uncached is clamped at 0 by \<open>Math.max\<close> and the sum is the cacheable count, which differs
  from totalInputTokens: the formula
  \<open>total_input = cache_read_input_tokens + cache_creation_input_tokens + uncached_input_tokens\<close>
  given for the method does not hold there.
\<close>

theorem estimate_token_sum:
  assumes "0 \<le> totalInputTokens"
  shows "(let r = fst (estimateCacheTokens env now req totalInputTokens model est);
              tc = int (totalCacheableTokens env req)
          in 0 \<le> cache_read_input_tokens r \<and> 0 \<le> cache_creation_input_tokens r \<and>
             0 \<le> uncached_input_tokens r \<and>
             tokenSum r =
               (if source r \<in> {SrcDisabled, SrcNoCacheControl, SrcBelowThreshold}
                then totalInputTokens
                else max totalInputTokens tc) \<and>
             (e_enabled est \<and> hasCacheControl (extractCacheableContent env req) \<and>
              int (minCacheableTokens est) \<le> tc \<and> totalInputTokens < tc \<longrightarrow>
                source r \<in> {SrcCacheHit, SrcCacheHitPartial, SrcCacheCreation} \<and>
                uncached_input_tokens r = 0 \<and>
                tokenSum r = tc \<and> tokenSum r \<noteq> totalInputTokens))"
proof (cases "\<not> e_enabled est \<or> \<not> hasCacheControl (extractCacheableContent env req) \<or>
              totalCacheableTokens env req < minCacheableTokens est")
  case True
  from estimate_early[OF True, of now totalInputTokens model] True assms show ?thesis
    by (auto simp: tokenSum_def Let_def)
next
  case False
  then have en: "e_enabled est" and cc: "hasCacheControl (extractCacheableContent env req)"
    and ge: "minCacheableTokens est \<le> totalCacheableTokens env req" by auto
  from estimate_past_threshold[OF en cc ge, of now totalInputTokens model] assms show ?thesis
    by (auto simp: tokenSum_def Let_def max_def)
qed

theorem estimate_token_sum_witness:
  "(0::int) \<le> 100 \<and>
   e_enabled defaultEstimator \<and>
   hasCacheControl (extractCacheableContent wordEnv helloSystem) \<and>
   minCacheableTokens defaultEstimator = 1024 \<and>
   totalCacheableTokens wordEnv helloSystem = 1502 \<and>
   fst (estimateCacheTokens wordEnv 0 helloSystem 100 ''claude-sonnet-4'' defaultEstimator) =
     \<lparr>cache_read_input_tokens = 0, cache_creation_input_tokens = 1502,
      uncached_input_tokens = 0, source = SrcCacheCreation\<rparr> \<and>
   tokenSum (fst (estimateCacheTokens wordEnv 0 helloSystem 100 ''claude-sonnet-4''
                    defaultEstimator)) = 1502 \<and>
   tokenSum (fst (estimateCacheTokens wordEnv 0 helloSystem 100 ''claude-sonnet-4''
                    defaultEstimator)) \<noteq> 100"
proof -
  have "(0::int) \<le> 100" by simp
  from estimate_token_sum[OF this, of wordEnv 0 helloSystem "''claude-sonnet-4''" defaultEstimator]
  show ?thesis
    by (simp add: helloSystem_cacheable helloSystem_content helloSystem_estimate Let_def)
qed

lemma getMinCacheTokens_table:
  "getMinCacheTokens ''claude-opus-4-5'' = 4096"
  "getMinCacheTokens ''claude-opus-4-5-20251101'' = 4096"
  "getMinCacheTokens ''claude-opus-4-1'' = 1024"
  "getMinCacheTokens ''claude-sonnet-4-5'' = 1024"
  "getMinCacheTokens ''claude-sonnet-3-7'' = 1024"
  "getMinCacheTokens ''claude-haiku-4-5'' = 4096"
  "getMinCacheTokens ''claude-haiku-3-5'' = 2048"
  "getMinCacheTokens ''claude-haiku-3'' = 2048"
  "getMinCacheTokens ''gpt-4o'' = 1024"
  "getMinCacheTokens [] = 1024"
  by (simp_all add: getMinCacheTokens_def MODEL_MIN_CACHE_TOKENS_def startsWith_def)

text \<open>
  C4. For every tokenizer, request and model, with the estimator enabled and a cache
  breakpoint in the request: the minimum that ends the estimate early is the
  \<open>minCacheableTokens\<close> of the estimator's configuration (1024 by default), whatever the
  model, and \<open>getMinCacheTokens\<close> is never consulted. So a request whose cacheable tokens
  reach the configured minimum but lie below the model-specific minimum of
  \<open>MODEL_MIN_CACHE_TOKENS\<close> (4096 for claude-opus-4-5 and claude-haiku-4-5, 2048 for
  claude-haiku-3-5 and claude-haiku-3) is not reported as uncached: the estimate goes on to
  the history, and cache_read and cache_creation add up to the cacheable tokens instead of
  both being 0.
\<close>

theorem estimate_ignores_model_minimum:
  assumes "e_enabled est" and "hasCacheControl (extractCacheableContent env req)"
  shows "(let r = fst (estimateCacheTokens env now req totalInputTokens model est);
              tc = totalCacheableTokens env req
          in (source r = SrcBelowThreshold \<longleftrightarrow> tc < minCacheableTokens est) \<and>
             (minCacheableTokens est \<le> tc \<and> tc < getMinCacheTokens model \<and> 0 < tc \<longrightarrow>
                source r \<in> {SrcCacheHit, SrcCacheHitPartial, SrcCacheCreation} \<and>
                cache_read_input_tokens r + cache_creation_input_tokens r = int tc \<and>
                \<not> (cache_read_input_tokens r = 0 \<and> cache_creation_input_tokens r = 0) \<and>
                uncached_input_tokens r = max 0 (totalInputTokens - int tc)))"
proof (cases "totalCacheableTokens env req < minCacheableTokens est")
  case True
  with assms show ?thesis
    by (simp add: estimate_cases Let_def)
next
  case False
  then have ge: "minCacheableTokens est \<le> totalCacheableTokens env req" by simp
  from estimate_past_threshold[OF assms ge, of now totalInputTokens model] False show ?thesis
    by (auto simp: Let_def)
qed

theorem estimate_ignores_model_minimum_witness:
  "e_enabled defaultEstimator \<and>
   hasCacheControl (extractCacheableContent wordEnv helloSystem) \<and>
   minCacheableTokens defaultEstimator = 1024 \<and>
   totalCacheableTokens wordEnv helloSystem = 1502 \<and>
   getMinCacheTokens ''claude-opus-4-5'' = 4096 \<and>
   fst (estimateCacheTokens wordEnv 0 helloSystem 2000 ''claude-opus-4-5'' defaultEstimator) =
     \<lparr>cache_read_input_tokens = 0, cache_creation_input_tokens = 1502,
      uncached_input_tokens = 498, source = SrcCacheCreation\<rparr> \<and>
   source (fst (estimateCacheTokens wordEnv 0 helloSystem 2000 ''claude-opus-4-5''
                  defaultEstimator)) \<noteq> SrcBelowThreshold"
  using estimate_ignores_model_minimum[of defaultEstimator wordEnv helloSystem 0 2000
          "''claude-opus-4-5''"]
  by (simp add: helloSystem_cacheable helloSystem_content helloSystem_estimate
        getMinCacheTokens_table Let_def)

end
